theory Spec2Isabelle
  imports Main "HOL-Library.AList" "HOL-Library.Sublist"
begin

chapter \<open>git-ci: the pipeline execution engine\<close>

text \<open>
  A shallow embedding of the engine of git-ci (Go): the job graph validator
  (\<^verbatim>\<open>validatePipeline\<close>, \<^verbatim>\<open>checkCircularDependencies\<close>), the native process backend
  (\<^verbatim>\<open>BashRunner\<close>), the containerized backend (\<^verbatim>\<open>DockerRunner\<close>) and the job scheduler
  (\<^verbatim>\<open>runJobsSequential\<close>, \<^verbatim>\<open>runJobsParallel\<close>, \<^verbatim>\<open>CmdRun\<close>).

  Conventions.
  \<^item> A Go \<^verbatim>\<open>string\<close> is a \<^typ>\<open>string\<close> (a list of bytes); a Go \<^verbatim>\<open>int\<close> is an \<^typ>\<open>int\<close>
    (the counters of the engine count steps, jobs and attempts and stay far below \<open>2^63\<close>).
  \<^item> A Go \<^verbatim>\<open>map[string]T\<close> is an association list with pairwise distinct keys; the
    order of the list is the order in which one \<^verbatim>\<open>range\<close> loop visits the map.
  \<^item> A Go \<^verbatim>\<open>error\<close> is a value of \<open>error\<close>, \<^verbatim>\<open>nil\<close> is \<^term>\<open>None\<close>.
  \<^item> Everything outside the process (subprocesses, the clock, the file system, the Docker
    daemon) is a field of the record \<open>world\<close>: what the outside answers is an oracle
    indexed by the number of questions asked so far, what the program does to the outside
    is appended to \<open>events\<close>. The file system is taken not to change during a run: the
    answers of \<^verbatim>\<open>filepath.Abs\<close>, \<^verbatim>\<open>os.Stat\<close> and \<^verbatim>\<open>exec.LookPath\<close> do not depend on that
    number.
  \<^item> Console decoration (\<^verbatim>\<open>OutputFormatter\<close> headers, colours, progress lines) is left out;
    the per-step status lines of a job are kept as its \<open>step_report\<close> log.
\<close>

section \<open>Strings and formatting\<close>

text \<open>\<^verbatim>\<open>strings.Join(elems, sep)\<close>.\<close>

fun join :: "string list \<Rightarrow> string \<Rightarrow> string" where
  "join [] sep = []"
| "join [x] sep = x"
| "join (x # y # ys) sep = x @ sep @ join (y # ys) sep"

text \<open>\<^verbatim>\<open>strings.Repeat(s, n)\<close> for \<open>n \<ge> 0\<close>.\<close>

definition repeat :: "string \<Rightarrow> nat \<Rightarrow> string" where
  "repeat s n = concat (replicate n s)"

text \<open>\<^verbatim>\<open>strings.Contains(s, substr)\<close>.\<close>

definition contains :: "string \<Rightarrow> string \<Rightarrow> bool" where
  "contains s substr = sublist substr s"

text \<open>The verb \<^verbatim>\<open>%d\<close> of \<^verbatim>\<open>fmt\<close>: decimal digits, with a minus sign below zero.\<close>

definition digit :: "nat \<Rightarrow> char" where
  "digit d = ''0123456789'' ! d"

fun digits :: "nat \<Rightarrow> string" where
  "digits n = (if n < 10 then [digit n] else digits (n div 10) @ [digit (n mod 10)])"

definition itoa :: "int \<Rightarrow> string" where
  "itoa i = (if i < 0 then CHR ''-'' # digits (nat (- i)) else digits (nat i))"

section \<open>Errors\<close>

text \<open>
  A Go error is its message and, when it was built by \<^verbatim>\<open>fmt.Errorf\<close> with the verb
  \<^verbatim>\<open>%w\<close>, the error it wraps (\<^verbatim>\<open>errors.Unwrap\<close>).
\<close>

datatype error = ErrorString string | WrapError string error

fun Error :: "error \<Rightarrow> string" where
  "Error (ErrorString msg) = msg"
| "Error (WrapError msg cause) = msg"

fun Unwrap :: "error \<Rightarrow> error option" where
  "Unwrap (ErrorString msg) = None"
| "Unwrap (WrapError msg cause) = Some cause"

text \<open>\<^verbatim>\<open>fmt.Errorf(prefix + "%w", err)\<close>.\<close>

definition Errorf_w :: "string \<Rightarrow> error \<Rightarrow> error" where
  "Errorf_w pre err = WrapError (pre @ Error err) err"

section \<open>The pipeline model (package types)\<close>

type_synonym strmap = "(string \<times> string) list"

record RetryPolicy =
  MaxAttempts :: int
  Delay :: string
  Backoff :: string

record Step =
  Name :: string
  Run :: string
  Uses :: string
  With :: strmap
  Env :: strmap
  If :: string
  ContinueOnErr :: bool
  Shell :: string
  WorkingDir :: string
  TimeoutMin :: int
  RetryPolicy :: "RetryPolicy option"

record Container =
  Image :: string
  Env :: strmap
  Volumes :: "string list"

record ArtifactConfig =
  Paths :: "string list"

record CacheConfig =
  Paths :: "string list"

record TriggerConfig =
  Project :: string
  Branch :: string

record Job =
  Name :: string
  Steps :: "Step list"
  Environment :: strmap
  RunsOn :: string
  Tags :: "string list"
  Image :: string
  Container :: "Container option"
  Needs :: "string list"
  Stage :: string
  AllowFailure :: bool
  Artifacts :: "ArtifactConfig option"
  Cache :: "CacheConfig option"
  Trigger :: "TriggerConfig option"

type_synonym jobmap = "(string \<times> Job) list"

record Pipeline =
  Name :: string
  Jobs :: jobmap
  Environment :: strmap
  Stages :: "string list"

text \<open>
  Only the fields that the engine reads are kept. A field name shared by two structs is
  written with the struct's name: \<open>Step.Name\<close>, \<open>Job.Name\<close>, \<open>Pipeline.Name\<close>.
\<close>

section \<open>The job graph validator (handlers/validate.go)\<close>

text \<open>\<^verbatim>\<open>'%s'\<close> inside a format string.\<close>

definition quoted :: "string \<Rightarrow> string" where
  "quoted s = CHR 0x27 # s @ [CHR 0x27]"

text \<open>
  \<^verbatim>\<open>checkCircularDependencies\<close>: a depth-first walk along \<^verbatim>\<open>needs\<close> that carries the path
  walked so far in \<open>visited\<close>. \<open>checkNeeds\<close> is its \<^verbatim>\<open>for _, need := range job.Needs\<close>
  loop, which returns at the first error. A need that names no job is passed over.
\<close>

function (sequential)
  checkCircularDependencies :: "string \<Rightarrow> Job \<Rightarrow> jobmap \<Rightarrow> string list \<Rightarrow> error option"
  and checkNeeds :: "string list \<Rightarrow> jobmap \<Rightarrow> string list \<Rightarrow> error option"
where
  "checkCircularDependencies jobName job allJobs visited =
     (if jobName \<in> set visited
      then Some (ErrorString
        (''circular dependency detected: '' @ join (visited @ [jobName]) '' -> ''))
      else checkNeeds (Needs job) allJobs (visited @ [jobName]))"
| "checkNeeds [] allJobs visited = None"
| "checkNeeds (need # rest) allJobs visited =
     (case map_of allJobs need of
        Some dependentJob \<Rightarrow>
          (case checkCircularDependencies need dependentJob allJobs visited of
             Some err \<Rightarrow> Some err
           | None \<Rightarrow> checkNeeds rest allJobs visited)
      | None \<Rightarrow> checkNeeds rest allJobs visited)"
  by pat_completeness auto
termination
proof (relation "inv_image (less_than <*lex*> less_than <*lex*> less_than)
    (\<lambda>x. case x of
       Inl (jobName, job, allJobs, visited) \<Rightarrow>
         (card (fst ` set allJobs - set visited)
            + (if jobName \<in> fst ` set allJobs then 0 else 1), 0::nat, 0::nat)
     | Inr (needs, allJobs, visited) \<Rightarrow>
         (card (fst ` set allJobs - set visited), 1, length needs))", goal_cases)
  case 1
  then show ?case by (intro wf_inv_image wf_lex_prod wf_less_than)
next
  case (2 jobName job allJobs visited)
  show ?case
  proof (cases "jobName \<in> fst ` set allJobs")
    case True
    with 2 have "fst ` set allJobs - set (visited @ [jobName])
        \<subset> fst ` set allJobs - set visited"
      by auto
    then have "card (fst ` set allJobs - set (visited @ [jobName]))
        < card (fst ` set allJobs - set visited)"
      by (intro psubset_card_mono) auto
    with True show ?thesis by simp
  next
    case False
    then have "fst ` set allJobs - set (visited @ [jobName])
        = fst ` set allJobs - set visited"
      by auto
    with False show ?thesis by simp
  qed
next
  case 3
  then show ?case by simp
next
  case (4 need rest allJobs visited dependentJob)
  then have "need \<in> fst ` set allJobs"
    by (metis map_of_SomeD fst_conv image_eqI)
  then show ?case by simp
next
  case 5
  then show ?case by simp
qed

text \<open>The strict checks of the steps of one job; \<open>i\<close> is the index of the first step.\<close>

fun validateSteps :: "string \<Rightarrow> int \<Rightarrow> Step list \<Rightarrow> string list" where
  "validateSteps jobName i [] = []"
| "validateSteps jobName i (step # rest) =
     (if Step.Name step = '''' \<and> Run step = '''' \<and> Uses step = ''''
      then [''job '' @ quoted jobName @ '' step '' @ itoa (i + 1) @ '' is empty'']
      else [])
     @ (if TimeoutMin step < 0
        then [''job '' @ quoted jobName @ '' step '' @ itoa (i + 1) @ '' has invalid timeout'']
        else [])
     @ validateSteps jobName (i + 1) rest"

text \<open>The body of the loop \<^verbatim>\<open>for jobName, job := range pipeline.Jobs\<close>.\<close>

definition validateJob :: "Pipeline \<Rightarrow> bool \<Rightarrow> string \<Rightarrow> Job \<Rightarrow> string list" where
  "validateJob pipeline strict jobName job =
     (if length (Steps job) = 0 \<and> Trigger job = None
      then [''job '' @ quoted jobName @ '' has no steps or trigger'']
      else [])
     @ (if Stage job \<noteq> '''' \<and> length (Stages pipeline) > 0 \<and> Stage job \<notin> set (Stages pipeline)
        then [''job '' @ quoted jobName @ '' references undefined stage '' @ quoted (Stage job)]
        else [])
     @ concat (map (\<lambda>need.
         if need \<notin> fst ` set (Jobs pipeline)
         then [''job '' @ quoted jobName @ '' depends on non-existent job '' @ quoted need]
         else []) (Needs job))
     @ (case checkCircularDependencies jobName job (Jobs pipeline) [] of
          Some err \<Rightarrow> [Error err]
        | None \<Rightarrow> [])
     @ (if strict then
          (if RunsOn job = '''' \<and> Job.Image job = '''' \<and> Container job = None
              \<and> length (Tags job) = 0
           then [''job '' @ quoted jobName @ '' has no runner specified'']
           else [])
          @ validateSteps jobName 0 (Steps job)
          @ concat (map (\<lambda>key.
              if key = ''''
              then [''job '' @ quoted jobName @ '' has empty environment variable key'']
              else []) (map fst (Job.Environment job)))
          @ (case Artifacts job of
               Some artifacts \<Rightarrow>
                 if length (ArtifactConfig.Paths artifacts) = 0
                 then [''job '' @ quoted jobName @ '' has artifacts defined but no paths'']
                 else []
             | None \<Rightarrow> [])
          @ (case Cache job of
               Some cache \<Rightarrow>
                 if length (CacheConfig.Paths cache) = 0
                 then [''job '' @ quoted jobName @ '' has cache defined but no paths'']
                 else []
             | None \<Rightarrow> [])
        else [])"

text \<open>\<^verbatim>\<open>validatePipeline\<close>; the pointer \<^verbatim>\<open>pipeline\<close> may be \<^verbatim>\<open>nil\<close>.\<close>

definition validatePipeline :: "Pipeline option \<Rightarrow> bool \<Rightarrow> string list" where
  "validatePipeline p strict =
     (case p of
        None \<Rightarrow> [''pipeline is nil'']
      | Some pipeline \<Rightarrow>
          (if Pipeline.Name pipeline = '''' then [''pipeline name is empty''] else [])
          @ (if length (Jobs pipeline) = 0 then [''no jobs defined in pipeline''] else [])
          @ concat (map (\<lambda>(jobName, job). validateJob pipeline strict jobName job)
              (Jobs pipeline)))"

text \<open>
  The \<^verbatim>\<open>needs\<close> relation of a job map: \<open>a\<close> needs \<open>b\<close>, and both are jobs of the map.
  A chain is a list of jobs in which each one needs the next.
\<close>

definition needsRel :: "jobmap \<Rightarrow> (string \<times> string) set" where
  "needsRel allJobs =
     {(a, b). \<exists>job. map_of allJobs a = Some job \<and> b \<in> set (Needs job)
                \<and> b \<in> fst ` set allJobs}"

fun needsChain :: "jobmap \<Rightarrow> string list \<Rightarrow> bool" where
  "needsChain allJobs [] = True"
| "needsChain allJobs [a] = True"
| "needsChain allJobs (a # b # rest) =
     ((case map_of allJobs a of
         Some job \<Rightarrow> b \<in> set (Needs job) \<and> b \<in> fst ` set allJobs
       | None \<Rightarrow> False)
      \<and> needsChain allJobs (b # rest))"

section \<open>Runner configuration and job summary (packages config, runners)\<close>

record RunnerConfig =
  DryRun :: bool
  Verbose :: bool
  PullImages :: bool
  NoCache :: bool
  WorkDir :: string
  Environment :: strmap
  Timeout :: int

record JobSummary =
  JobName :: string
  TotalSteps :: int
  CompletedSteps :: int
  FailedSteps :: int
  SkippedSteps :: int
  Duration :: int
  Success :: bool
  Errors :: "string list"

section \<open>The outside world\<close>

text \<open>
  An \<^verbatim>\<open>exec.Cmd\<close>: the program, its argument vector (\<open>Args\<close> starts with the program, as
  \<^verbatim>\<open>exec.Command\<close> builds it, so it is never empty), the directory, the environment as
  \<^verbatim>\<open>KEY=VALUE\<close> strings, and the timeout in minutes of the context it was built with, if
  any.
\<close>

record Cmd =
  Path :: string
  Args :: "string list"
  Dir :: string
  Env :: "string list"
  CtxTimeoutMin :: "int option"

text \<open>
  How far a subprocess got: the creation of one of its pipes failed, it did not start, or
  it ran, wrote to standard output and standard error, and \<^verbatim>\<open>Wait\<close> returned.
\<close>

datatype proc_outcome =
    StdoutPipeFailed error
  | StderrPipeFailed error
  | StartFailed error
  | Exited string string "error option"

text \<open>The error of \<^verbatim>\<open>cmd.Run()\<close> and \<^verbatim>\<open>cmd.Output()\<close>, and the output of the latter.\<close>

fun runError :: "proc_outcome \<Rightarrow> error option" where
  "runError (StdoutPipeFailed e) = Some e"
| "runError (StderrPipeFailed e) = Some e"
| "runError (StartFailed e) = Some e"
| "runError (Exited out errOut werr) = werr"

fun stdoutOf :: "proc_outcome \<Rightarrow> string" where
  "stdoutOf (Exited out errOut werr) = out"
| "stdoutOf other = []"

text \<open>What the Docker client is asked to create: \<^verbatim>\<open>container.Config\<close> and \<^verbatim>\<open>HostConfig\<close>.\<close>

record Mount =
  Source :: string
  Target :: string
  ReadOnly :: bool

record ContainerSpec =
  Image :: string
  Cmd :: "string list"
  WorkingDir :: string
  Env :: "string list"
  Mounts :: "Mount list"
  Memory :: int
  MemorySwap :: int
  CPUShares :: int
  ContainerName :: string

text \<open>
  The answer of \<^verbatim>\<open>ContainerLogs\<close> followed by \<^verbatim>\<open>stdcopy.StdCopy\<close>, and what arrives first on
  the two channels of \<^verbatim>\<open>ContainerWait\<close>.
\<close>

datatype logs_outcome = LogsFailed error | CopyFailed error | LogsEOF | LogsDone

datatype wait_outcome = WaitError "error option" | WaitStatus int

datatype event =
    Exec Cmd
  | Sleep int
  | ImagePull string
  | ContainerCreate ContainerSpec
  | ContainerStart string
  | ContainerStop string
  | ContainerRemove string

text \<open>
  The operating system: subprocesses (the outcome of the \<open>n\<close>-th question asked of the
  outside), the time since the job started in nanoseconds, \<^verbatim>\<open>filepath.Abs\<close>,
  \<^verbatim>\<open>os.IsNotExist(os.Stat)\<close>, \<^verbatim>\<open>exec.LookPath\<close> (the path found, empty if none, and the
  error), \<^verbatim>\<open>os.Environ()\<close>,
  \<^verbatim>\<open>time.ParseDuration\<close> (nanoseconds), \<^verbatim>\<open>filepath.Join\<close> and \<^verbatim>\<open>time.Now().Unix()\<close>.
\<close>

record OS =
  proc :: "nat \<Rightarrow> Cmd \<Rightarrow> proc_outcome"
  elapsed :: "nat \<Rightarrow> int"
  absPath :: "string \<Rightarrow> error + string"
  notExist :: "string \<Rightarrow> bool"
  lookPath :: "string \<Rightarrow> string \<times> error option"
  osEnviron :: "string list"
  parseDuration :: "string \<Rightarrow> int option"
  joinPath :: "string \<Rightarrow> string \<Rightarrow> string"
  unixNow :: "nat \<Rightarrow> int"

text \<open>The Docker daemon behind \<^verbatim>\<open>client.Client\<close>; an image is the list of its tags.\<close>

record Daemon =
  newClient :: "error option"
  ping :: "error option"
  imageList :: "nat \<Rightarrow> error + string list list"
  imagePull :: "nat \<Rightarrow> string \<Rightarrow> error option"
  containerCreate :: "nat \<Rightarrow> ContainerSpec \<Rightarrow> error + string"
  containerStart :: "nat \<Rightarrow> string \<Rightarrow> error option"
  containerLogs :: "nat \<Rightarrow> string \<Rightarrow> logs_outcome"
  containerWait :: "nat \<Rightarrow> string \<Rightarrow> wait_outcome"
  containerRemove :: "nat \<Rightarrow> string \<Rightarrow> error option"

record world =
  tick :: nat
  events :: "event list"
  os :: OS
  daemon :: Daemon

definition asked :: "world \<Rightarrow> world" where
  "asked w = w\<lparr>tick := Suc (tick w)\<rparr>"

definition did :: "event \<Rightarrow> world \<Rightarrow> world" where
  "did ev w = w\<lparr>events := events w @ [ev]\<rparr>"

text \<open>Running a command to its end, in whichever way (\<^verbatim>\<open>Start\<close>/\<^verbatim>\<open>Wait\<close>, \<^verbatim>\<open>Run\<close>, \<^verbatim>\<open>Output\<close>).\<close>

definition launch :: "Cmd \<Rightarrow> world \<Rightarrow> proc_outcome \<times> world" where
  "launch cmd w = (proc (os w) (tick w) cmd, asked (did (Exec cmd) w))"

text \<open>\<^verbatim>\<open>time.Since(startTime)\<close> and \<^verbatim>\<open>time.Sleep\<close>.\<close>

definition readClock :: "world \<Rightarrow> int \<times> world" where
  "readClock w = (elapsed (os w) (tick w), asked w)"

definition sleep :: "int \<Rightarrow> world \<Rightarrow> world" where
  "sleep d w = did (Sleep d) w"

text \<open>
  \<^verbatim>\<open>filepath.Base\<close> (with \<^verbatim>\<open>/\<close> as the separator) and \<^verbatim>\<open>exec.Command\<close>: a name without a
  directory part is looked up with \<^verbatim>\<open>exec.LookPath\<close> and the path found, if any, becomes
  \<open>Path\<close>; \<open>Args\<close> starts with the name as given. The error of the lookup, which
  \<^verbatim>\<open>exec.Command\<close> keeps for \<^verbatim>\<open>Start\<close> to return, is one of the ways in which \<open>proc\<close>
  can answer for such a command.
\<close>

definition filepath_Base :: "string \<Rightarrow> string" where
  "filepath_Base path =
     (if path = '''' then ''.''
      else let path = rev (dropWhile (\<lambda>c. c = CHR ''/'') (rev path));
               path = rev (takeWhile (\<lambda>c. c \<noteq> CHR ''/'') (rev path))
           in if path = '''' then ''/'' else path)"

definition Command :: "OS \<Rightarrow> string \<Rightarrow> string list \<Rightarrow> Cmd" where
  "Command sys name arg =
     (let cmd = \<lparr>Path = name, Args = name # arg, Dir = '''', Cmd.Env = [],
                  CtxTimeoutMin = None\<rparr>
      in if filepath_Base name = name
         then (let (lp, err) = lookPath sys name
               in if lp \<noteq> '''' then cmd\<lparr>Path := lp\<rparr> else cmd)
         else cmd)"

text \<open>
  A panic of the Go runtime ends the program; a function that can panic returns an
  \<open>outcome\<close>.
\<close>

datatype 'a outcome = Panic string | Done 'a

section \<open>The process backend (BashRunner)\<close>

text \<open>
  \<^verbatim>\<open>shouldRunStep\<close>: the guard of a step. The environment is a parameter of the Go function
  that its body never reads.
\<close>

definition shouldRunStep :: "Step \<Rightarrow> strmap \<Rightarrow> bool" where
  "shouldRunStep step env =
     (if If step = '''' then True
      else let condition = If step in
        if condition = ''always()'' then True
        else if condition = ''success()'' then True
        else if condition = ''failure()'' then False
        else if condition = ''cancelled()'' then False
        else True)"

text \<open>\<^verbatim>\<open>strings.TrimSpace\<close> (on ASCII white space), \<^verbatim>\<open>strings.Split\<close> at one byte,
  \<^verbatim>\<open>strings.TrimPrefix\<close>.\<close>

definition isSpace :: "char \<Rightarrow> bool" where
  "isSpace c = (c \<in> set [CHR '' '', CHR 0x09, CHR 0x0A, CHR 0x0B, CHR 0x0C, CHR 0x0D])"

definition trimSpace :: "string \<Rightarrow> string" where
  "trimSpace s = rev (dropWhile isSpace (rev (dropWhile isSpace s)))"

fun splitOn :: "char \<Rightarrow> string \<Rightarrow> string list" where
  "splitOn c [] = [[]]"
| "splitOn c (x # xs) =
     (if x = c then [] # splitOn c xs
      else (case splitOn c xs of
              [] \<Rightarrow> [[x]]
            | y # ys \<Rightarrow> (x # y) # ys))"

definition trimPrefix :: "string \<Rightarrow> string \<Rightarrow> string" where
  "trimPrefix s pre = (if prefix pre s then drop (length pre) s else s)"

text \<open>A value of a Go map; a missing key reads as the empty string.\<close>

definition lookup :: "strmap \<Rightarrow> string \<Rightarrow> string" where
  "lookup m k = (case map_of m k of Some v \<Rightarrow> v | None \<Rightarrow> '''')"

text \<open>
  The runner: its configuration and the map \<^verbatim>\<open>environment\<close> of the markers it injects.
  \<^verbatim>\<open>NewBashRunner\<close> is called with a configuration that is not \<^verbatim>\<open>nil\<close>.
\<close>

record BashRunner =
  config :: RunnerConfig
  environment :: strmap

definition NewBashRunner :: "RunnerConfig \<Rightarrow> BashRunner" where
  "NewBashRunner cfg = \<lparr>config = cfg, environment = []\<rparr>"

text \<open>What \<^verbatim>\<open>RunJob\<close> reports of each step through its formatter, in order.\<close>

datatype step_report =
    StepSkipped Step
  | StepFailed Step error
  | StepCompleted Step
  | JobTimedOut

text \<open>\<^verbatim>\<open>mergeEnvironments\<close>: later maps overwrite earlier ones.\<close>

definition mergeEnvironments :: "strmap list \<Rightarrow> strmap" where
  "mergeEnvironments envs =
     foldl (\<lambda>result env. foldl (\<lambda>res (k, v). AList.update k v res) result env) [] envs"

definition getGitBranch :: "string \<Rightarrow> world \<Rightarrow> string \<times> world" where
  "getGitBranch workdir w =
     (let cmd = (Command (os w) ''git'' [''rev-parse'', ''--abbrev-ref'', ''HEAD''])\<lparr>Dir := workdir\<rparr>;
          (output, w') = launch cmd w
      in (case runError output of
            Some err \<Rightarrow> ''''
          | None \<Rightarrow> trimSpace (stdoutOf output), w'))"

definition getGitCommit :: "string \<Rightarrow> world \<Rightarrow> string \<times> world" where
  "getGitCommit workdir w =
     (let cmd = (Command (os w) ''git'' [''rev-parse'', ''HEAD''])\<lparr>Dir := workdir\<rparr>;
          (output, w') = launch cmd w
      in (case runError output of
            Some err \<Rightarrow> ''''
          | None \<Rightarrow> trimSpace (stdoutOf output), w'))"

definition setupJobEnvironment ::
    "Job \<Rightarrow> string \<Rightarrow> BashRunner \<Rightarrow> world \<Rightarrow> BashRunner \<times> world" where
  "setupJobEnvironment job workdir r w =
     (let env = environment r;
          env = AList.update ''CI'' ''true'' env;
          env = AList.update ''GIT_CI'' ''true'' env;
          env = AList.update ''BASH_RUNNER'' ''true'' env;
          env = AList.update ''JOB_NAME'' (Job.Name job) env;
          env = AList.update ''WORKSPACE'' workdir env;
          (gitBranch, w1) = getGitBranch workdir w;
          env = (if gitBranch \<noteq> '''' then AList.update ''GIT_BRANCH'' gitBranch env else env);
          (gitCommit, w2) = getGitCommit workdir w1;
          env = (if gitCommit \<noteq> '''' then AList.update ''GIT_COMMIT'' gitCommit env else env)
      in (r\<lparr>environment := env\<rparr>, w2))"

text \<open>\<^verbatim>\<open>fmt.Sprintf("%s=%s", k, v)\<close> and \<^verbatim>\<open>buildStepEnvironment\<close>.\<close>

definition keyValue :: "string \<times> string \<Rightarrow> string" where
  "keyValue kv = fst kv @ ''='' @ snd kv"

definition buildStepEnvironment ::
    "BashRunner \<Rightarrow> world \<Rightarrow> strmap \<Rightarrow> strmap \<Rightarrow> string list" where
  "buildStepEnvironment r w jobEnv stepEnv =
     osEnviron (os w) @ map keyValue (environment r) @ map keyValue jobEnv
       @ map keyValue stepEnv"

text \<open>
  What a subprocess reads for a key of its environment: \<^verbatim>\<open>os/exec\<close> keeps, of the entries
  with the same key, the last one. An entry without \<^verbatim>\<open>=\<close> defines nothing.
\<close>

definition entryKey :: "string \<Rightarrow> string" where
  "entryKey e = takeWhile (\<lambda>c. c \<noteq> CHR ''='') e"

definition entryValue :: "string \<Rightarrow> string" where
  "entryValue e = tl (dropWhile (\<lambda>c. c \<noteq> CHR ''='') e)"

fun lookupEnv :: "string list \<Rightarrow> string \<Rightarrow> string option" where
  "lookupEnv [] k = None"
| "lookupEnv (e # es) k =
     (case lookupEnv es k of
        Some v \<Rightarrow> Some v
      | None \<Rightarrow> if CHR ''='' \<in> set e \<and> entryKey e = k then Some (entryValue e) else None)"

text \<open>
  An association list that stands for a Go map of environment variables: no key twice,
  and no \<^verbatim>\<open>=\<close> in a key (the entry of such a key would be read back under a shorter key).
\<close>

definition envMap :: "strmap \<Rightarrow> bool" where
  "envMap m = (distinct (map fst m) \<and> list_all (\<lambda>kv. CHR ''='' \<notin> set (fst kv)) m)"

definition getDefaultShell :: "world \<Rightarrow> string" where
  "getDefaultShell w =
     (if snd (lookPath (os w) ''bash'') = None then ''bash''
      else if snd (lookPath (os w) ''sh'') = None then ''sh''
      else ''sh'')"

definition getShell :: "world \<Rightarrow> string \<Rightarrow> string" where
  "getShell w specified = (if specified \<noteq> '''' then specified else getDefaultShell w)"

definition prepareCommand :: "OS \<Rightarrow> string \<Rightarrow> string \<Rightarrow> Cmd" where
  "prepareCommand sys shell script =
     (if shell = ''bash'' then Command sys ''bash'' [''-eo'', ''pipefail'', ''-c'', script]
      else if shell = ''sh'' then Command sys ''sh'' [''-e'', ''-c'', script]
      else if shell = ''pwsh'' \<or> shell = ''powershell''
      then Command sys ''pwsh'' [''-Command'', script]
      else if shell = ''python'' \<or> shell = ''python3''
      then Command sys ''python3'' [''-c'', script]
      else if shell = ''node'' then Command sys ''node'' [''-e'', script]
      else Command sys shell [''-c'', script])"

text \<open>
  \<^verbatim>\<open>executeCommand\<close>: the two pipes, \<^verbatim>\<open>Start\<close>, the streaming of both outputs into buffers,
  \<^verbatim>\<open>Wait\<close>. \<open>commandError\<close> is the error it makes of how far the subprocess got.
\<close>

definition commandError :: "BashRunner \<Rightarrow> proc_outcome \<Rightarrow> error option" where
  "commandError r outcome =
     (case outcome of
        StdoutPipeFailed err \<Rightarrow> Some (Errorf_w ''failed to create stdout pipe: '' err)
      | StderrPipeFailed err \<Rightarrow> Some (Errorf_w ''failed to create stderr pipe: '' err)
      | StartFailed err \<Rightarrow> Some (Errorf_w ''failed to start command: '' err)
      | Exited stdoutBuf stderrBuf werr \<Rightarrow>
          (case werr of
             Some err \<Rightarrow>
               Some (ErrorString (''command failed: '' @ Error err
                 @ (if length stderrBuf > 0 \<and> Verbose (config r)
                    then [CHR 0x0A] @ ''Stderr output:'' @ [CHR 0x0A] @ stderrBuf
                    else '''')))
           | None \<Rightarrow> None))"

definition executeCommand ::
    "BashRunner \<Rightarrow> Cmd \<Rightarrow> string \<Rightarrow> world \<Rightarrow> error option \<times> world" where
  "executeCommand r cmd stepName w =
     (let (outcome, w') = launch cmd w in (commandError r outcome, w'))"

text \<open>
  \<^verbatim>\<open>executeWithRetry\<close>. \<open>policy\<close> is \<^verbatim>\<open>step.RetryPolicy\<close>, which the only caller has
  checked not to be \<^verbatim>\<open>nil\<close>. \<open>retryLoop\<close> is the loop
  \<^verbatim>\<open>for attempt := 1; attempt <= maxAttempts; attempt++\<close> with its variable \<^verbatim>\<open>lastErr\<close>;
  \<open>cloneCommand\<close> is the command that each attempt builds anew from \<^verbatim>\<open>cmd.Path\<close>,
  \<^verbatim>\<open>cmd.Args[1:]\<close>, \<^verbatim>\<open>cmd.Dir\<close> and \<^verbatim>\<open>cmd.Env\<close>.
\<close>

definition cloneCommand :: "OS \<Rightarrow> Cmd \<Rightarrow> Cmd" where
  "cloneCommand sys cmd =
     (Command sys (Path cmd) (tl (Args cmd)))\<lparr>Dir := Dir cmd, Cmd.Env := Cmd.Env cmd\<rparr>"

definition allAttemptsFailed :: "int \<Rightarrow> error option \<Rightarrow> error" where
  "allAttemptsFailed maxAttempts lastErr =
     (case lastErr of
        Some err \<Rightarrow>
          Errorf_w (''all '' @ itoa maxAttempts @ '' attempts failed, last error: '') err
      | None \<Rightarrow>
          ErrorString (''all '' @ itoa maxAttempts
            @ '' attempts failed, last error: %!w(<nil>)''))"

function retryLoop ::
    "BashRunner \<Rightarrow> Cmd \<Rightarrow> Step \<Rightarrow> RetryPolicy \<Rightarrow> int \<Rightarrow> int \<Rightarrow> error option \<Rightarrow> world
      \<Rightarrow> error option \<times> world" where
  "retryLoop r cmd step policy maxAttempts attempt lastErr w =
     (if attempt \<le> maxAttempts then
        let w1 = (if attempt > 1 then
                    (if Delay policy \<noteq> '''' then
                       (case parseDuration (os w) (Delay policy) of
                          Some duration \<Rightarrow> sleep duration w
                        | None \<Rightarrow> w)
                     else w)
                  else w);
            retryCmd = cloneCommand (os w1) cmd
        in (case executeCommand r retryCmd (Step.Name step) w1 of
              (Some err, w2) \<Rightarrow>
                retryLoop r cmd step policy maxAttempts (attempt + 1) (Some err) w2
            | (None, w2) \<Rightarrow> (None, w2))
      else (Some (allAttemptsFailed maxAttempts lastErr), w))"
  by pat_completeness auto
termination
  by (relation "measure (\<lambda>(r, cmd, step, policy, maxAttempts, attempt, lastErr, w).
        nat (maxAttempts + 1 - attempt))") auto

definition executeWithRetry ::
    "BashRunner \<Rightarrow> Cmd \<Rightarrow> Step \<Rightarrow> RetryPolicy \<Rightarrow> world \<Rightarrow> error option \<times> world" where
  "executeWithRetry r cmd step policy w =
     (let maxAttempts = MaxAttempts policy;
          maxAttempts = (if maxAttempts \<le> 0 then 1 else maxAttempts)
      in retryLoop r cmd step policy maxAttempts 1 None w)"

text \<open>
  What the loop does before a retry: one sleep of the configured delay when it is not empty
  and parses as a duration, nothing otherwise.
\<close>

definition retryDelay :: "RetryPolicy \<Rightarrow> world \<Rightarrow> event list" where
  "retryDelay policy w =
     (if Delay policy \<noteq> '''' then
        (case parseDuration (os w) (Delay policy) of
           Some duration \<Rightarrow> [Sleep duration]
         | None \<Rightarrow> [])
      else [])"

text \<open>The actions with a shell equivalent.\<close>

definition runCheckoutAction ::
    "BashRunner \<Rightarrow> Step \<Rightarrow> string \<Rightarrow> world \<Rightarrow> error option \<times> world" where
  "runCheckoutAction r step workdir w =
     (if DryRun (config r) then (None, w)
      else
        let cmd = (Command (os w) ''git'' [''rev-parse'', ''--git-dir''])\<lparr>Dir := workdir\<rparr>;
            (probe, w1) = launch cmd w
        in (case runError probe of
              None \<Rightarrow>
                let fetchCmd = (Command (os w1) ''git'' [''fetch'', ''--all'', ''--tags''])
                                 \<lparr>Dir := workdir\<rparr>;
                    (fetched, w2) = launch fetchCmd w1
                in (case runError fetched of
                      Some err \<Rightarrow> (Some (Errorf_w ''git fetch failed: '' err), w2)
                    | None \<Rightarrow> (None, w2))
            | Some err \<Rightarrow> (None, w1)))"

definition runSetupAction ::
    "BashRunner \<Rightarrow> string \<Rightarrow> Step \<Rightarrow> string \<Rightarrow> world \<Rightarrow> error option \<times> world" where
  "runSetupAction r action step version w =
     (let toolName = trimPrefix action ''actions/setup-'';
          toolVersion = lookup (With step) (toolName @ ''-version'');
          toolVersion = (if toolVersion = '''' then version else toolVersion)
      in if DryRun (config r) then (None, w)
         else
           let checkCmd =
                 (if toolName = ''go'' then Command (os w) ''go'' [''version'']
                  else if toolName = ''node'' then Command (os w) ''node'' [''--version'']
                  else if toolName = ''python'' then Command (os w) ''python3'' [''--version'']
                  else Command (os w) toolName [''--version'']);
               (output, w1) = launch checkCmd w
           in (None, w1))"

definition runActionStep ::
    "BashRunner \<Rightarrow> Step \<Rightarrow> strmap \<Rightarrow> string \<Rightarrow> world \<Rightarrow> error option \<times> world" where
  "runActionStep r step env workdir w =
     (let parts = splitOn (CHR ''@'') (Uses step);
          action = hd parts;
          version = (if length parts > 1 then parts ! 1 else ''latest'')
      in if action = ''actions/checkout'' then runCheckoutAction r step workdir w
         else if action = ''actions/setup-go'' \<or> action = ''actions/setup-node''
                 \<or> action = ''actions/setup-python''
         then runSetupAction r action step version w
         else (None, w))"

text \<open>
  \<^verbatim>\<open>RunStep\<close> of the process backend. \<open>stepCommand\<close> is the command that it prepares for
  a step with a shell command: shell, directory, environment and, for a step with a
  timeout, the same command built again under a context with that timeout.
\<close>

definition stepCommand :: "BashRunner \<Rightarrow> Step \<Rightarrow> strmap \<Rightarrow> string \<Rightarrow> world \<Rightarrow> Cmd" where
  "stepCommand r step env workdir w =
     (let shell = getShell w (Shell step);
          cmd = prepareCommand (os w) shell (Run step);
          cmd = (if Step.WorkingDir step \<noteq> ''''
                 then cmd\<lparr>Dir := joinPath (os w) workdir (Step.WorkingDir step)\<rparr>
                 else cmd\<lparr>Dir := workdir\<rparr>);
          cmd = cmd\<lparr>Cmd.Env := buildStepEnvironment r w env (Step.Env step)\<rparr>
      in if TimeoutMin step > 0
         then (Command (os w) (Path cmd) (tl (Args cmd)))
                \<lparr>CtxTimeoutMin := Some (TimeoutMin step), Dir := workdir,
                  Cmd.Env := buildStepEnvironment r w env (Step.Env step)\<rparr>
         else cmd)"

definition BashRunner_RunStep ::
    "BashRunner \<Rightarrow> Step \<Rightarrow> strmap \<Rightarrow> string \<Rightarrow> world \<Rightarrow> error option \<times> world" where
  "BashRunner_RunStep r step env workdir w =
     (if Uses step \<noteq> '''' then runActionStep r step env workdir w
      else if Run step = '''' then (None, w)
      else if DryRun (config r) then (None, w)
      else
        let cmd = stepCommand r step env workdir w
        in (case Step.RetryPolicy step of
              Some policy \<Rightarrow>
                if MaxAttempts policy > 1 then executeWithRetry r cmd step policy w
                else executeCommand r cmd (Step.Name step) w
            | None \<Rightarrow> executeCommand r cmd (Step.Name step) w))"

text \<open>
  The test \<^verbatim>\<open>time.Since(startTime).Minutes() > float64(r.config.Timeout)\<close>, on exact numbers.
\<close>

definition minutesExceed :: "int \<Rightarrow> int \<Rightarrow> bool" where
  "minutesExceed ns minutes = (ns > minutes * 60000000000)"

definition jobTimedOut :: "BashRunner \<Rightarrow> world \<Rightarrow> bool \<times> world" where
  "jobTimedOut r w =
     (if RunnerConfig.Timeout (config r) > 0
      then (let (ns, w') = readClock w in (minutesExceed ns (RunnerConfig.Timeout (config r)), w'))
      else (False, w))"

text \<open>The loop \<^verbatim>\<open>for i, step := range job.Steps\<close> of \<^verbatim>\<open>RunJob\<close>.\<close>

fun runSteps ::
    "BashRunner \<Rightarrow> strmap \<Rightarrow> string \<Rightarrow> Step list \<Rightarrow> JobSummary \<Rightarrow> step_report list \<Rightarrow> world
      \<Rightarrow> JobSummary \<times> step_report list \<times> world" where
  "runSteps r jobEnv absWorkdir [] summary log w = (summary, log, w)"
| "runSteps r jobEnv absWorkdir (step # rest) summary log w =
     (case jobTimedOut r w of
        (True, w0) \<Rightarrow>
          (summary\<lparr>Success := False,
                   Errors := Errors summary
                     @ [''Job timeout exceeded ('' @ itoa (RunnerConfig.Timeout (config r))
                         @ '' minutes)'']\<rparr>,
           log @ [JobTimedOut], w0)
      | (False, w0) \<Rightarrow>
          if \<not> shouldRunStep step jobEnv
          then runSteps r jobEnv absWorkdir rest
                 (summary\<lparr>SkippedSteps := SkippedSteps summary + 1\<rparr>)
                 (log @ [StepSkipped step]) w0
          else
            (case BashRunner_RunStep r step jobEnv absWorkdir w0 of
               (Some err, w1) \<Rightarrow>
                 if ContinueOnErr step
                 then runSteps r jobEnv absWorkdir rest
                        (summary\<lparr>FailedSteps := FailedSteps summary + 1\<rparr>)
                        (log @ [StepFailed step err]) w1
                 else
                   (summary\<lparr>FailedSteps := FailedSteps summary + 1, Success := False,
                            Errors := Errors summary
                              @ [''Step '' @ quoted (Step.Name step) @ '' failed: ''
                                  @ Error err]\<rparr>,
                    log @ [StepFailed step err], w1)
             | (None, w1) \<Rightarrow>
                 runSteps r jobEnv absWorkdir rest
                   (summary\<lparr>CompletedSteps := CompletedSteps summary + 1\<rparr>)
                   (log @ [StepCompleted step]) w1))"

text \<open>
  \<^verbatim>\<open>RunJob\<close> of the process backend. \<open>runJob\<close> is its body: the error of an early
  \<^verbatim>\<open>return\<close>, or the summary and the reports it hands to the formatter before its last
  statement. \<open>BashRunner_RunJob\<close> is what the method returns.
\<close>

definition runJob ::
    "BashRunner \<Rightarrow> Job \<Rightarrow> string \<Rightarrow> world
      \<Rightarrow> (error + JobSummary \<times> step_report list) \<times> BashRunner \<times> world" where
  "runJob r job workdir w =
     (case absPath (os w) workdir of
        Inl err \<Rightarrow> (Inl (Errorf_w ''invalid workdir: '' err), r, w)
      | Inr absWorkdir \<Rightarrow>
          if notExist (os w) absWorkdir
          then (Inl (ErrorString (''workdir does not exist: '' @ absWorkdir)), r, w)
          else
            let jobEnv = mergeEnvironments
                           [Job.Environment job, RunnerConfig.Environment (config r)];
                (r1, w1) = setupJobEnvironment job absWorkdir r w;
                summary = \<lparr>JobName = Job.Name job, TotalSteps = int (length (Steps job)),
                            CompletedSteps = 0, FailedSteps = 0, SkippedSteps = 0,
                            Duration = 0, Success = True, Errors = []\<rparr>;
                (summary, log, w2) = runSteps r1 jobEnv absWorkdir (Steps job) summary [] w1;
                (ns, w3) = readClock w2
            in (Inr (summary\<lparr>Duration := ns\<rparr>, log), r1, w3))"

definition BashRunner_RunJob ::
    "BashRunner \<Rightarrow> Job \<Rightarrow> string \<Rightarrow> world \<Rightarrow> error option \<times> BashRunner \<times> world" where
  "BashRunner_RunJob r job workdir w =
     (case runJob r job workdir w of
        (Inl err, r', w') \<Rightarrow> (Some err, r', w')
      | (Inr report, r', w') \<Rightarrow> (None, r', w'))"

definition BashRunner_Cleanup :: "BashRunner \<Rightarrow> world \<Rightarrow> error option \<times> BashRunner \<times> world" where
  "BashRunner_Cleanup r w = (None, r, w)"

text \<open>The steps that a log reports as failed, with their errors.\<close>

fun failedReports :: "step_report list \<Rightarrow> (Step \<times> error) list" where
  "failedReports [] = []"
| "failedReports (StepFailed step err # rest) = (step, err) # failedReports rest"
| "failedReports (other # rest) = failedReports rest"

text \<open>The steps that a log reports as run, completed or failed.\<close>

fun ranSteps :: "step_report list \<Rightarrow> Step list" where
  "ranSteps [] = []"
| "ranSteps (StepFailed step err # rest) = step # ranSteps rest"
| "ranSteps (StepCompleted step # rest) = step # ranSteps rest"
| "ranSteps (other # rest) = ranSteps rest"

section \<open>The containerized backend (DockerRunner)\<close>

record DockerRunner =
  config :: RunnerConfig
  containers :: "string list"

text \<open>
  \<^verbatim>\<open>NewDockerRunner\<close>, called with a configuration that is not \<^verbatim>\<open>nil\<close>: the client is
  created and the daemon is pinged.
\<close>

definition NewDockerRunner :: "RunnerConfig \<Rightarrow> world \<Rightarrow> error + DockerRunner" where
  "NewDockerRunner cfg w =
     (case newClient (daemon w) of
        Some err \<Rightarrow> Inl (Errorf_w ''failed to create Docker client: '' err)
      | None \<Rightarrow>
          (case ping (daemon w) of
             Some err \<Rightarrow>
               if contains (Error err) ''permission denied''
               then Inl (ErrorString
                 ''Docker daemon permission denied. Try: sudo usermod -aG docker $USER'')
               else if contains (Error err) ''cannot connect''
               then Inl (ErrorString ''Docker daemon is not running. Start Docker and try again'')
               else Inl (Errorf_w ''Docker daemon is not accessible: '' err)
           | None \<Rightarrow> Inr \<lparr>config = cfg, containers = []\<rparr>))"

text \<open>\<^verbatim>\<open>strings.ToLower\<close> on ASCII letters, and \<^verbatim>\<open>strings.ReplaceAll\<close> of one byte.\<close>

definition lowerChar :: "char \<Rightarrow> char" where
  "lowerChar c =
     (let n = (of_char c :: nat) in if 65 \<le> n \<and> n \<le> 90 then char_of (n + 32) else c)"

definition toLower :: "string \<Rightarrow> string" where
  "toLower s = map lowerChar s"

definition replaceChar :: "char \<Rightarrow> string \<Rightarrow> string \<Rightarrow> string" where
  "replaceChar old new s = concat (map (\<lambda>c. if c = old then new else [c]) s)"

definition imageMap :: strmap where
  "imageMap =
     [(''ubuntu-24.04'', ''ubuntu:24.04''), (''ubuntu-22.04'', ''ubuntu:22.04''),
      (''ubuntu-20.04'', ''ubuntu:20.04''), (''ubuntu-latest'', ''ubuntu:latest''),
      (''debian-12'', ''debian:12''), (''debian-11'', ''debian:11''),
      (''alpine-3.19'', ''alpine:3.19''), (''alpine-3.18'', ''alpine:3.18''),
      (''node-23'', ''node:23''), (''node-22'', ''node:22''), (''node-20'', ''node:20''),
      (''node-18'', ''node:18-slim''), (''python-3.14'', ''python:3.14-slim''),
      (''python-3.13'', ''python:3.13-slim''), (''python-3.12'', ''python:3.12-slim''),
      (''python-3.11'', ''python:3.11-slim''), (''golang-1.23'', ''golang:1.23-alpine''),
      (''golang-1.22'', ''golang:1.22-alpine''), (''golang-1.20'', ''golang:1.20-alpine'')]"

definition getImageName :: "Job \<Rightarrow> string" where
  "getImageName job =
     (if (case Container job of Some c \<Rightarrow> Container.Image c \<noteq> '''' | None \<Rightarrow> False)
      then (case Container job of Some c \<Rightarrow> Container.Image c | None \<Rightarrow> '''')
      else if Job.Image job \<noteq> '''' then Job.Image job
      else
        let runsOn = toLower (RunsOn job)
        in (case map_of imageMap runsOn of
              Some img \<Rightarrow> img
            | None \<Rightarrow>
                if contains runsOn ''ubuntu'' then ''ubuntu:22.04''
                else if contains runsOn ''debian'' then ''debian:latest''
                else if contains runsOn ''alpine'' then ''alpine:latest''
                else if contains runsOn ''node'' then ''node:lts-slim''
                else if contains runsOn ''python'' then ''python:3-slim''
                else if contains runsOn ''golang'' \<or> contains runsOn ''go'' then ''golang:alpine''
                else ''ubuntu:22.04''))"

text \<open>
  \<^verbatim>\<open>buildJobScript\<close>: the lines of the one script that the container runs. \<open>stepScript\<close> is
  the loop over the steps, with its counter \<^verbatim>\<open>stepNum\<close>.
\<close>

definition stepHeader :: "int \<Rightarrow> int \<Rightarrow> Step \<Rightarrow> string list" where
  "stepHeader stepNum totalSteps step =
     [''echo '' @ quoted '''',
      ''echo '' @ quoted (''['' @ itoa stepNum @ ''/'' @ itoa totalSteps @ ''] '' @ Step.Name step),
      ''echo '' @ quoted (repeat ''-'' 60)]"

fun stepScript :: "int \<Rightarrow> int \<Rightarrow> Step list \<Rightarrow> string list" where
  "stepScript stepNum totalSteps [] = []"
| "stepScript stepNum totalSteps (step # rest) =
     (if Uses step \<noteq> '''' then
        stepHeader (stepNum + 1) totalSteps step
        @ [''echo '' @ quoted (''Skipping action: '' @ Step.Name step
             @ '' (not supported in Docker runner)'')]
        @ stepScript (stepNum + 1) totalSteps rest
      else if Run step = '''' then stepScript stepNum totalSteps rest
      else
        stepHeader (stepNum + 1) totalSteps step
        @ (if Step.WorkingDir step \<noteq> '''' then [''cd '' @ Step.WorkingDir step] else [])
        @ map (\<lambda>(k, v). ''export '' @ k @ ''='' @ quoted v) (Step.Env step)
        @ [Run step]
        @ (if ContinueOnErr step then [''|| true''] else [])
        @ [''echo '' @ quoted ''Step completed'']
        @ (if Step.WorkingDir step \<noteq> '''' then [''cd /workspace''] else [])
        @ stepScript (stepNum + 1) totalSteps rest)"

definition jobScriptLines :: "DockerRunner \<Rightarrow> Job \<Rightarrow> string list" where
  "jobScriptLines r job =
     [''#!/bin/sh'', ''set -e'']
     @ (if Verbose (DockerRunner.config r) then [''set -x''] else [])
     @ ['''', ''echo '' @ quoted ''Setting up environment...'', '''']
     @ stepScript 0 (int (length (Steps job))) (Steps job)
     @ ['''', ''echo '' @ quoted '''', ''echo '' @ quoted ''All steps completed successfully!'']"

definition buildJobScript :: "DockerRunner \<Rightarrow> Job \<Rightarrow> string" where
  "buildJobScript r job = join (jobScriptLines r job) [CHR 0x0A]"

definition buildEnvironment :: "DockerRunner \<Rightarrow> Job \<Rightarrow> string list" where
  "buildEnvironment r job =
     [''CI=true'', ''GIT_CI=true'', ''DOCKER_RUNNER=true'', ''JOB_NAME='' @ Job.Name job]
     @ map keyValue (Job.Environment job)
     @ map keyValue (RunnerConfig.Environment (DockerRunner.config r))
     @ (case Container job of
          Some c \<Rightarrow> map keyValue (Container.Env c)
        | None \<Rightarrow> [])"

text \<open>The additional bind mounts of \<^verbatim>\<open>job.Container.Volumes\<close>.\<close>

definition volumeMounts :: "string list \<Rightarrow> Mount list" where
  "volumeMounts vols =
     concat (map (\<lambda>vol.
       let parts = splitOn (CHR '':'') vol
       in if length parts \<ge> 2
          then [\<lparr>Source = parts ! 0, Target = parts ! 1,
                  ReadOnly = (length parts > 2 \<and> parts ! 2 = ''ro'')\<rparr>]
          else []) vols)"

text \<open>
  \<^verbatim>\<open>createContainer\<close>. After the daemon has answered, the identifier is sliced to its first
  twelve bytes for a debug line; Go panics when it is shorter.
\<close>

definition createContainer ::
    "DockerRunner \<Rightarrow> Job \<Rightarrow> string \<Rightarrow> string \<Rightarrow> world \<Rightarrow> (error + string) outcome \<times> world" where
  "createContainer r job imageName workdir w =
     (let script = buildJobScript r job;
          mounts = [\<lparr>Source = workdir, Target = ''/workspace'', ReadOnly = False\<rparr>]
                   @ (case Container job of
                        Some c \<Rightarrow> volumeMounts (Volumes c)
                      | None \<Rightarrow> []);
          containerName = ''git-ci-'' @ replaceChar (CHR '' '') ''-'' (toLower (Job.Name job))
                          @ ''-'' @ itoa (unixNow (os w) (tick w));
          spec = \<lparr>ContainerSpec.Image = imageName, Cmd = [''/bin/sh'', ''-c'', script],
                  ContainerSpec.WorkingDir = ''/workspace'',
                  ContainerSpec.Env = buildEnvironment r job, Mounts = mounts,
                  Memory = 2 * 1024 * 1024 * 1024, MemorySwap = 2 * 1024 * 1024 * 1024,
                  CPUShares = 1024, ContainerName = containerName\<rparr>;
          w1 = asked (did (ContainerCreate spec) w)
      in (case containerCreate (daemon w) (tick w) spec of
            Inl err \<Rightarrow> (Done (Inl (Errorf_w ''failed to create container: '' err)), w1)
          | Inr ident \<Rightarrow>
              if length ident < 12 then (Panic ''slice bounds out of range'', w1)
              else (Done (Inr ident), w1)))"

definition imageExists :: "string \<Rightarrow> world \<Rightarrow> bool \<times> world" where
  "imageExists imageName w =
     (case imageList (daemon w) (tick w) of
        Inl err \<Rightarrow> False
      | Inr images \<Rightarrow> (\<exists>tags\<in>set images. imageName \<in> set tags), asked w)"

definition pullImage :: "string \<Rightarrow> world \<Rightarrow> error option \<times> world" where
  "pullImage imageName w =
     (case imagePull (daemon w) (tick w) imageName of
        Some err \<Rightarrow> Some (Errorf_w (''failed to pull image '' @ imageName @ '': '') err)
      | None \<Rightarrow> None, asked (did (ImagePull imageName) w))"

definition streamLogs :: "string \<Rightarrow> world \<Rightarrow> error option \<times> world" where
  "streamLogs containerID w =
     (case containerLogs (daemon w) (tick w) containerID of
        LogsFailed err \<Rightarrow> Some (Errorf_w ''failed to get container logs: '' err)
      | CopyFailed err \<Rightarrow> Some (Errorf_w ''error streaming logs: '' err)
      | LogsEOF \<Rightarrow> None
      | LogsDone \<Rightarrow> None, asked w)"

text \<open>
  \<^verbatim>\<open>RunJob\<close> of the containerized backend. \<open>dockerRunJob\<close> is its body: the error it
  returns, or the summary it prints before its last statement.
\<close>

definition dockerRunJob ::
    "DockerRunner \<Rightarrow> Job \<Rightarrow> string \<Rightarrow> world
      \<Rightarrow> (error + JobSummary option) outcome \<times> DockerRunner \<times> world" where
  "dockerRunJob r job workdir w =
     (let imageName = getImageName job
      in if DryRun (DockerRunner.config r) then (Done (Inr None), r, w)
         else
           let summary = \<lparr>JobName = Job.Name job, TotalSteps = int (length (Steps job)),
                           CompletedSteps = 0, FailedSteps = 0, SkippedSteps = 0,
                           Duration = 0, Success = True, Errors = []\<rparr>;
               (present, w1) = imageExists imageName w;
               (pullErr, w2) = (if PullImages (DockerRunner.config r) \<or> \<not> present
                                then pullImage imageName w1 else (None, w1))
           in (case pullErr of
                 Some err \<Rightarrow> (Done (Inl err), r, w2)
               | None \<Rightarrow>
                   (case createContainer r job imageName workdir w2 of
                      (Panic msg, w3) \<Rightarrow> (Panic msg, r, w3)
                    | (Done (Inl err), w3) \<Rightarrow> (Done (Inl err), r, w3)
                    | (Done (Inr containerID), w3) \<Rightarrow>
                        let r1 = r\<lparr>containers := containers r @ [containerID]\<rparr>;
                            w4 = asked (did (ContainerStart containerID) w3)
                        in (case containerStart (daemon w3) (tick w3) containerID of
                              Some err \<Rightarrow>
                                (Done (Inl (Errorf_w ''failed to start container: '' err)), r1, w4)
                            | None \<Rightarrow>
                                let (logErr, w5) = streamLogs containerID w4;
                                    summary =
                                      (case logErr of
                                         Some err \<Rightarrow>
                                           summary\<lparr>Success := False,
                                             Errors := Errors summary
                                               @ [''Log streaming error: '' @ Error err]\<rparr>
                                       | None \<Rightarrow> summary);
                                    w6 = asked w5
                                in (case containerWait (daemon w5) (tick w5) containerID of
                                      WaitError (Some err) \<Rightarrow>
                                        (Done (Inl (Errorf_w ''container wait error: '' err)), r1, w6)
                                    | WaitError None \<Rightarrow>
                                        (let (ns, w7) = readClock w6
                                         in (Done (Inr (Some (summary\<lparr>Duration := ns\<rparr>))), r1, w7))
                                    | WaitStatus code \<Rightarrow>
                                        if code \<noteq> 0
                                        then (Done (Inl (ErrorString
                                                (''container exited with status '' @ itoa code))),
                                              r1, asked w6)
                                        else
                                          (let summary =
                                                 summary\<lparr>CompletedSteps := int (length (Steps job))\<rparr>;
                                               (ns, w7) = readClock w6
                                           in (Done (Inr (Some (summary\<lparr>Duration := ns\<rparr>))),
                                               r1, w7)))))))"

definition DockerRunner_RunJob ::
    "DockerRunner \<Rightarrow> Job \<Rightarrow> string \<Rightarrow> world \<Rightarrow> error option outcome \<times> DockerRunner \<times> world" where
  "DockerRunner_RunJob r job workdir w =
     (case dockerRunJob r job workdir w of
        (Panic msg, r', w') \<Rightarrow> (Panic msg, r', w')
      | (Done (Inl err), r', w') \<Rightarrow> (Done (Some err), r', w')
      | (Done (Inr summary), r', w') \<Rightarrow> (Done None, r', w'))"

text \<open>\<^verbatim>\<open>RunStep\<close> of the containerized backend does nothing.\<close>

definition DockerRunner_RunStep ::
    "DockerRunner \<Rightarrow> Step \<Rightarrow> strmap \<Rightarrow> string \<Rightarrow> world \<Rightarrow> error option \<times> world" where
  "DockerRunner_RunStep r step env workdir w = (None, w)"

text \<open>
  \<^verbatim>\<open>Cleanup\<close>. \<open>removeContainers\<close> is its loop over the copy of the tracked list, with its
  variable \<^verbatim>\<open>errors\<close>; \<^verbatim>\<open>containerID[:12]\<close> panics on an identifier shorter than twelve
  bytes.
\<close>

fun removeContainers :: "string list \<Rightarrow> string list \<Rightarrow> world \<Rightarrow> string list outcome \<times> world" where
  "removeContainers [] errors w = (Done errors, w)"
| "removeContainers (containerID # rest) errors w =
     (if length containerID < 12 then (Panic ''slice bounds out of range'', w)
      else
        let shortID = take 12 containerID;
            w1 = asked (did (ContainerStop containerID) w);
            err = containerRemove (daemon w1) (tick w1) containerID;
            w2 = asked (did (ContainerRemove containerID) w1)
        in (case err of
              Some e \<Rightarrow>
                removeContainers rest
                  (errors @ [''Failed to remove '' @ shortID @ '': '' @ Error e]) w2
            | None \<Rightarrow> removeContainers rest errors w2))"

definition DockerRunner_Cleanup ::
    "DockerRunner \<Rightarrow> world \<Rightarrow> error option outcome \<times> DockerRunner \<times> world" where
  "DockerRunner_Cleanup r w =
     (if length (containers r) = 0 then (Done None, r, w)
      else
        let containersToRemove = containers r
        in (case removeContainers containersToRemove [] w of
              (Panic msg, w') \<Rightarrow> (Panic msg, r, w')
            | (Done errors, w') \<Rightarrow>
                (Done (if length errors > 0
                       then Some (ErrorString (''cleanup completed with ''
                              @ itoa (int (length errors)) @ '' errors''))
                       else None),
                 r\<lparr>containers := []\<rparr>, w')))"

section \<open>The job scheduler (handlers/run.go, handlers/common.go)\<close>

text \<open>The flags of the command line that the scheduler reads (\<^verbatim>\<open>cli.Context\<close>).\<close>

record Flags =
  flagJob :: string
  flagStage :: string
  flagOnly :: "string list"
  flagExcept :: "string list"
  flagParallel :: bool
  flagMaxParallel :: int
  flagContinueOnError :: bool
  flagDocker :: bool
  flagPodman :: bool

definition matchPattern :: "string \<Rightarrow> string \<Rightarrow> bool" where
  "matchPattern name pattern =
     (if pattern = name then True
      else if contains pattern ''*''
      then contains name (replaceChar (CHR ''*'') '''' pattern)
      else False)"

definition getJobsByStage :: "Pipeline \<Rightarrow> string \<Rightarrow> jobmap" where
  "getJobsByStage pipeline stage = filter (\<lambda>(name, job). Stage job = stage) (Jobs pipeline)"

definition filterJobs :: "jobmap \<Rightarrow> string list \<Rightarrow> string list \<Rightarrow> jobmap" where
  "filterJobs jobs only except =
     (if length only = 0 \<and> length except = 0 then jobs
      else filter (\<lambda>(name, job).
             (length only > 0 \<longrightarrow> (\<exists>pattern\<in>set only. matchPattern name pattern))
             \<and> (length except > 0 \<longrightarrow> \<not> (\<exists>pattern\<in>set except. matchPattern name pattern)))
           jobs)"

text \<open>\<^verbatim>\<open>selectJobsToRun\<close>; the \<^verbatim>\<open>nil\<close> map is the empty one.\<close>

definition selectJobsToRun :: "Flags \<Rightarrow> Pipeline \<Rightarrow> jobmap" where
  "selectJobsToRun c pipeline =
     (let jobs = Jobs pipeline
      in if flagJob c \<noteq> '''' then
           (case map_of jobs (flagJob c) of
              Some job \<Rightarrow> [(flagJob c, job)]
            | None \<Rightarrow>
                let matchedJobs = filter (\<lambda>(name, j). matchPattern name (flagJob c)) jobs
                in if length matchedJobs > 0 then matchedJobs else [])
         else
           let jobs = (if flagStage c \<noteq> '''' then getJobsByStage pipeline (flagStage c)
                       else jobs)
           in if flagStage c \<noteq> '''' \<and> length jobs = 0 then []
              else filterJobs jobs (flagOnly c) (flagExcept c))"

text \<open>The interface \<^verbatim>\<open>types.Runner\<close> with its two implementations, and \<^verbatim>\<open>createRunner\<close>.\<close>

datatype runner = Bash BashRunner | Docker DockerRunner

definition createRunner :: "Flags \<Rightarrow> RunnerConfig \<Rightarrow> world \<Rightarrow> error + runner" where
  "createRunner c cfg w =
     (if flagDocker c then
        (case NewDockerRunner cfg w of
           Inl err \<Rightarrow> Inl (Errorf_w ''failed to create Docker runner: '' err)
         | Inr r \<Rightarrow> Inr (Docker r))
      else if flagPodman c then Inl (ErrorString ''podman runner not yet implemented'')
      else Inr (Bash (NewBashRunner cfg)))"

fun RunJob :: "runner \<Rightarrow> Job \<Rightarrow> string \<Rightarrow> world \<Rightarrow> error option outcome \<times> runner \<times> world" where
  "RunJob (Bash r) job workdir w =
     (case BashRunner_RunJob r job workdir w of (err, r', w') \<Rightarrow> (Done err, Bash r', w'))"
| "RunJob (Docker r) job workdir w =
     (case DockerRunner_RunJob r job workdir w of (res, r', w') \<Rightarrow> (res, Docker r', w'))"

fun Cleanup :: "runner \<Rightarrow> world \<Rightarrow> error option outcome \<times> runner \<times> world" where
  "Cleanup (Bash r) w =
     (case BashRunner_Cleanup r w of (err, r', w') \<Rightarrow> (Done err, Bash r', w'))"
| "Cleanup (Docker r) w =
     (case DockerRunner_Cleanup r w of (res, r', w') \<Rightarrow> (res, Docker r', w'))"

text \<open>
  What one job comes to in either scheduler: its runner could not be created, or
  \<^verbatim>\<open>RunJob\<close> returned (the error of \<^verbatim>\<open>Cleanup\<close> is only printed), or the program
  panicked. \<open>runOneJob\<close> is the part that both schedulers share: the name of the job is
  set if it has none, a fresh runner is created, the job is run and the runner cleaned up.
\<close>

datatype job_result = CreateFailed error | Finished "error option" | Crashed string

definition runOneJob ::
    "Flags \<Rightarrow> RunnerConfig \<Rightarrow> string \<Rightarrow> string \<Rightarrow> Job \<Rightarrow> world \<Rightarrow> job_result \<times> world" where
  "runOneJob c cfg workdir jobName job w =
     (let job = (if Job.Name job = '''' then job\<lparr>Job.Name := jobName\<rparr> else job)
      in (case createRunner c cfg w of
            Inl err \<Rightarrow> (CreateFailed err, w)
          | Inr runner \<Rightarrow>
              (case RunJob runner job workdir w of
                 (Panic msg, runner1, w1) \<Rightarrow> (Crashed msg, w1)
               | (Done err, runner1, w1) \<Rightarrow>
                   (case Cleanup runner1 w1 of
                      (Panic msg, runner2, w2) \<Rightarrow> (Crashed msg, w2)
                    | (Done cleanupErr, runner2, w2) \<Rightarrow> (Finished err, w2)))))"

text \<open>
  What a scheduler returns, the values of its two counters when it returns, and whether
  it got to print the line \<^verbatim>\<open>Success: %d, Failed: %d, Total: %d\<close>.
\<close>

record SchedResult =
  returned :: "error option"
  successes :: int
  failures :: int
  summaryPrinted :: bool

text \<open>
  \<^verbatim>\<open>runJobsSequential\<close>. \<open>run\<close> is what running one job does (\<open>runOneJob\<close> in the
  program); \<open>sequentialLoop\<close> is the loop \<^verbatim>\<open>for jobName, job := range jobs\<close>.
\<close>

fun sequentialLoop ::
    "bool \<Rightarrow> (string \<Rightarrow> Job \<Rightarrow> 'w \<Rightarrow> job_result \<times> 'w) \<Rightarrow> jobmap \<Rightarrow> int \<Rightarrow> int \<Rightarrow> 'w
      \<Rightarrow> SchedResult outcome \<times> 'w" where
  "sequentialLoop continueOnError run [] successCount failureCount w =
     (Done \<lparr>returned =
              (if failureCount > 0 \<and> \<not> continueOnError
               then Some (ErrorString (itoa failureCount @ '' job(s) failed''))
               else None),
            successes = successCount, failures = failureCount,
            summaryPrinted = True\<rparr>, w)"
| "sequentialLoop continueOnError run ((jobName, job) # rest) successCount failureCount w =
     (case run jobName job w of
        (CreateFailed err, w') \<Rightarrow>
          (Done \<lparr>returned = Some (Errorf_w
                   (''failed to create runner for job '' @ jobName @ '': '') err),
                 successes = successCount, failures = failureCount,
                 summaryPrinted = False\<rparr>, w')
      | (Crashed msg, w') \<Rightarrow> (Panic msg, w')
      | (Finished (Some err), w') \<Rightarrow>
          if \<not> continueOnError \<and> \<not> AllowFailure job
          then (Done \<lparr>returned = Some (Errorf_w
                        (''job '' @ quoted jobName @ '' failed: '') err),
                      successes = successCount, failures = failureCount + 1,
                      summaryPrinted = False\<rparr>, w')
          else sequentialLoop continueOnError run rest successCount (failureCount + 1) w'
      | (Finished None, w') \<Rightarrow>
          sequentialLoop continueOnError run rest (successCount + 1) failureCount w')"

definition runJobsSequential ::
    "bool \<Rightarrow> (string \<Rightarrow> Job \<Rightarrow> 'w \<Rightarrow> job_result \<times> 'w) \<Rightarrow> jobmap \<Rightarrow> 'w
      \<Rightarrow> SchedResult outcome \<times> 'w" where
  "runJobsSequential continueOnError run jobs w =
     sequentialLoop continueOnError run jobs 0 0 w"

text \<open>
  \<^verbatim>\<open>runJobsParallel\<close>. Every job is launched; \<open>launchAll\<close> takes the schedule in which
  the units run to their end one after the other, in the order of the list, and gives the
  results in the order in which they arrive on the channel. A unit whose runner cannot be
  created reports that as its error. \<open>collectResults\<close> is the loop
  \<^verbatim>\<open>for result := range results\<close> with its variables.
\<close>

fun launchAll ::
    "(string \<Rightarrow> Job \<Rightarrow> 'w \<Rightarrow> job_result \<times> 'w) \<Rightarrow> jobmap \<Rightarrow> 'w
      \<Rightarrow> (string \<times> error option) list outcome \<times> 'w" where
  "launchAll run [] w = (Done [], w)"
| "launchAll run ((jobName, job) # rest) w =
     (case run jobName job w of
        (Crashed msg, w') \<Rightarrow> (Panic msg, w')
      | (CreateFailed err, w') \<Rightarrow>
          (case launchAll run rest w' of
             (Panic msg, w'') \<Rightarrow> (Panic msg, w'')
           | (Done results, w'') \<Rightarrow>
               (Done ((jobName, Some (Errorf_w ''failed to create runner: '' err)) # results),
                w''))
      | (Finished err, w') \<Rightarrow>
          (case launchAll run rest w' of
             (Panic msg, w'') \<Rightarrow> (Panic msg, w'')
           | (Done results, w'') \<Rightarrow> (Done ((jobName, err) # results), w'')))"

fun collectResults ::
    "bool \<Rightarrow> (string \<times> error option) list \<Rightarrow> int \<Rightarrow> int \<Rightarrow> error option
      \<Rightarrow> int \<times> int \<times> error option" where
  "collectResults continueOnError [] successCount failureCount firstError =
     (successCount, failureCount, firstError)"
| "collectResults continueOnError ((name, err) # rest) successCount failureCount firstError =
     (case err of
        Some e \<Rightarrow>
          collectResults continueOnError rest successCount (failureCount + 1)
            (if firstError = None \<and> \<not> continueOnError then Some e else firstError)
      | None \<Rightarrow>
          collectResults continueOnError rest (successCount + 1) failureCount firstError)"

definition runJobsParallel ::
    "bool \<Rightarrow> (string \<Rightarrow> Job \<Rightarrow> 'w \<Rightarrow> job_result \<times> 'w) \<Rightarrow> jobmap \<Rightarrow> 'w
      \<Rightarrow> SchedResult outcome \<times> 'w" where
  "runJobsParallel continueOnError run jobs w =
     (case launchAll run jobs w of
        (Panic msg, w') \<Rightarrow> (Panic msg, w')
      | (Done results, w') \<Rightarrow>
          (case collectResults continueOnError results 0 0 None of
             (successCount, failureCount, firstError) \<Rightarrow>
               (Done \<lparr>returned =
                        (case firstError of
                           Some e \<Rightarrow>
                             if \<not> continueOnError
                             then Some (Errorf_w ''pipeline failed: '' e)
                             else if failureCount > 0
                             then Some (ErrorString (itoa failureCount @ '' job(s) failed''))
                             else None
                         | None \<Rightarrow>
                             if failureCount > 0
                             then Some (ErrorString (itoa failureCount @ '' job(s) failed''))
                             else None),
                      successes = successCount, failures = failureCount,
                      summaryPrinted = True\<rparr>, w')))"

text \<open>
  \<^verbatim>\<open>CmdRun\<close>, given what \<^verbatim>\<open>parseInput\<close>, \<^verbatim>\<open>getWorkdir\<close> and \<^verbatim>\<open>buildRunnerConfig\<close> returned.
\<close>

definition failedBeforeRun :: "error \<Rightarrow> SchedResult" where
  "failedBeforeRun err =
     \<lparr>returned = Some err, successes = 0, failures = 0, summaryPrinted = False\<rparr>"

definition CmdRun ::
    "Flags \<Rightarrow> error + Pipeline \<Rightarrow> error + string \<Rightarrow> RunnerConfig \<Rightarrow> world
      \<Rightarrow> SchedResult outcome \<times> world" where
  "CmdRun c parsed workdirResult cfg w =
     (case parsed of
        Inl err \<Rightarrow> (Done (failedBeforeRun (Errorf_w ''failed to parse pipeline: '' err)), w)
      | Inr pipeline \<Rightarrow>
          (case workdirResult of
             Inl err \<Rightarrow> (Done (failedBeforeRun err), w)
           | Inr workdir \<Rightarrow>
               let jobs = selectJobsToRun c pipeline
               in if length jobs = 0
                  then (Done (failedBeforeRun (ErrorString ''no jobs to run'')), w)
                  else if flagParallel c
                  then runJobsParallel (flagContinueOnError c) (runOneJob c cfg workdir) jobs w
                  else runJobsSequential (flagContinueOnError c) (runOneJob c cfg workdir)
                         jobs w))"

section \<open>Inputs the theorems below are evaluated at\<close>

definition step0 :: Step where
  "step0 = \<lparr>Step.Name = ''build'', Run = ''make'', Uses = '''', With = [], Step.Env = [],
            If = '''', ContinueOnErr = False, Shell = '''', WorkingDir = '''',
            TimeoutMin = 0, RetryPolicy = None\<rparr>"

definition jobA :: Job where
  "jobA = \<lparr>Job.Name = ''A'', Steps = [], Job.Environment = [], RunsOn = '''', Tags = [],
           Job.Image = '''', Container = None, Needs = [''B''], Stage = '''',
           AllowFailure = False, Artifacts = None, Cache = None, Trigger = None\<rparr>"

definition pipeline_cycle :: Pipeline where
  "pipeline_cycle = \<lparr>Pipeline.Name = ''ci'',
     Jobs = [(''A'', jobA), (''B'', jobA\<lparr>Job.Name := ''B'', Needs := [''C'', ''A'']\<rparr>)],
     Pipeline.Environment = [], Stages = []\<rparr>"

definition os0 :: OS where
  "os0 = \<lparr>proc = (\<lambda>n cmd. Exited [] [] None), elapsed = (\<lambda>n. 0), absPath = Inr,
           notExist = (\<lambda>path. False),
           lookPath = (\<lambda>name. (''/usr/bin/'' @ name, None)),
           osEnviron = [''HOME=/root''],
           parseDuration = (\<lambda>s. if s = ''5s'' then Some 5000000000 else None),
           joinPath = (\<lambda>a b. a @ ''/'' @ b), unixNow = (\<lambda>n. 0)\<rparr>"

definition daemon0 :: Daemon where
  "daemon0 = \<lparr>newClient = None, ping = None, imageList = (\<lambda>n. Inr []),
               imagePull = (\<lambda>n img. None),
               containerCreate = (\<lambda>n spec. Inr ''0123456789abcdef''),
               containerStart = (\<lambda>n c. None), containerLogs = (\<lambda>n c. LogsDone),
               containerWait = (\<lambda>n c. WaitStatus 0), containerRemove = (\<lambda>n c. None)\<rparr>"

definition world0 :: world where
  "world0 = \<lparr>tick = 0, events = [], os = os0, daemon = daemon0\<rparr>"

definition cfg0 :: RunnerConfig where
  "cfg0 = \<lparr>DryRun = False, Verbose = False, PullImages = False, NoCache = False,
            WorkDir = ''/w'', RunnerConfig.Environment = [], RunnerConfig.Timeout = 30\<rparr>"

definition job0 :: Job where
  "job0 = \<lparr>Job.Name = ''build'', Steps = [step0], Job.Environment = [], RunsOn = '''',
            Tags = [], Job.Image = '''', Container = None, Needs = [], Stage = '''',
            AllowFailure = False, Artifacts = None, Cache = None, Trigger = None\<rparr>"

text \<open>A world in which every shell command exits with status 1 (\<^verbatim>\<open>git\<close> still works).\<close>

definition failing :: "nat \<Rightarrow> Cmd \<Rightarrow> proc_outcome" where
  "failing n cmd =
     (if Path cmd = ''/usr/bin/git'' then Exited [] [] None
      else Exited [] [] (Some (ErrorString ''exit status 1'')))"

definition world_failing :: world where
  "world_failing = world0\<lparr>os := os0\<lparr>proc := failing\<rparr>\<rparr>"

definition step_coe :: Step where
  "step_coe = step0\<lparr>Step.Name := ''lint'', Run := ''make lint'', ContinueOnErr := True\<rparr>"

definition step_guarded :: Step where
  "step_guarded = step0\<lparr>Step.Name := ''report'', If := ''failure()''\<rparr>"

definition job_coe :: Job where
  "job_coe = job0\<lparr>Steps := [step_coe, step_guarded]\<rparr>"

definition world_slow :: world where
  "world_slow = world0\<lparr>os := os0\<lparr>proc := failing,
      elapsed := (\<lambda>n. if 4 \<le> n then 120000000000 else 0)\<rparr>\<rparr>"


definition summary0 :: JobSummary where
  "summary0 = \<lparr>JobName = ''build'', TotalSteps = 2, CompletedSteps = 0, FailedSteps = 0,
                SkippedSteps = 0, Duration = 0, Success = True, Errors = []\<rparr>"

definition policy_retry :: RetryPolicy where
  "policy_retry = \<lparr>MaxAttempts = 3, Delay = ''5s'', Backoff = ''''\<rparr>"

definition step_retry :: Step where
  "step_retry = step0\<lparr>Step.RetryPolicy := Some policy_retry\<rparr>"

definition cmd_retry :: Cmd where
  "cmd_retry = \<lparr>Path = ''/usr/bin/bash'',
                Args = [''/usr/bin/bash'', ''-eo'', ''pipefail'', ''-c'', ''make''],
                Dir = ''/w'', Cmd.Env = [''HOME=/root''], CtxTimeoutMin = None\<rparr>"

text \<open>
  A checkout step with a retry policy, and a repository in which \<^verbatim>\<open>git fetch\<close> fails.
\<close>

definition step_checkout :: Step where
  "step_checkout = step0\<lparr>Step.Name := ''checkout'', Run := '''',
     Uses := ''actions/checkout@v4'', Step.RetryPolicy := Some policy_retry\<rparr>"

definition fetch_fails :: "nat \<Rightarrow> Cmd \<Rightarrow> proc_outcome" where
  "fetch_fails n cmd =
     (if Args cmd = [''git'', ''fetch'', ''--all'', ''--tags'']
      then Exited [] [] (Some (ErrorString ''exit status 1''))
      else Exited [] [] None)"

definition world_fetch_fails :: world where
  "world_fetch_fails = world0\<lparr>os := os0\<lparr>proc := fetch_fails\<rparr>\<rparr>"

definition docker0 :: DockerRunner where
  "docker0 = \<lparr>DockerRunner.config = cfg0, containers = []\<rparr>"

definition job_coe1 :: Job where
  "job_coe1 = job0\<lparr>Steps := [step_coe]\<rparr>"

text \<open>A runner that tracks one container, and a daemon that refuses to remove containers.\<close>

definition docker_tracking :: DockerRunner where
  "docker_tracking = docker0\<lparr>containers := [''0123456789abcdef'']\<rparr>"

definition world_stuck :: world where
  "world_stuck = world0\<lparr>daemon := daemon0\<lparr>containerRemove :=
     (\<lambda>n c. Some (ErrorString ''removal in progress''))\<rparr>\<rparr>"

text \<open>A job whose container exits with status 1, run with \<^verbatim>\<open>--docker --continue-on-error\<close>.\<close>

definition flags0 :: Flags where
  "flags0 = \<lparr>flagJob = '''', flagStage = '''', flagOnly = [], flagExcept = [],
              flagParallel = False, flagMaxParallel = 4, flagContinueOnError = False,
              flagDocker = False, flagPodman = False\<rparr>"

definition pipeline0 :: Pipeline where
  "pipeline0 = \<lparr>Pipeline.Name = ''ci'', Jobs = [(''build'', job0\<lparr>Job.Image := ''alpine:3.19''\<rparr>)],
     Pipeline.Environment = [(''DEPLOY_ENV'', ''staging'')], Stages = []\<rparr>"

definition world_exit1 :: world where
  "world_exit1 = world0\<lparr>daemon := daemon0\<lparr>containerWait := (\<lambda>n c. WaitStatus 1)\<rparr>\<rparr>"

text \<open>
  The number of jobs of a map whose outcome, given by \<open>f\<close> from the name of the job, is a
  success, and the number of those whose outcome is a failure.
\<close>

definition succeededJobs :: "(string \<Rightarrow> error option) \<Rightarrow> jobmap \<Rightarrow> int" where
  "succeededJobs f jobs = int (length (filter (\<lambda>(name, job). f name = None) jobs))"

definition failedJobs :: "(string \<Rightarrow> error option) \<Rightarrow> jobmap \<Rightarrow> int" where
  "failedJobs f jobs = int (length (filter (\<lambda>(name, job). f name \<noteq> None) jobs))"

text \<open>
  A job with an environment of its own and a step with one, run with \<^verbatim>\<open>--env TARGET=cli\<close>.
\<close>

definition job_env :: Job where
  "job_env = job0\<lparr>Job.Environment := [(''TARGET'', ''job''), (''MODE'', ''job''), (''CI'', ''job'')],
     Steps := [step0\<lparr>Step.Env := [(''MODE'', ''step'')]\<rparr>]\<rparr>"

definition cfg_env :: RunnerConfig where
  "cfg_env = cfg0\<lparr>RunnerConfig.Environment := [(''TARGET'', ''cli'')]\<rparr>"

chapter \<open>Theorems\<close>

section \<open>The step guard\<close>

lemma shouldRunStep_iff:
  "shouldRunStep step env \<longleftrightarrow> If step \<noteq> ''failure()'' \<and> If step \<noteq> ''cancelled()''"
  by (simp add: shouldRunStep_def Let_def)

text \<open>
  Claim C8, as amended: the guard evaluator maps \<^verbatim>\<open>always()\<close> and \<^verbatim>\<open>success()\<close> to true,
  \<^verbatim>\<open>failure()\<close> and \<^verbatim>\<open>cancelled()\<close> to false and every other string, the empty one
  included, to true. So a step is skipped by its guard exactly when its \<^verbatim>\<open>if\<close> is the
  literal \<^verbatim>\<open>failure()\<close> or the literal \<^verbatim>\<open>cancelled()\<close>.
\<close>

theorem shouldRunStep_vocabulary:
  "shouldRunStep (step\<lparr>If := ''always()''\<rparr>) env
   \<and> shouldRunStep (step\<lparr>If := ''success()''\<rparr>) env
   \<and> \<not> shouldRunStep (step\<lparr>If := ''failure()''\<rparr>) env
   \<and> \<not> shouldRunStep (step\<lparr>If := ''cancelled()''\<rparr>) env
   \<and> shouldRunStep (step\<lparr>If := ''''\<rparr>) env
   \<and> (shouldRunStep step env \<longleftrightarrow> If step \<noteq> ''failure()'' \<and> If step \<noteq> ''cancelled()'')"
  by (simp add: shouldRunStep_def Let_def)

text \<open>
  The claim as written says that a step whose \<^verbatim>\<open>if\<close> is any non-empty string other than
  \<^verbatim>\<open>failure()\<close> is executed. The literal \<^verbatim>\<open>cancelled()\<close> is such a string, and the step is
  skipped.
\<close>

theorem shouldRunStep_cancelled_counterexample:
  "If (step0\<lparr>If := ''cancelled()''\<rparr>) \<noteq> ''''
   \<and> If (step0\<lparr>If := ''cancelled()''\<rparr>) \<noteq> ''failure()''
   \<and> \<not> shouldRunStep (step0\<lparr>If := ''cancelled()''\<rparr>) []"
  by (simp add: shouldRunStep_def Let_def step0_def)

section \<open>The job graph validator\<close>

lemma join_append:
  "xs \<noteq> [] \<Longrightarrow> ys \<noteq> [] \<Longrightarrow> join (xs @ ys) sep = join xs sep @ sep @ join ys sep"
proof (induction xs sep rule: join.induct)
  case (1 sep)
  then show ?case by simp
next
  case (2 x sep)
  then show ?case by (cases ys) simp_all
next
  case (3 x y ys sep)
  then show ?case by simp
qed

lemma needsChain_Cons:
  "needsChain allJobs (a # p) \<longleftrightarrow>
     (p = [] \<or> ((a, hd p) \<in> needsRel allJobs \<and> needsChain allJobs p))"
  by (cases p) (auto simp: needsRel_def split: option.splits)

lemma check_sound:
  "(checkCircularDependencies jobName job allJobs visited = Some e \<longrightarrow>
      map_of allJobs jobName = Some job \<longrightarrow>
      (\<exists>path. path \<noteq> [] \<and> hd path = jobName \<and> needsChain allJobs path
          \<and> last path \<in> set (visited @ butlast path)
          \<and> e = ErrorString (''circular dependency detected: '' @ join (visited @ path) '' -> '')))"
  "(checkNeeds needs allJobs visited = Some e \<longrightarrow>
      (\<exists>need path. need \<in> set needs \<and> need \<in> fst ` set allJobs \<and> path \<noteq> [] \<and> hd path = need
          \<and> needsChain allJobs path
          \<and> last path \<in> set (visited @ butlast path)
          \<and> e = ErrorString (''circular dependency detected: '' @ join (visited @ path) '' -> '')))"
proof (induction jobName job allJobs visited and needs allJobs visited
    arbitrary: e and e rule: checkCircularDependencies_checkNeeds.induct)
  case (1 jobName job allJobs visited)
  show ?case
  proof (intro impI)
    assume res: "checkCircularDependencies jobName job allJobs visited = Some e"
      and job: "map_of allJobs jobName = Some job"
    show "\<exists>path. path \<noteq> [] \<and> hd path = jobName \<and> needsChain allJobs path
          \<and> last path \<in> set (visited @ butlast path)
          \<and> e = ErrorString (''circular dependency detected: '' @ join (visited @ path) '' -> '')"
    proof (cases "jobName \<in> set visited")
      case True
      with res have "e = ErrorString (''circular dependency detected: '' @ join (visited @ [jobName]) '' -> '')"
        by simp
      with True show ?thesis
        by (intro exI[of _ "[jobName]"]) simp
    next
      case False
      with res have "checkNeeds (Needs job) allJobs (visited @ [jobName]) = Some e"
        by simp
      with 1[OF False] obtain need path where
        p: "need \<in> set (Needs job)" "need \<in> fst ` set allJobs" "path \<noteq> []" "hd path = need"
           "needsChain allJobs path" "last path \<in> set ((visited @ [jobName]) @ butlast path)"
           "e = ErrorString (''circular dependency detected: '' @ join ((visited @ [jobName]) @ path) '' -> '')"
        by blast
      have "(jobName, hd path) \<in> needsRel allJobs"
        using p job by (auto simp: needsRel_def)
      with p have "needsChain allJobs (jobName # path)"
        by (simp add: needsChain_Cons)
      moreover have "last (jobName # path) \<in> set (visited @ butlast (jobName # path))"
        using p by auto
      ultimately show ?thesis
        using p by (intro exI[of _ "jobName # path"]) simp
    qed
  qed
next
  case (2 allJobs visited)
  then show ?case by simp
next
  case (3 need rest allJobs visited)
  show ?case
  proof (intro impI)
    assume res: "checkNeeds (need # rest) allJobs visited = Some e"
    show "\<exists>n path. n \<in> set (need # rest) \<and> n \<in> fst ` set allJobs \<and> path \<noteq> [] \<and> hd path = n
          \<and> needsChain allJobs path
          \<and> last path \<in> set (visited @ butlast path)
          \<and> e = ErrorString (''circular dependency detected: '' @ join (visited @ path) '' -> '')"
    proof (cases "map_of allJobs need")
      case None
      with res have "checkNeeds rest allJobs visited = Some e" by simp
      with 3(1)[OF None] show ?thesis by (metis list.set_intros(2))
    next
      case (Some dependentJob)
      show ?thesis
      proof (cases "checkCircularDependencies need dependentJob allJobs visited")
        case None
        with res Some have "checkNeeds rest allJobs visited = Some e" by simp
        with 3(3)[OF Some None] show ?thesis by (metis list.set_intros(2))
      next
        case (Some err)
        with res \<open>map_of allJobs need = Some dependentJob\<close> have "err = e" by simp
        with Some 3(2)[OF \<open>map_of allJobs need = Some dependentJob\<close>]
          \<open>map_of allJobs need = Some dependentJob\<close>
        obtain path where "path \<noteq> []" "hd path = need" "needsChain allJobs path"
          "last path \<in> set (visited @ butlast path)"
          "e = ErrorString (''circular dependency detected: '' @ join (visited @ path) '' -> '')"
          by blast
        moreover have "need \<in> fst ` set allJobs"
          using \<open>map_of allJobs need = Some dependentJob\<close>
          by (metis map_of_SomeD fst_conv image_eqI)
        ultimately show ?thesis
          by (metis list.set_intros(1))
      qed
    qed
  qed
qed

lemma check_complete:
  "(checkCircularDependencies jobName job allJobs visited = None \<longrightarrow>
      map_of allJobs jobName = Some job \<longrightarrow>
      jobName \<notin> set visited
      \<and> (\<forall>k. (jobName, k) \<in> (needsRel allJobs)\<^sup>+ \<longrightarrow> k \<notin> set visited \<and> k \<noteq> jobName))"
  "(checkNeeds needs allJobs visited = None \<longrightarrow>
      (\<forall>n\<in>set needs. n \<in> fst ` set allJobs \<longrightarrow>
         n \<notin> set visited \<and> (\<forall>k. (n, k) \<in> (needsRel allJobs)\<^sup>+ \<longrightarrow> k \<notin> set visited)))"
proof (induction jobName job allJobs visited and needs allJobs visited
    rule: checkCircularDependencies_checkNeeds.induct)
  case (1 jobName job allJobs visited)
  show ?case
  proof (intro impI)
    assume res: "checkCircularDependencies jobName job allJobs visited = None"
      and job: "map_of allJobs jobName = Some job"
    from res have fresh: "jobName \<notin> set visited"
      by (auto split: if_splits)
    with res have "checkNeeds (Needs job) allJobs (visited @ [jobName]) = None"
      by simp
    with 1[OF fresh] have needs:
      "\<forall>n\<in>set (Needs job). n \<in> fst ` set allJobs \<longrightarrow>
         n \<notin> set (visited @ [jobName])
         \<and> (\<forall>k. (n, k) \<in> (needsRel allJobs)\<^sup>+ \<longrightarrow> k \<notin> set (visited @ [jobName]))"
      by blast
    have "k \<notin> set visited \<and> k \<noteq> jobName" if "(jobName, k) \<in> (needsRel allJobs)\<^sup>+" for k
    proof -
      from that obtain n where n: "(jobName, n) \<in> needsRel allJobs" "(n, k) \<in> (needsRel allJobs)\<^sup>*"
        by (meson tranclD)
      from n(1) job have "n \<in> set (Needs job)" "n \<in> fst ` set allJobs"
        by (auto simp: needsRel_def)
      with needs have *: "n \<notin> set (visited @ [jobName])"
        "\<forall>k. (n, k) \<in> (needsRel allJobs)\<^sup>+ \<longrightarrow> k \<notin> set (visited @ [jobName])"
        by blast+
      from n(2) have "k = n \<or> (n, k) \<in> (needsRel allJobs)\<^sup>+"
        by (auto simp: rtrancl_eq_or_trancl)
      with * have "k \<notin> set (visited @ [jobName])" by blast
      then show ?thesis by simp
    qed
    with fresh show "jobName \<notin> set visited
      \<and> (\<forall>k. (jobName, k) \<in> (needsRel allJobs)\<^sup>+ \<longrightarrow> k \<notin> set visited \<and> k \<noteq> jobName)"
      by blast
  qed
next
  case (2 allJobs visited)
  then show ?case by simp
next
  case (3 need rest allJobs visited)
  show ?case
  proof (intro impI)
    assume res: "checkNeeds (need # rest) allJobs visited = None"
    show "\<forall>n\<in>set (need # rest). n \<in> fst ` set allJobs \<longrightarrow>
         n \<notin> set visited \<and> (\<forall>k. (n, k) \<in> (needsRel allJobs)\<^sup>+ \<longrightarrow> k \<notin> set visited)"
    proof (cases "map_of allJobs need")
      case None
      then have "need \<notin> fst ` set allJobs"
        by (simp add: map_of_eq_None_iff)
      moreover from res None have "checkNeeds rest allJobs visited = None" by simp
      ultimately show ?thesis using 3(1)[OF None] by auto
    next
      case (Some dependentJob)
      with res have a: "checkCircularDependencies need dependentJob allJobs visited = None"
        and b: "checkNeeds rest allJobs visited = None"
        by (auto split: option.splits)
      from 3(2)[OF Some] a Some have "need \<notin> set visited
        \<and> (\<forall>k. (need, k) \<in> (needsRel allJobs)\<^sup>+ \<longrightarrow> k \<notin> set visited \<and> k \<noteq> need)"
        by blast
      moreover from 3(3)[OF Some a] b have "\<forall>n\<in>set rest. n \<in> fst ` set allJobs \<longrightarrow>
         n \<notin> set visited \<and> (\<forall>k. (n, k) \<in> (needsRel allJobs)\<^sup>+ \<longrightarrow> k \<notin> set visited)"
        by blast
      ultimately show ?thesis by auto
    qed
  qed
qed

lemma needsChain_suffix: "needsChain allJobs (xs @ ys) \<Longrightarrow> needsChain allJobs ys"
proof (induction xs)
  case Nil
  then show ?case by simp
next
  case (Cons x xs)
  then show ?case by (cases "xs @ ys") auto
qed

lemma join_suffix: "ys \<noteq> [] \<Longrightarrow> suffix (join ys sep) (join (xs @ ys) sep)"
  by (cases "xs = []") (simp_all add: join_append suffix_def)

lemma closing_chain_cycle:
  assumes "needsChain allJobs chain" and "chain \<noteq> []" and "last chain \<in> set (butlast chain)"
  shows "\<exists>before cycle. chain = before @ cycle \<and> 2 \<le> length cycle \<and> hd cycle = last cycle
           \<and> needsChain allJobs cycle"
proof -
  from assms(3) obtain before mid where b: "butlast chain = before @ last chain # mid"
    by (meson split_list)
  with assms(2) have c: "chain = before @ (last chain # mid @ [last chain])"
    by (metis append.assoc append_Cons append_butlast_last_id)
  let ?cycle = "last chain # mid @ [last chain]"
  from assms(1) c have "needsChain allJobs ?cycle"
    by (metis needsChain_suffix)
  moreover have "2 \<le> length ?cycle" "hd ?cycle = last ?cycle" by simp_all
  ultimately show ?thesis using c by blast
qed

text \<open>
  Claim C7: for every pipeline whose \<^verbatim>\<open>needs\<close> relation contains a cycle, validation
  returns an error message \<^verbatim>\<open>circular dependency detected: \<close> followed by the path that
  the depth-first walk from a job took, as job names joined by \<^verbatim>\<open> -> \<close>. The path is
  a chain of the \<^verbatim>\<open>needs\<close> relation and it ends with the cycle that closes it: the
  message ends with the cycle's jobs in the order walked, the last one being the job at
  which the path closes.
\<close>

theorem validatePipeline_reports_cycle:
  assumes keys: "distinct (map fst (Jobs pipeline))"
    and cyc: "(a, a) \<in> (needsRel (Jobs pipeline))\<^sup>+"
  shows "\<exists>before cycle.
           needsChain (Jobs pipeline) (before @ cycle)
         \<and> 2 \<le> length cycle \<and> hd cycle = last cycle
         \<and> (''circular dependency detected: '' @ join (before @ cycle) '' -> '')
             \<in> set (validatePipeline (Some pipeline) strict)
         \<and> suffix (join cycle '' -> '')
             (''circular dependency detected: '' @ join (before @ cycle) '' -> '')"
proof -
  from cyc obtain n where "(a, n) \<in> needsRel (Jobs pipeline)"
    by (meson tranclD)
  then obtain job where job: "map_of (Jobs pipeline) a = Some job"
    by (auto simp: needsRel_def)
  then have entry: "(a, job) \<in> set (Jobs pipeline)"
    by (rule map_of_SomeD)
  have "checkCircularDependencies a job (Jobs pipeline) [] \<noteq> None"
    using check_complete(1)[of a job "Jobs pipeline" "[]"] job cyc by blast
  then obtain e where e: "checkCircularDependencies a job (Jobs pipeline) [] = Some e"
    by blast
  with check_sound(1)[of a job "Jobs pipeline" "[]" e] job
  obtain chain where chain: "chain \<noteq> []" "needsChain (Jobs pipeline) chain"
      "last chain \<in> set (butlast chain)"
      "e = ErrorString (''circular dependency detected: '' @ join chain '' -> '')"
    by auto
  from closing_chain_cycle[OF chain(2) chain(1) chain(3)]
  obtain before cycle where split: "chain = before @ cycle" "2 \<le> length cycle"
      "hd cycle = last cycle" "needsChain (Jobs pipeline) cycle"
    by blast
  have "Error e \<in> set (validateJob pipeline strict a job)"
    using e by (simp add: validateJob_def)
  with entry have "Error e \<in> set (validatePipeline (Some pipeline) strict)"
    by (auto simp: validatePipeline_def intro!: bexI[of _ "(a, job)"])
  moreover from split(2) have "cycle \<noteq> []" by auto
  then have "suffix (join cycle '' -> '')
      (''circular dependency detected: '' @ join (before @ cycle) '' -> '')"
    by (meson join_suffix suffix_appendI)
  ultimately show ?thesis
    using chain split by auto
qed

theorem validatePipeline_reports_cycle_witness:
  "distinct (map fst (Jobs pipeline_cycle))
   \<and> (''A'', ''A'') \<in> (needsRel (Jobs pipeline_cycle))\<^sup>+
   \<and> (\<exists>before cycle.
           needsChain (Jobs pipeline_cycle) (before @ cycle)
         \<and> 2 \<le> length cycle \<and> hd cycle = last cycle
         \<and> (''circular dependency detected: '' @ join (before @ cycle) '' -> '')
             \<in> set (validatePipeline (Some pipeline_cycle) False)
         \<and> suffix (join cycle '' -> '')
             (''circular dependency detected: '' @ join (before @ cycle) '' -> ''))"
proof -
  have keys: "distinct (map fst (Jobs pipeline_cycle))"
    by (simp add: pipeline_cycle_def)
  have ab: "(''A'', ''B'') \<in> needsRel (Jobs pipeline_cycle)"
    by (simp add: needsRel_def pipeline_cycle_def jobA_def)
  have ba: "(''B'', ''A'') \<in> needsRel (Jobs pipeline_cycle)"
    by (simp add: needsRel_def pipeline_cycle_def jobA_def)
  from ab ba have cyc: "(''A'', ''A'') \<in> (needsRel (Jobs pipeline_cycle))\<^sup>+"
    by (meson trancl.intros)
  from validatePipeline_reports_cycle[OF keys cyc, of False] keys cyc
  show ?thesis by blast
qed

section \<open>The process backend: the job loop\<close>

lemma jobTimedOut_cases:
  "jobTimedOut r w = (b, w0) \<Longrightarrow> w0 = w \<or> w0 = asked w"
  by (auto simp: jobTimedOut_def readClock_def Let_def split: if_splits)

lemma runSteps_failed_step:
  assumes "jobTimedOut r w = (False, w0)"
    and "shouldRunStep step jobEnv"
    and "BashRunner_RunStep r step jobEnv absWorkdir w0 = (Some err, w1)"
  shows "runSteps r jobEnv absWorkdir (step # rest) summary log w =
     (if ContinueOnErr step
      then runSteps r jobEnv absWorkdir rest
             (summary\<lparr>FailedSteps := FailedSteps summary + 1\<rparr>) (log @ [StepFailed step err]) w1
      else (summary\<lparr>FailedSteps := FailedSteps summary + 1, Success := False,
                     Errors := Errors summary
                       @ [''Step '' @ quoted (Step.Name step) @ '' failed: '' @ Error err]\<rparr>,
            log @ [StepFailed step err], w1))"
  using assms by simp

lemma runSteps_summary:
  "runSteps r jobEnv absWorkdir steps summary log w = (summary', log', w') \<Longrightarrow>
     \<exists>new. log' = log @ new
       \<and> FailedSteps summary' = FailedSteps summary + int (length (failedReports new))
       \<and> (Success summary' \<longleftrightarrow>
            Success summary \<and> JobTimedOut \<notin> set new
            \<and> (\<forall>(step, err)\<in>set (failedReports new). ContinueOnErr step))"
proof (induction steps arbitrary: summary log w)
  case Nil
  then show ?case by simp
next
  case (Cons step rest)
  obtain expired w0 where t: "jobTimedOut r w = (expired, w0)"
    by (cases "jobTimedOut r w")
  show ?case
  proof (cases expired)
    case True
    with Cons.prems t show ?thesis
      by (intro exI[of _ "[JobTimedOut]"]) auto
  next
    case notExpired: False
    show ?thesis
    proof (cases "shouldRunStep step jobEnv")
      case False
      with Cons.prems t notExpired have
        "runSteps r jobEnv absWorkdir rest (summary\<lparr>SkippedSteps := SkippedSteps summary + 1\<rparr>)
           (log @ [StepSkipped step]) w0 = (summary', log', w')"
        by simp
      from Cons.IH[OF this] obtain new where
        "log' = (log @ [StepSkipped step]) @ new"
        "FailedSteps summary' = FailedSteps summary + int (length (failedReports new))"
        "Success summary' \<longleftrightarrow> Success summary \<and> JobTimedOut \<notin> set new
            \<and> (\<forall>(step, err)\<in>set (failedReports new). ContinueOnErr step)"
        by auto
      then show ?thesis
        by (intro exI[of _ "StepSkipped step # new"]) auto
    next
      case True
      obtain res w1 where rs: "BashRunner_RunStep r step jobEnv absWorkdir w0 = (res, w1)"
        by (cases "BashRunner_RunStep r step jobEnv absWorkdir w0")
      show ?thesis
      proof (cases res)
        case None
        with Cons.prems t notExpired True rs have
          "runSteps r jobEnv absWorkdir rest (summary\<lparr>CompletedSteps := CompletedSteps summary + 1\<rparr>)
             (log @ [StepCompleted step]) w1 = (summary', log', w')"
          by simp
        from Cons.IH[OF this] obtain new where
          "log' = (log @ [StepCompleted step]) @ new"
          "FailedSteps summary' = FailedSteps summary + int (length (failedReports new))"
          "Success summary' \<longleftrightarrow> Success summary \<and> JobTimedOut \<notin> set new
              \<and> (\<forall>(step, err)\<in>set (failedReports new). ContinueOnErr step)"
          by auto
        then show ?thesis
          by (intro exI[of _ "StepCompleted step # new"]) auto
      next
        case (Some err)
        show ?thesis
        proof (cases "ContinueOnErr step")
          case False
          with Cons.prems t notExpired True rs Some show ?thesis
            by (intro exI[of _ "[StepFailed step err]"]) auto
        next
          case coe: True
          with Cons.prems t notExpired True rs Some have
            "runSteps r jobEnv absWorkdir rest (summary\<lparr>FailedSteps := FailedSteps summary + 1\<rparr>)
               (log @ [StepFailed step err]) w1 = (summary', log', w')"
            by simp
          from Cons.IH[OF this] obtain new where
            "log' = (log @ [StepFailed step err]) @ new"
            "FailedSteps summary' = FailedSteps summary + 1 + int (length (failedReports new))"
            "Success summary' \<longleftrightarrow> Success summary \<and> JobTimedOut \<notin> set new
                \<and> (\<forall>(step, err)\<in>set (failedReports new). ContinueOnErr step)"
            by auto
          with coe show ?thesis
            by (intro exI[of _ "StepFailed step err # new"]) auto
        qed
      qed
    qed
  qed
qed

lemma runJob_summary:
  assumes "runJob r job workdir w = (Inr (summary, log), r', w')"
  shows "FailedSteps summary = int (length (failedReports log))
       \<and> (Success summary \<longleftrightarrow>
            JobTimedOut \<notin> set log \<and> (\<forall>(step, err)\<in>set (failedReports log). ContinueOnErr step))"
proof -
  from assms obtain absWorkdir where a: "absPath (os w) workdir = Inr absWorkdir"
    by (auto simp: runJob_def split: sum.splits)
  obtain r1 w1 where s: "setupJobEnvironment job absWorkdir r w = (r1, w1)"
    by (cases "setupJobEnvironment job absWorkdir r w")
  let ?s0 = "\<lparr>JobName = Job.Name job, TotalSteps = int (length (Steps job)),
                            CompletedSteps = 0, FailedSteps = 0, SkippedSteps = 0,
                            Duration = 0, Success = True, Errors = []\<rparr>"
  let ?jobEnv = "mergeEnvironments [Job.Environment job, RunnerConfig.Environment (BashRunner.config r)]"
  obtain s2 log2 w2 where l: "runSteps r1 ?jobEnv absWorkdir (Steps job) ?s0 [] w1 = (s2, log2, w2)"
    by (cases "runSteps r1 ?jobEnv absWorkdir (Steps job) ?s0 [] w1")
  from assms a s l have "summary = s2\<lparr>Duration := fst (readClock w2)\<rparr>" "log = log2"
    by (auto simp: runJob_def Let_def split: if_splits prod.splits)
  with runSteps_summary[OF l] show ?thesis by auto
qed

lemmas eval_defs =
  runJob_def BashRunner_RunJob_def NewBashRunner_def cfg0_def job0_def step0_def
  world_failing_def world0_def os0_def daemon0_def
  setupJobEnvironment_def getGitBranch_def getGitCommit_def launch_def asked_def did_def
  Command_def failing_def mergeEnvironments_def jobTimedOut_def readClock_def
  minutesExceed_def shouldRunStep_def BashRunner_RunStep_def stepCommand_def getShell_def
  getDefaultShell_def prepareCommand_def buildStepEnvironment_def executeCommand_def
  commandError_def trimSpace_def Let_def keyValue_def quoted_def itoa_def
  step_coe_def step_guarded_def job_coe_def world_slow_def digit_def filepath_Base_def

text \<open>
  Claim C3, as amended: in the job loop of the process backend, when a step that was run
  fails, then if the step has \<^verbatim>\<open>continue_on_error\<close> it is counted as failed, the success
  flag of the job is left as it is and the loop goes on with the remaining steps;
  otherwise the step is counted as failed, the job is marked failed and the loop stops, so
  that no further step is attempted. Hence for every job whose run was not cut short by
  the job timeout and whose only failing step has \<^verbatim>\<open>continue_on_error\<close>, the summary has
  \<open>Success = True\<close> and \<open>FailedSteps = 1\<close>.
\<close>

theorem continue_on_error_step_summary:
  "(jobTimedOut r w = (False, w0) \<and> shouldRunStep step jobEnv
      \<and> BashRunner_RunStep r step jobEnv absWorkdir w0 = (Some err, w1)
    \<longrightarrow> runSteps r jobEnv absWorkdir (step # rest) summary log w =
         (if ContinueOnErr step
          then runSteps r jobEnv absWorkdir rest
                 (summary\<lparr>FailedSteps := FailedSteps summary + 1\<rparr>)
                 (log @ [StepFailed step err]) w1
          else (summary\<lparr>FailedSteps := FailedSteps summary + 1, Success := False,
                         Errors := Errors summary
                           @ [''Step '' @ quoted (Step.Name step) @ '' failed: '' @ Error err]\<rparr>,
                log @ [StepFailed step err], w1)))
   \<and> (runJob r job workdir w' = (Inr (summary', log'), r', w'')
      \<and> JobTimedOut \<notin> set log'
      \<and> failedReports log' = [(failed, err')] \<and> ContinueOnErr failed
    \<longrightarrow> Success summary' \<and> FailedSteps summary' = 1)"
proof (intro conjI impI)
  assume "jobTimedOut r w = (False, w0) \<and> shouldRunStep step jobEnv
      \<and> BashRunner_RunStep r step jobEnv absWorkdir w0 = (Some err, w1)"
  then show "runSteps r jobEnv absWorkdir (step # rest) summary log w =
         (if ContinueOnErr step
          then runSteps r jobEnv absWorkdir rest
                 (summary\<lparr>FailedSteps := FailedSteps summary + 1\<rparr>)
                 (log @ [StepFailed step err]) w1
          else (summary\<lparr>FailedSteps := FailedSteps summary + 1, Success := False,
                         Errors := Errors summary
                           @ [''Step '' @ quoted (Step.Name step) @ '' failed: '' @ Error err]\<rparr>,
                log @ [StepFailed step err], w1))"
    by (simp add: runSteps_failed_step)
next
  assume a: "runJob r job workdir w' = (Inr (summary', log'), r', w'')
      \<and> JobTimedOut \<notin> set log'
      \<and> failedReports log' = [(failed, err')] \<and> ContinueOnErr failed"
  with runJob_summary[of r job workdir w' summary' log' r' w'']
  show "Success summary'" by simp
  from a runJob_summary[of r job workdir w' summary' log' r' w'']
  show "FailedSteps summary' = 1" by simp
qed

theorem continue_on_error_step_summary_witness:
  "jobTimedOut (NewBashRunner cfg0) world_failing
       = (False, snd (jobTimedOut (NewBashRunner cfg0) world_failing))
   \<and> shouldRunStep step_coe []
   \<and> BashRunner_RunStep (NewBashRunner cfg0) step_coe [] ''/w''
        (snd (jobTimedOut (NewBashRunner cfg0) world_failing))
       = (Some (ErrorString ''command failed: exit status 1''),
          snd (BashRunner_RunStep (NewBashRunner cfg0) step_coe [] ''/w''
            (snd (jobTimedOut (NewBashRunner cfg0) world_failing))))
   \<and> ContinueOnErr step_coe
   \<and> runSteps (NewBashRunner cfg0) [] ''/w'' [step_coe, step_guarded] summary0 [] world_failing
       = runSteps (NewBashRunner cfg0) [] ''/w'' [step_guarded]
           (summary0\<lparr>FailedSteps := FailedSteps summary0 + 1\<rparr>)
           [StepFailed step_coe (ErrorString ''command failed: exit status 1'')]
           (snd (BashRunner_RunStep (NewBashRunner cfg0) step_coe [] ''/w''
             (snd (jobTimedOut (NewBashRunner cfg0) world_failing))))
   \<and> fst (runJob (NewBashRunner cfg0) job_coe ''/w'' world_failing)
       = Inr (\<lparr>JobName = ''build'', TotalSteps = 2, CompletedSteps = 0, FailedSteps = 1,
               SkippedSteps = 1, Duration = 0, Success = True, Errors = []\<rparr>,
              [StepFailed step_coe (ErrorString ''command failed: exit status 1''),
               StepSkipped step_guarded])"
proof -
  let ?r = "NewBashRunner cfg0"
  let ?e = "ErrorString ''command failed: exit status 1''"
  let ?w0 = "snd (jobTimedOut ?r world_failing)"
  let ?w1 = "snd (BashRunner_RunStep ?r step_coe [] ''/w'' ?w0)"
  have t: "jobTimedOut ?r world_failing = (False, ?w0)"
    by (simp add: eval_defs)
  have g: "shouldRunStep step_coe []"
    by (simp add: eval_defs)
  have s: "BashRunner_RunStep ?r step_coe [] ''/w'' ?w0 = (Some ?e, ?w1)"
    by (simp add: eval_defs)
  have c: "ContinueOnErr step_coe"
    by (simp add: eval_defs)
  obtain summary' log' r' w'' where
    run: "runJob ?r job_coe ''/w'' world_failing = (Inr (summary', log'), r', w'')"
    and log: "log' = [StepFailed step_coe ?e, StepSkipped step_guarded]"
    and rest: "CompletedSteps summary' = 0" "SkippedSteps summary' = 1" "Errors summary' = []"
      "JobName summary' = ''build''" "TotalSteps summary' = 2" "Duration summary' = 0"
    by (cases "runJob ?r job_coe ''/w'' world_failing") (simp add: eval_defs)
  have hyp: "JobTimedOut \<notin> set log'" "failedReports log' = [(step_coe, ?e)]"
    using log by simp_all
  note inst = continue_on_error_step_summary[where r = "?r" and w = world_failing
      and ?w0.0 = "?w0" and step = step_coe and jobEnv = "[]" and absWorkdir = "''/w''"
      and err = "?e" and ?w1.0 = "?w1" and rest = "[step_guarded]" and summary = summary0
      and log = "[]" and job = job_coe and workdir = "''/w''" and w' = world_failing
      and summary' = summary' and log' = log' and r' = r' and w'' = w''
      and failed = step_coe and err' = "?e"]
  from inst t g s c have loop:
    "runSteps ?r [] ''/w'' [step_coe, step_guarded] summary0 [] world_failing
       = runSteps ?r [] ''/w'' [step_guarded]
           (summary0\<lparr>FailedSteps := FailedSteps summary0 + 1\<rparr>) [StepFailed step_coe ?e] ?w1"
    by simp
  from inst run hyp c have "Success summary'" "FailedSteps summary' = 1"
    by simp_all
  with rest have "summary' = \<lparr>JobName = ''build'', TotalSteps = 2, CompletedSteps = 0,
      FailedSteps = 1, SkippedSteps = 1, Duration = 0, Success = True, Errors = []\<rparr>"
    by simp
  with run log have "fst (runJob ?r job_coe ''/w'' world_failing)
       = Inr (\<lparr>JobName = ''build'', TotalSteps = 2, CompletedSteps = 0, FailedSteps = 1,
               SkippedSteps = 1, Duration = 0, Success = True, Errors = []\<rparr>,
              [StepFailed step_coe ?e, StepSkipped step_guarded])"
    by simp
  with t g s c loop show ?thesis by blast
qed

text \<open>
  The claim as written has no proviso for the job timeout (\<^verbatim>\<open>r.config.Timeout\<close>, 30 minutes
  unless the command line says otherwise), which the loop tests before every step. Here the
  timeout is one minute; the first step fails after two minutes and has
  \<^verbatim>\<open>continue_on_error\<close>, the loop then finds the timeout exceeded: the only failing step has
  \<^verbatim>\<open>continue_on_error\<close>, \<open>FailedSteps = 1\<close>, and \<open>Success = False\<close>.
\<close>

theorem continue_on_error_timeout_counterexample:
  "fst (runJob (NewBashRunner (cfg0\<lparr>RunnerConfig.Timeout := 1\<rparr>)) job_coe ''/w'' world_slow)
     = Inr (\<lparr>JobName = ''build'', TotalSteps = 2, CompletedSteps = 0, FailedSteps = 1,
             SkippedSteps = 0, Duration = 120000000000, Success = False,
             Errors = [''Job timeout exceeded (1 minutes)'']\<rparr>,
            [StepFailed step_coe (ErrorString ''command failed: exit status 1''), JobTimedOut])
   \<and> ContinueOnErr step_coe"
  by (simp add: eval_defs)

text \<open>
  \<^verbatim>\<open>RunJob\<close> of the process backend returns an error only for its working directory.
\<close>

lemma BashRunner_RunJob_error_iff:
  "fst (BashRunner_RunJob r job workdir w) \<noteq> None \<longleftrightarrow>
     (case absPath (os w) workdir of Inl err \<Rightarrow> True | Inr absWorkdir \<Rightarrow> notExist (os w) absWorkdir)"
  by (auto simp: BashRunner_RunJob_def runJob_def Let_def split: sum.splits prod.splits)

text \<open>
  Claim C1 says that \<^verbatim>\<open>RunJob\<close> returns an error when a step without
  \<^verbatim>\<open>continue_on_error\<close> fails. The process backend does not: its last statement is
  \<^verbatim>\<open>return nil\<close>, whatever the summary says. Here the only step of the job exits with status
  1; the summary has \<open>Success = False\<close> and \<^verbatim>\<open>RunJob\<close> returns \<^verbatim>\<open>nil\<close>.
\<close>

theorem BashRunner_RunJob_failed_step_returns_nil:
  "fst (BashRunner_RunJob (NewBashRunner cfg0) job0 ''/w'' world_failing) = None
   \<and> fst (runJob (NewBashRunner cfg0) job0 ''/w'' world_failing)
       = Inr (\<lparr>JobName = ''build'', TotalSteps = 1, CompletedSteps = 0, FailedSteps = 1,
               SkippedSteps = 0, Duration = 0, Success = False,
               Errors = [''Step '' @ quoted ''build''
                          @ '' failed: command failed: exit status 1'']\<rparr>,
              [StepFailed step0 (ErrorString ''command failed: exit status 1'')])
   \<and> \<not> ContinueOnErr step0"
  by (simp add: eval_defs)



section \<open>The process backend: retries\<close>

lemma sleep_fields [simp]:
  "tick (sleep d w) = tick w" "os (sleep d w) = os w" "daemon (sleep d w) = daemon w"
  "events (sleep d w) = events w @ [Sleep d]"
  by (simp_all add: sleep_def did_def)

lemma launch_fields:
  "launch cmd w = (outcome, w') \<Longrightarrow>
     outcome = proc (os w) (tick w) cmd \<and> tick w' = Suc (tick w) \<and> os w' = os w
     \<and> daemon w' = daemon w \<and> events w' = events w @ [Exec cmd]"
  by (auto simp: launch_def asked_def did_def)

lemma executeCommand_fields:
  "executeCommand r cmd name w = (res, w') \<Longrightarrow>
     res = commandError r (proc (os w) (tick w) cmd) \<and> tick w' = Suc (tick w) \<and> os w' = os w
     \<and> daemon w' = daemon w \<and> events w' = events w @ [Exec cmd]"
  by (auto simp: executeCommand_def launch_def asked_def did_def)

lemma retryLoop_later:
  "2 \<le> attempt \<Longrightarrow> attempt \<le> maxAttempts + 1 \<Longrightarrow>
   retryLoop r cmd step policy maxAttempts attempt lastErr w = (res, w') \<Longrightarrow>
   \<exists>k. int k \<le> maxAttempts + 1 - attempt
     \<and> events w' = events w
           @ concat (replicate k (retryDelay policy w @ [Exec (cloneCommand (os w) cmd)]))
     \<and> tick w' = tick w + k \<and> os w' = os w
     \<and> (\<forall>i. Suc i < k \<longrightarrow>
           commandError r (proc (os w) (tick w + i) (cloneCommand (os w) cmd)) \<noteq> None)
     \<and> (if 0 < k \<and> commandError r (proc (os w) (tick w + (k - 1)) (cloneCommand (os w) cmd)) = None
        then res = None
        else int k = maxAttempts + 1 - attempt
           \<and> res = Some (allAttemptsFailed maxAttempts
                (if k = 0 then lastErr
                 else commandError r (proc (os w) (tick w + (k - 1)) (cloneCommand (os w) cmd)))))"
proof (induction r cmd step policy maxAttempts attempt lastErr w arbitrary: res w'
    rule: retryLoop.induct)
  case (1 r cmd step policy maxAttempts attempt lastErr w)
  let ?c = "cloneCommand (os w) cmd"
  let ?out = "\<lambda>i. commandError r (proc (os w) (tick w + i) ?c)"
  show ?case
  proof (cases "attempt \<le> maxAttempts")
    case False
    with "1.prems" have "res = Some (allAttemptsFailed maxAttempts lastErr)" "w' = w"
      "attempt = maxAttempts + 1"
      by auto
    then show ?thesis
      by (intro exI[of _ 0]) simp
  next
    case True
    define w1 where "w1 =
      (if Delay policy \<noteq> '''' then
         (case parseDuration (os w) (Delay policy) of
            Some duration \<Rightarrow> sleep duration w
          | None \<Rightarrow> w)
       else w)"
    have w1: "tick w1 = tick w" "os w1 = os w" "events w1 = events w @ retryDelay policy w"
      by (auto simp: w1_def retryDelay_def split: option.splits)
    obtain e w2 where ex1:
      "executeCommand r (cloneCommand (os w1) cmd) (Step.Name step) w1 = (e, w2)"
      by (cases "executeCommand r (cloneCommand (os w1) cmd) (Step.Name step) w1")
    then have ex: "executeCommand r ?c (Step.Name step) w1 = (e, w2)"
      by (simp add: w1)
    from executeCommand_fields[OF ex] w1 have w2:
      "e = ?out 0" "tick w2 = Suc (tick w)" "os w2 = os w"
      "events w2 = events w @ retryDelay policy w @ [Exec ?c]"
      by simp_all
    show ?thesis
    proof (cases e)
      case None
      with "1.prems" True ex1 have "res = None" "w' = w2"
        by (simp_all add: w1_def Let_def)
      with w2 None show ?thesis
        by (intro exI[of _ 1]) (use True in simp)
    next
      case (Some err)
      with "1.prems" True ex1 have rec:
        "retryLoop r cmd step policy maxAttempts (attempt + 1) (Some err) w2 = (res, w')"
        by (simp add: w1_def Let_def)
      let ?c2 = "cloneCommand (os w2) cmd"
      have c2: "?c2 = ?c" by (simp add: w2(3))
      have "\<exists>k. int k \<le> maxAttempts + 1 - (attempt + 1)
        \<and> events w' = events w2 @ concat (replicate k (retryDelay policy w2 @ [Exec ?c2]))
        \<and> tick w' = tick w2 + k \<and> os w' = os w2
        \<and> (\<forall>i. Suc i < k \<longrightarrow> commandError r (proc (os w2) (tick w2 + i) ?c2) \<noteq> None)
        \<and> (if 0 < k \<and> commandError r (proc (os w2) (tick w2 + (k - 1)) ?c2) = None
           then res = None
           else int k = maxAttempts + 1 - (attempt + 1)
              \<and> res = Some (allAttemptsFailed maxAttempts
                   (if k = 0 then Some err
                    else commandError r (proc (os w2) (tick w2 + (k - 1)) ?c2))))"
        using "1.IH"[OF True _ _ ex1[symmetric, unfolded w1_def] _ _ _ rec] Some "1.prems" True
        by (simp add: w1_def)
      then obtain k where k:
        "int k \<le> maxAttempts + 1 - (attempt + 1)"
        "events w' = events w2 @ concat (replicate k (retryDelay policy w2 @ [Exec ?c2]))"
        "tick w' = tick w2 + k" "os w' = os w2"
        "\<forall>i. Suc i < k \<longrightarrow> commandError r (proc (os w2) (tick w2 + i) ?c2) \<noteq> None"
        "if 0 < k \<and> commandError r (proc (os w2) (tick w2 + (k - 1)) ?c2) = None
           then res = None
           else int k = maxAttempts + 1 - (attempt + 1)
              \<and> res = Some (allAttemptsFailed maxAttempts
                   (if k = 0 then Some err
                    else commandError r (proc (os w2) (tick w2 + (k - 1)) ?c2)))"
        by blast
      have out0: "commandError r (proc (os w) (tick w) ?c) = Some err"
        using w2(1) Some by simp
      have d: "retryDelay policy w2 = retryDelay policy w"
        by (simp add: retryDelay_def w2)
      have shift: "commandError r (proc (os w2) (tick w2 + i) ?c2) = ?out (Suc i)" for i
        by (simp add: w2)
      have a: "int (Suc k) \<le> maxAttempts + 1 - attempt"
        using k(1) by simp
      have b: "events w' = events w
          @ concat (replicate (Suc k) (retryDelay policy w @ [Exec ?c]))"
        using k(2) w2 d c2 by simp
      have c: "tick w' = tick w + Suc k" using k(3) w2 by simp
      have e: "\<forall>i. Suc i < Suc k \<longrightarrow> ?out i \<noteq> None"
      proof (intro allI impI)
        fix i assume "Suc i < Suc k"
        show "?out i \<noteq> None"
        proof (cases i)
          case 0
          with out0 show ?thesis by simp
        next
          case (Suc j)
          with \<open>Suc i < Suc k\<close> k(5) shift show ?thesis by simp
        qed
      qed
      have f: "if 0 < Suc k \<and> ?out (Suc k - 1) = None
           then res = None
           else int (Suc k) = maxAttempts + 1 - attempt
              \<and> res = Some (allAttemptsFailed maxAttempts
                   (if Suc k = 0 then lastErr else ?out (Suc k - 1)))"
      proof (cases k)
        case 0
        with k(6) out0 show ?thesis by simp
      next
        case (Suc j)
        with k(6) shift[of j] show ?thesis by (simp split: if_splits)
      qed
      from a b c e f k(4) w2(3) show ?thesis
        by (intro exI[of _ "Suc k"]) simp
    qed
  qed
qed

lemma executeWithRetry_trace:
  assumes run: "executeWithRetry r cmd step policy w = (res, w')"
    and m: "m = (if MaxAttempts policy \<le> 0 then 1 else MaxAttempts policy)"
  shows "\<exists>k. 1 \<le> k \<and> int k \<le> m
     \<and> events w' = events w @ Exec (cloneCommand (os w) cmd)
           # concat (replicate (k - 1) (retryDelay policy w @ [Exec (cloneCommand (os w) cmd)]))
     \<and> os w' = os w
     \<and> (\<forall>i. Suc i < k \<longrightarrow>
           commandError r (proc (os w) (tick w + i) (cloneCommand (os w) cmd)) \<noteq> None)
     \<and> (case commandError r (proc (os w) (tick w + (k - 1)) (cloneCommand (os w) cmd)) of
          None \<Rightarrow> res = None
        | Some e \<Rightarrow> int k = m
            \<and> res = Some (Errorf_w (''all '' @ itoa m @ '' attempts failed, last error: '') e))"
proof -
  let ?c = "cloneCommand (os w) cmd"
  let ?out = "\<lambda>i. commandError r (proc (os w) (tick w + i) ?c)"
  have m1: "1 \<le> m" using m by simp
  obtain e w2 where ex: "executeCommand r ?c (Step.Name step) w = (e, w2)"
    by (cases "executeCommand r ?c (Step.Name step) w")
  from executeCommand_fields[OF ex] have w2:
    "e = ?out 0" "tick w2 = Suc (tick w)" "os w2 = os w" "events w2 = events w @ [Exec ?c]"
    by simp_all
  from run m have loop: "retryLoop r cmd step policy m 1 None w = (res, w')"
    by (simp add: executeWithRetry_def Let_def)
  show ?thesis
  proof (cases e)
    case None
    with loop m1 ex have "res = None" "w' = w2"
      by (simp_all add: Let_def)
    with w2 None m1 show ?thesis
      by (intro exI[of _ 1]) simp
  next
    case (Some err)
    then have out0: "?out 0 = Some err" using w2(1) by simp
    from loop m1 ex Some have rec: "retryLoop r cmd step policy m 2 (Some err) w2 = (res, w')"
      by (simp add: Let_def)
    let ?c2 = "cloneCommand (os w2) cmd"
    have c2: "?c2 = ?c" by (simp add: w2(3))
    from retryLoop_later[OF _ _ rec] m1 obtain k where k:
      "int k \<le> m + 1 - 2"
      "events w' = events w2 @ concat (replicate k (retryDelay policy w2 @ [Exec ?c2]))"
      "\<forall>i. Suc i < k \<longrightarrow> commandError r (proc (os w2) (tick w2 + i) ?c2) \<noteq> None"
      "if 0 < k \<and> commandError r (proc (os w2) (tick w2 + (k - 1)) ?c2) = None
         then res = None
         else int k = m + 1 - 2
            \<and> res = Some (allAttemptsFailed m
                 (if k = 0 then Some err
                  else commandError r (proc (os w2) (tick w2 + (k - 1)) ?c2)))"
      "os w' = os w2"
      by auto
    have d: "retryDelay policy w2 = retryDelay policy w"
      by (simp add: retryDelay_def w2)
    have shift: "commandError r (proc (os w2) (tick w2 + i) ?c2) = ?out (Suc i)" for i
      by (simp add: w2)
    have a: "1 \<le> Suc k" "int (Suc k) \<le> m" using k(1) by simp_all
    have b: "events w' = events w @ Exec ?c
        # concat (replicate (Suc k - 1) (retryDelay policy w @ [Exec ?c]))"
      using k(2) w2 d c2 by simp
    have c: "\<forall>i. Suc i < Suc k \<longrightarrow> ?out i \<noteq> None"
    proof (intro allI impI)
      fix i assume "Suc i < Suc k"
      show "?out i \<noteq> None"
      proof (cases i)
        case 0
        with out0 show ?thesis by simp
      next
        case (Suc j)
        with \<open>Suc i < Suc k\<close> k(3) shift show ?thesis by simp
      qed
    qed
    have f: "case ?out (Suc k - 1) of
          None \<Rightarrow> res = None
        | Some e \<Rightarrow> int (Suc k) = m
            \<and> res = Some (Errorf_w (''all '' @ itoa m @ '' attempts failed, last error: '') e)"
    proof (cases k)
      case 0
      with k(4) out0 show ?thesis by (simp add: allAttemptsFailed_def)
    next
      case (Suc j)
      with k(4) shift[of j] show ?thesis
        by (auto simp: allAttemptsFailed_def split: option.splits if_splits)
    qed
    from a b c f k(5) w2(3) show ?thesis
      by (intro exI[of _ "Suc k"]) simp
  qed
qed

lemma Command_fields:
  "Path (Command sys name arg)
     = (if filepath_Base name = name \<and> fst (lookPath sys name) \<noteq> ''''
        then fst (lookPath sys name) else name)"
  "Args (Command sys name arg) = name # arg"
  "Dir (Command sys name arg) = ''''"
  "Cmd.Env (Command sys name arg) = []"
  "CtxTimeoutMin (Command sys name arg) = None"
  by (simp_all add: Command_def Let_def split: prod.splits)

lemma cloneCommand_fields:
  "Path (cloneCommand sys cmd)
     = (if filepath_Base (Path cmd) = Path cmd \<and> fst (lookPath sys (Path cmd)) \<noteq> ''''
        then fst (lookPath sys (Path cmd)) else Path cmd)"
  "Args (cloneCommand sys cmd) = Path cmd # tl (Args cmd)"
  "Dir (cloneCommand sys cmd) = Dir cmd"
  "Cmd.Env (cloneCommand sys cmd) = Cmd.Env cmd"
  "CtxTimeoutMin (cloneCommand sys cmd) = None"
  by (simp_all add: cloneCommand_def Command_fields)

text \<open>A path with a directory part is not looked up again.\<close>

lemma cloneCommand_resolved_path:
  "filepath_Base (Path cmd) \<noteq> Path cmd \<Longrightarrow> Path (cloneCommand sys cmd) = Path cmd"
  by (simp add: cloneCommand_fields)

text \<open>
  Claim C6, as amended: for a step with a shell command (no \<^verbatim>\<open>uses\<close>, a non-empty
  \<^verbatim>\<open>run\<close>, outside dry-run mode) whose retry policy has \<open>MaxAttempts > 1\<close>, the process
  backend makes \<open>k\<close> attempts with \<open>1 \<le> k \<le> MaxAttempts\<close>. Each attempt is a command
  built anew by \<^verbatim>\<open>exec.Command\<close> from the path of the command prepared for the step and
  its arguments after the first: its argument vector starts with that path (not with the
  name of the shell as the prepared command has it) and goes on with the same arguments,
  its path is that path (looked up again when it has no directory part), its environment
  and directory are those of the prepared command, and it has no context, so the timeout
  of the step does not apply to it. The events are: the first attempt, then before each
  further attempt the delay (slept when it is not empty and parses as a duration), never
  before the first. Every attempt but the last one failed; when the last one succeeds the
  step succeeds, and when it fails all \<open>MaxAttempts\<close> attempts were made and the error
  says so and wraps the error of the last attempt.
\<close>

theorem retry_attempts:
  assumes "Uses step = ''''" and "Run step \<noteq> ''''" and "\<not> DryRun (BashRunner.config r)"
    and "Step.RetryPolicy step = Some policy" and "MaxAttempts policy > 1"
    and "BashRunner_RunStep r step env workdir w = (res, w')"
    and "cmd = stepCommand r step env workdir w"
  shows "\<exists>k attempt. 1 \<le> k \<and> int k \<le> MaxAttempts policy
     \<and> Path attempt
         = (if filepath_Base (Path cmd) = Path cmd \<and> fst (lookPath (os w) (Path cmd)) \<noteq> ''''
            then fst (lookPath (os w) (Path cmd)) else Path cmd)
     \<and> Args attempt = Path cmd # tl (Args cmd)
     \<and> Dir attempt = Dir cmd \<and> Cmd.Env attempt = Cmd.Env cmd \<and> CtxTimeoutMin attempt = None
     \<and> events w' = events w @ Exec attempt
           # concat (replicate (k - 1) (retryDelay policy w @ [Exec attempt]))
     \<and> (\<forall>i. Suc i < k \<longrightarrow> commandError r (proc (os w) (tick w + i) attempt) \<noteq> None)
     \<and> (case commandError r (proc (os w) (tick w + (k - 1)) attempt) of
          None \<Rightarrow> res = None
        | Some e \<Rightarrow> int k = MaxAttempts policy
            \<and> res = Some (WrapError (''all '' @ itoa (MaxAttempts policy)
                  @ '' attempts failed, last error: '' @ Error e) e))"
proof -
  let ?c = "cloneCommand (os w) cmd"
  from assms have run: "executeWithRetry r cmd step policy w = (res, w')"
    by (simp add: BashRunner_RunStep_def Let_def)
  have m: "MaxAttempts policy = (if MaxAttempts policy \<le> 0 then 1 else MaxAttempts policy)"
    using assms(5) by simp
  from executeWithRetry_trace[OF run m] obtain k where k:
    "1 \<le> k" "int k \<le> MaxAttempts policy"
    "events w' = events w @ Exec ?c # concat (replicate (k - 1) (retryDelay policy w @ [Exec ?c]))"
    "\<forall>i. Suc i < k \<longrightarrow> commandError r (proc (os w) (tick w + i) ?c) \<noteq> None"
    "case commandError r (proc (os w) (tick w + (k - 1)) ?c) of
          None \<Rightarrow> res = None
        | Some e \<Rightarrow> int k = MaxAttempts policy
            \<and> res = Some (Errorf_w (''all '' @ itoa (MaxAttempts policy)
                  @ '' attempts failed, last error: '') e)"
    by blast
  from k(5) have last: "case commandError r (proc (os w) (tick w + (k - 1)) ?c) of
          None \<Rightarrow> res = None
        | Some e \<Rightarrow> int k = MaxAttempts policy
            \<and> res = Some (WrapError (''all '' @ itoa (MaxAttempts policy)
                  @ '' attempts failed, last error: '' @ Error e) e)"
    by (simp add: Errorf_w_def split: option.splits)
  from k(1-4) last cloneCommand_fields[of "os w" cmd] show ?thesis
    by (intro exI[of _ k] exI[of _ ?c]) simp
qed

theorem retry_attempts_witness:
  "Uses step_retry = '''' \<and> Run step_retry \<noteq> ''''
   \<and> \<not> DryRun (BashRunner.config (NewBashRunner cfg0))
   \<and> Step.RetryPolicy step_retry = Some policy_retry \<and> MaxAttempts policy_retry > 1
   \<and> fst (BashRunner_RunStep (NewBashRunner cfg0) step_retry [] ''/w'' world_failing)
       = Some (WrapError ''all 3 attempts failed, last error: command failed: exit status 1''
                (ErrorString ''command failed: exit status 1''))
   \<and> stepCommand (NewBashRunner cfg0) step_retry [] ''/w'' world_failing
       = cmd_retry\<lparr>Args := [''bash'', ''-eo'', ''pipefail'', ''-c'', ''make'']\<rparr>
   \<and> events (snd (BashRunner_RunStep (NewBashRunner cfg0) step_retry [] ''/w'' world_failing))
       = [Exec cmd_retry, Sleep 5000000000, Exec cmd_retry, Sleep 5000000000, Exec cmd_retry]
   \<and> (\<exists>k attempt. 1 \<le> k \<and> int k \<le> MaxAttempts policy_retry
     \<and> Path attempt = ''/usr/bin/bash''
     \<and> Args attempt = [''/usr/bin/bash'', ''-eo'', ''pipefail'', ''-c'', ''make'']
     \<and> Dir attempt = ''/w'' \<and> Cmd.Env attempt = [''HOME=/root'']
     \<and> CtxTimeoutMin attempt = None
     \<and> events (snd (BashRunner_RunStep (NewBashRunner cfg0) step_retry [] ''/w'' world_failing))
         = events world_failing @ Exec attempt
           # concat (replicate (k - 1) (retryDelay policy_retry world_failing @ [Exec attempt]))
     \<and> (\<forall>i. Suc i < k \<longrightarrow>
           commandError (NewBashRunner cfg0)
             (proc (os world_failing) (tick world_failing + i) attempt) \<noteq> None)
     \<and> (case commandError (NewBashRunner cfg0)
               (proc (os world_failing) (tick world_failing + (k - 1)) attempt) of
          None \<Rightarrow> fst (BashRunner_RunStep (NewBashRunner cfg0) step_retry [] ''/w''
                     world_failing) = None
        | Some e \<Rightarrow> int k = MaxAttempts policy_retry
            \<and> fst (BashRunner_RunStep (NewBashRunner cfg0) step_retry [] ''/w'' world_failing)
                = Some (WrapError (''all '' @ itoa (MaxAttempts policy_retry)
                  @ '' attempts failed, last error: '' @ Error e) e)))"
proof -
  let ?run = "BashRunner_RunStep (NewBashRunner cfg0) step_retry [] ''/w'' world_failing"
  let ?cmd = "stepCommand (NewBashRunner cfg0) step_retry [] ''/w'' world_failing"
  have h: "Uses step_retry = ''''" "Run step_retry \<noteq> ''''"
    "\<not> DryRun (BashRunner.config (NewBashRunner cfg0))"
    "Step.RetryPolicy step_retry = Some policy_retry" "MaxAttempts policy_retry > 1"
    by (simp_all add: step_retry_def policy_retry_def step0_def NewBashRunner_def cfg0_def)
  have run: "?run = (fst ?run, snd ?run)" by simp
  have c: "?cmd = cmd_retry\<lparr>Args := [''bash'', ''-eo'', ''pipefail'', ''-c'', ''make'']\<rparr>"
    by (simp add: eval_defs step_retry_def policy_retry_def cmd_retry_def)
  have v: "fst ?run
       = Some (WrapError ''all 3 attempts failed, last error: command failed: exit status 1''
                (ErrorString ''command failed: exit status 1''))"
    "events (snd ?run)
       = [Exec cmd_retry, Sleep 5000000000, Exec cmd_retry, Sleep 5000000000, Exec cmd_retry]"
    by (simp_all add: eval_defs step_retry_def policy_retry_def cmd_retry_def
        executeWithRetry_def cloneCommand_def sleep_def allAttemptsFailed_def Errorf_w_def)
  have p: "filepath_Base ''/usr/bin/bash'' \<noteq> ''/usr/bin/bash''"
    by (simp add: filepath_Base_def)
  from retry_attempts[OF h run refl] obtain k attempt where k:
    "1 \<le> k" "int k \<le> MaxAttempts policy_retry"
    "Path attempt
         = (if filepath_Base (Path ?cmd) = Path ?cmd
               \<and> fst (lookPath (os world_failing) (Path ?cmd)) \<noteq> ''''
            then fst (lookPath (os world_failing) (Path ?cmd)) else Path ?cmd)"
    "Args attempt = Path ?cmd # tl (Args ?cmd)"
    "Dir attempt = Dir ?cmd" "Cmd.Env attempt = Cmd.Env ?cmd" "CtxTimeoutMin attempt = None"
    "events (snd ?run) = events world_failing @ Exec attempt
           # concat (replicate (k - 1) (retryDelay policy_retry world_failing @ [Exec attempt]))"
    "\<forall>i. Suc i < k \<longrightarrow>
           commandError (NewBashRunner cfg0)
             (proc (os world_failing) (tick world_failing + i) attempt) \<noteq> None"
    "case commandError (NewBashRunner cfg0)
               (proc (os world_failing) (tick world_failing + (k - 1)) attempt) of
          None \<Rightarrow> fst ?run = None
        | Some e \<Rightarrow> int k = MaxAttempts policy_retry
            \<and> fst ?run = Some (WrapError (''all '' @ itoa (MaxAttempts policy_retry)
                  @ '' attempts failed, last error: '' @ Error e) e)"
    by blast
  from k(3-7) p have f: "Path attempt = ''/usr/bin/bash''"
    "Args attempt = [''/usr/bin/bash'', ''-eo'', ''pipefail'', ''-c'', ''make'']"
    "Dir attempt = ''/w''" "Cmd.Env attempt = [''HOME=/root'']" "CtxTimeoutMin attempt = None"
    by (simp_all add: c cmd_retry_def)
  from h v c k(1,2,8,9,10) f show ?thesis by blast
qed

text \<open>
  Claim C6 as stated is for every step whose retry policy has \<open>MaxAttempts > 1\<close>.
  \<^verbatim>\<open>RunStep\<close> hands a step with \<^verbatim>\<open>uses\<close> to \<^verbatim>\<open>runActionStep\<close> before it reads the retry
  policy. A checkout step with \<open>MaxAttempts = 3\<close> and a delay, in a repository where
  \<^verbatim>\<open>git fetch\<close> fails: the two commands of the action are run once, nothing is slept or
  tried again, and the error returned does not say how many attempts were made.
\<close>

theorem retry_policy_not_read_for_action_step:
  "Step.RetryPolicy step_checkout = Some policy_retry \<and> MaxAttempts policy_retry = 3
   \<and> fst (BashRunner_RunStep (NewBashRunner cfg0) step_checkout [] ''/w'' world_fetch_fails)
       = Some (WrapError ''git fetch failed: exit status 1'' (ErrorString ''exit status 1''))
   \<and> events (snd (BashRunner_RunStep (NewBashRunner cfg0) step_checkout [] ''/w''
                    world_fetch_fails))
       = [Exec \<lparr>Path = ''/usr/bin/git'', Args = [''git'', ''rev-parse'', ''--git-dir''],
                 Dir = ''/w'', Cmd.Env = [], CtxTimeoutMin = None\<rparr>,
          Exec \<lparr>Path = ''/usr/bin/git'', Args = [''git'', ''fetch'', ''--all'', ''--tags''],
                 Dir = ''/w'', Cmd.Env = [], CtxTimeoutMin = None\<rparr>]"
  by (simp add: eval_defs step_checkout_def policy_retry_def world_fetch_fails_def
      fetch_fails_def runActionStep_def runCheckoutAction_def Errorf_w_def)

text \<open>
  In general: for a step with \<^verbatim>\<open>uses\<close>, \<^verbatim>\<open>RunStep\<close> is \<^verbatim>\<open>runActionStep\<close>, whatever the retry
  policy of the step.
\<close>

lemma RunStep_action_step:
  "Uses step \<noteq> '''' \<Longrightarrow>
   BashRunner_RunStep r step env workdir w = runActionStep r step env workdir w
   \<and> BashRunner_RunStep r (step\<lparr>Step.RetryPolicy := policy\<rparr>) env workdir w
       = BashRunner_RunStep r step env workdir w"
  by (simp add: BashRunner_RunStep_def runActionStep_def runCheckoutAction_def
      runSetupAction_def Let_def cong: if_cong)

section \<open>The containerized backend\<close>

lemma removeContainers_done:
  "list_all (\<lambda>c. 12 \<le> length c) cs \<Longrightarrow>
     \<exists>errors' w'. removeContainers cs errors w = (Done errors', w')"
proof (induction cs arbitrary: errors w)
  case Nil
  then show ?case by simp
next
  case (Cons c cs)
  then show ?case by (auto simp: Let_def split: option.splits)
qed

text \<open>
  For every shell step marked continue-on-error, the command and \<^verbatim>\<open>|| true\<close> are two
  consecutive lines of the script.
\<close>

lemma stepScript_continue_on_error:
  assumes "Uses step = ''''" and "Run step \<noteq> ''''" and "ContinueOnErr step"
  shows "\<exists>before after. stepScript stepNum totalSteps (step # rest)
           = before @ [Run step, ''|| true''] @ after"
proof -
  let ?before = "stepHeader (stepNum + 1) totalSteps step
        @ (if Step.WorkingDir step \<noteq> '''' then [''cd '' @ Step.WorkingDir step] else [])
        @ map (\<lambda>(k, v). ''export '' @ k @ ''='' @ quoted v) (Step.Env step)"
  let ?after = "[''echo '' @ quoted ''Step completed'']
        @ (if Step.WorkingDir step \<noteq> '''' then [''cd /workspace''] else [])
        @ stepScript (stepNum + 1) totalSteps rest"
  from assms have "stepScript stepNum totalSteps (step # rest)
      = ?before @ [Run step, ''|| true''] @ ?after"
    by simp
  then show ?thesis by blast
qed

text \<open>
  Claim C4 says that the generated script gives a shell step marked continue-on-error a
  failure-tolerant suffix. What \<^verbatim>\<open>buildJobScript\<close> appends is a line of its own: the script
  is the list of lines joined by newlines, and \<^verbatim>\<open>|| true\<close> is the element after the step's
  command, not the end of the command's line. Here is the script of a job whose only step
  is \<^verbatim>\<open>make lint\<close> with continue-on-error.
\<close>

theorem buildJobScript_continue_on_error_line:
  "jobScriptLines docker0 job_coe1 =
     [''#!/bin/sh'', ''set -e'', '''', ''echo '' @ quoted ''Setting up environment...'', '''',
      ''echo '' @ quoted '''', ''echo '' @ quoted ''[1/1] lint'',
      ''echo '' @ quoted (repeat ''-'' 60),
      ''make lint'',
      ''|| true'',
      ''echo '' @ quoted ''Step completed'',
      '''', ''echo '' @ quoted '''', ''echo '' @ quoted ''All steps completed successfully!'']
   \<and> buildJobScript docker0 job_coe1 = join (jobScriptLines docker0 job_coe1) [CHR 0x0A]
   \<and> ContinueOnErr step_coe \<and> Steps job_coe1 = [step_coe]"
  by (simp add: jobScriptLines_def buildJobScript_def docker0_def job_coe1_def job0_def
      step_coe_def step0_def cfg0_def stepHeader_def itoa_def digit_def)

text \<open>
  Claim C10: \<^verbatim>\<open>Cleanup\<close> of the containerized backend returns with the list of tracked
  containers empty, whatever the daemon answers to the removals, and a call of \<^verbatim>\<open>Cleanup\<close>
  right after it returns \<^verbatim>\<open>nil\<close> and leaves the world as it is (no removal is attempted).
  The identifiers that a runner tracks are at least twelve bytes long (\<open>tracked_ids_long\<close>:
  \<^verbatim>\<open>createContainer\<close> has sliced each of them to twelve bytes before \<^verbatim>\<open>RunJob\<close> tracks it).
\<close>

theorem Cleanup_resets_and_is_idempotent:
  assumes "list_all (\<lambda>c. 12 \<le> length c) (containers r)"
  shows "\<exists>err r' w'. DockerRunner_Cleanup r w = (Done err, r', w')
     \<and> containers r' = []
     \<and> DockerRunner_Cleanup r' w' = (Done None, r', w')"
proof (cases "containers r = []")
  case True
  then show ?thesis by (simp add: DockerRunner_Cleanup_def)
next
  case False
  from removeContainers_done[OF assms] obtain errors' w' where
    "removeContainers (containers r) [] w = (Done errors', w')"
    by blast
  with False show ?thesis
    by (simp add: DockerRunner_Cleanup_def Let_def)
qed

theorem Cleanup_resets_and_is_idempotent_witness:
  "list_all (\<lambda>c. 12 \<le> length c) (containers docker_tracking)
   \<and> fst (DockerRunner_Cleanup docker_tracking world_stuck)
       = Done (Some (ErrorString ''cleanup completed with 1 errors''))
   \<and> fst (snd (DockerRunner_Cleanup docker_tracking world_stuck))
       = docker_tracking\<lparr>containers := []\<rparr>
   \<and> events (snd (snd (DockerRunner_Cleanup docker_tracking world_stuck)))
       = [ContainerStop ''0123456789abcdef'', ContainerRemove ''0123456789abcdef'']
   \<and> DockerRunner_Cleanup (fst (snd (DockerRunner_Cleanup docker_tracking world_stuck)))
         (snd (snd (DockerRunner_Cleanup docker_tracking world_stuck)))
       = (Done None, fst (snd (DockerRunner_Cleanup docker_tracking world_stuck)),
          snd (snd (DockerRunner_Cleanup docker_tracking world_stuck)))"
proof -
  let ?first = "DockerRunner_Cleanup docker_tracking world_stuck"
  have h: "list_all (\<lambda>c. 12 \<le> length c) (containers docker_tracking)"
    by (simp add: docker_tracking_def docker0_def)
  have v: "fst ?first = Done (Some (ErrorString ''cleanup completed with 1 errors''))"
    "fst (snd ?first) = docker_tracking\<lparr>containers := []\<rparr>"
    "events (snd (snd ?first))
       = [ContainerStop ''0123456789abcdef'', ContainerRemove ''0123456789abcdef'']"
    by (simp_all add: DockerRunner_Cleanup_def docker_tracking_def docker0_def world_stuck_def
        world0_def daemon0_def asked_def did_def Let_def itoa_def digit_def)
  from Cleanup_resets_and_is_idempotent[OF h, of world_stuck] obtain err r' w' where
    "?first = (Done err, r', w')" "DockerRunner_Cleanup r' w' = (Done None, r', w')"
    by blast
  then have "DockerRunner_Cleanup (fst (snd ?first)) (snd (snd ?first))
       = (Done None, fst (snd ?first), snd (snd ?first))"
    by simp
  with h v show ?thesis by blast
qed

lemma new_runner_tracks_nothing:
  "NewDockerRunner cfg w = Inr r \<Longrightarrow> containers r = []"
  by (auto simp: NewDockerRunner_def split: option.splits if_splits)

section \<open>The containerized backend: tracked containers\<close>

lemma createContainer_long_id:
  "createContainer r job imageName workdir w = (Done (Inr ident), w') \<Longrightarrow> 12 \<le> length ident"
  by (auto simp: createContainer_def Let_def split: sum.splits if_splits)

lemma dockerRunJob_containers:
  assumes "dockerRunJob r job workdir w = (res, r', w')"
  shows "containers r' = containers r
       \<or> (\<exists>ident. 12 \<le> length ident \<and> containers r' = containers r @ [ident])"
proof (cases "DryRun (DockerRunner.config r)")
  case True
  with assms show ?thesis by (simp add: dockerRunJob_def Let_def)
next
  case False
  obtain present w1 where i: "imageExists (getImageName job) w = (present, w1)"
    by (cases "imageExists (getImageName job) w")
  obtain pullErr w2 where p:
    "(if PullImages (DockerRunner.config r) \<or> \<not> present
      then pullImage (getImageName job) w1 else (None, w1)) = (pullErr, w2)"
    by (cases "if PullImages (DockerRunner.config r) \<or> \<not> present
      then pullImage (getImageName job) w1 else (None, w1)")
  show ?thesis
  proof (cases pullErr)
    case (Some err)
    with assms False i p show ?thesis by (simp add: dockerRunJob_def Let_def)
  next
    case None
    obtain created w3 where c:
      "createContainer r job (getImageName job) workdir w2 = (created, w3)"
      by (cases "createContainer r job (getImageName job) workdir w2")
    show ?thesis
    proof (cases created)
      case (Panic msg)
      with assms False i p None c show ?thesis by (simp add: dockerRunJob_def Let_def)
    next
      case (Done answer)
      show ?thesis
      proof (cases answer)
        case (Inl err)
        with assms False i p None c Done show ?thesis by (simp add: dockerRunJob_def Let_def)
      next
        case (Inr ident)
        with c Done have long: "12 \<le> length ident"
          by (auto dest: createContainer_long_id)
        from assms False i p None c Done Inr
        have "containers r' = containers r @ [ident]"
          by (auto simp: dockerRunJob_def Let_def
              split: option.splits prod.splits wait_outcome.splits if_splits)
        with long show ?thesis by blast
      qed
    qed
  qed
qed

text \<open>
  A runner tracks nothing when it is created, and \<^verbatim>\<open>RunJob\<close> only adds identifiers of at
  least twelve bytes.
\<close>

lemma tracked_ids_long:
  "list_all (\<lambda>c. 12 \<le> length c) (containers r) \<Longrightarrow>
   dockerRunJob r job workdir w = (res, r', w') \<Longrightarrow>
   list_all (\<lambda>c. 12 \<le> length c) (containers r')"
  using dockerRunJob_containers[of r job workdir w res r' w'] by auto

section \<open>The job scheduler\<close>

lemmas sched_defs =
  CmdRun_def selectJobsToRun_def filterJobs_def runJobsSequential_def runJobsParallel_def
  runOneJob_def createRunner_def NewDockerRunner_def DockerRunner_RunJob_def dockerRunJob_def
  getImageName_def imageExists_def pullImage_def createContainer_def streamLogs_def
  DockerRunner_Cleanup_def buildJobScript_def jobScriptLines_def stepHeader_def
  buildEnvironment_def replaceChar_def toLower_def lowerChar_def
  flags0_def pipeline0_def world_exit1_def failedBeforeRun_def Errorf_w_def

text \<open>
  Claim C2 says that with the continue-on-error flag the run returns no error in either
  mode. One job, run in a container that exits with status 1, under
  \<^verbatim>\<open>--docker --continue-on-error\<close>: the sequential scheduler returns \<^verbatim>\<open>nil\<close>, the parallel
  scheduler counts the same and returns the error \<^verbatim>\<open>1 job(s) failed\<close>.
\<close>

theorem continue_on_error_flag_parallel_returns_error:
  "fst (CmdRun (flags0\<lparr>flagDocker := True, flagContinueOnError := True\<rparr>)
         (Inr pipeline0) (Inr ''/w'') cfg0 world_exit1)
     = Done \<lparr>returned = None, successes = 0, failures = 1, summaryPrinted = True\<rparr>
   \<and> fst (CmdRun (flags0\<lparr>flagDocker := True, flagContinueOnError := True, flagParallel := True\<rparr>)
         (Inr pipeline0) (Inr ''/w'') cfg0 world_exit1)
     = Done \<lparr>returned = Some (ErrorString ''1 job(s) failed''), successes = 0, failures = 1,
             summaryPrinted = True\<rparr>"
  by (simp add: sched_defs eval_defs)

lemma failedJobs_nonneg: "0 \<le> failedJobs f jobs"
  by (simp add: failedJobs_def)

lemma failedJobs_pos_iff: "0 < failedJobs f jobs \<longleftrightarrow> (\<exists>(name, job)\<in>set jobs. f name \<noteq> None)"
  by (auto simp: failedJobs_def filter_empty_conv)

lemma sequentialLoop_continue:
  "sequentialLoop True (\<lambda>name job w. (Finished (f name), w)) jobs sc fc w
     = (Done \<lparr>returned = None, successes = sc + succeededJobs f jobs,
              failures = fc + failedJobs f jobs, summaryPrinted = True\<rparr>, w)"
proof (induction jobs arbitrary: sc fc)
  case Nil
  then show ?case by (simp add: succeededJobs_def failedJobs_def)
next
  case (Cons entry jobs)
  obtain name job where entry: "entry = (name, job)" by (cases entry)
  show ?case
  proof (cases "f name")
    case None
    with Cons[of "sc + 1" fc] entry show ?thesis
      by (simp add: succeededJobs_def failedJobs_def)
  next
    case (Some err)
    with Cons[of sc "fc + 1"] entry show ?thesis
      by (simp add: succeededJobs_def failedJobs_def)
  qed
qed

lemma launchAll_pure:
  "launchAll (\<lambda>name job w. (Finished (f name), w)) jobs w
     = (Done (map (\<lambda>(name, job). (name, f name)) jobs), w)"
proof (induction jobs)
  case Nil
  then show ?case by simp
next
  case (Cons entry jobs)
  then show ?case by (cases entry) simp
qed

lemma collectResults_continue:
  "collectResults True (map (\<lambda>(name, job). (name, f name)) jobs) sc fc firstError
     = (sc + succeededJobs f jobs, fc + failedJobs f jobs, firstError)"
proof (induction jobs arbitrary: sc fc)
  case Nil
  then show ?case by (simp add: succeededJobs_def failedJobs_def)
next
  case (Cons entry jobs)
  obtain name job where entry: "entry = (name, job)" by (cases entry)
  show ?case
  proof (cases "f name")
    case None
    with Cons[of "sc + 1" fc] entry show ?thesis
      by (simp add: succeededJobs_def failedJobs_def)
  next
    case (Some err)
    with Cons[of sc "fc + 1"] entry show ?thesis
      by (simp add: succeededJobs_def failedJobs_def)
  qed
qed

text \<open>
  With the flag, and for any outcomes of the jobs, both schedulers count the same
  successes and failures; the sequential one returns \<^verbatim>\<open>nil\<close>, the parallel one returns an
  error as soon as one job failed.
\<close>

lemma schedulers_with_continue_flag:
  "runJobsSequential True (\<lambda>name job w. (Finished (f name), w)) jobs w
     = (Done \<lparr>returned = None, successes = succeededJobs f jobs, failures = failedJobs f jobs,
              summaryPrinted = True\<rparr>, w)
   \<and> runJobsParallel True (\<lambda>name job w. (Finished (f name), w)) jobs w
     = (Done \<lparr>returned = (if 0 < failedJobs f jobs
                           then Some (ErrorString (itoa (failedJobs f jobs) @ '' job(s) failed''))
                           else None),
              successes = succeededJobs f jobs, failures = failedJobs f jobs,
              summaryPrinted = True\<rparr>, w)"
  by (simp add: runJobsSequential_def runJobsParallel_def sequentialLoop_continue
      launchAll_pure collectResults_continue)

lemma sequentialLoop_fail_fast:
  "sequentialLoop False (\<lambda>name job w. (Finished (f name), w)) jobs sc fc w = (res, w') \<Longrightarrow>
   0 \<le> fc \<Longrightarrow>
   \<exists>result. res = Done result
     \<and> (returned result \<noteq> None \<longleftrightarrow> 0 < fc \<or> 0 < failedJobs f jobs)"
proof (induction jobs arbitrary: sc fc)
  case Nil
  then show ?case by (auto simp: failedJobs_def)
next
  case (Cons entry jobs)
  obtain name job where entry: "entry = (name, job)" by (cases entry)
  show ?case
  proof (cases "f name")
    case None
    with Cons.prems entry have
      "sequentialLoop False (\<lambda>name job w. (Finished (f name), w)) jobs (sc + 1) fc w = (res, w')"
      by simp
    from Cons.IH[OF this Cons.prems(2)] None entry show ?thesis
      by (simp add: failedJobs_def)
  next
    case (Some err)
    show ?thesis
    proof (cases "AllowFailure job")
      case False
      with Cons.prems Some entry show ?thesis
        by (auto simp: failedJobs_def)
    next
      case True
      with Cons.prems Some entry have
        "sequentialLoop False (\<lambda>name job w. (Finished (f name), w)) jobs sc (fc + 1) w = (res, w')"
        by simp
      from Cons.IH[OF this] Cons.prems(2) Some entry show ?thesis
        by (auto simp: failedJobs_def)
    qed
  qed
qed

lemma collectResults_fail_fast:
  "collectResults False (map (\<lambda>(name, job). (name, f name)) jobs) sc fc firstError
     = (sc', fc', firstError') \<Longrightarrow>
   fc' = fc + failedJobs f jobs
   \<and> (firstError' \<noteq> None \<longleftrightarrow> firstError \<noteq> None \<or> 0 < failedJobs f jobs)"
proof (induction jobs arbitrary: sc fc firstError)
  case Nil
  then show ?case by (simp add: failedJobs_def)
next
  case (Cons entry jobs)
  obtain name job where entry: "entry = (name, job)" by (cases entry)
  show ?case
  proof (cases "f name")
    case None
    with Cons.prems entry Cons.IH[of "sc + 1" fc firstError] show ?thesis
      by (simp add: failedJobs_def)
  next
    case (Some err)
    with Cons.prems entry
      Cons.IH[of sc "fc + 1" "if firstError = None then Some err else firstError"]
    show ?thesis
      by (auto simp: failedJobs_def split: if_splits)
  qed
qed

text \<open>
  Without the flag both schedulers return an error exactly when some job failed.
\<close>

lemma schedulers_without_continue_flag:
  "(\<exists>result. fst (runJobsSequential False (\<lambda>name job w. (Finished (f name), w)) jobs w)
        = Done result \<and> (returned result \<noteq> None \<longleftrightarrow> 0 < failedJobs f jobs))
   \<and> (\<exists>result. fst (runJobsParallel False (\<lambda>name job w. (Finished (f name), w)) jobs w)
        = Done result \<and> (returned result \<noteq> None \<longleftrightarrow> 0 < failedJobs f jobs))"
proof
  obtain res w' where r: "sequentialLoop False (\<lambda>name job w. (Finished (f name), w)) jobs 0 0 w
      = (res, w')"
    by (cases "sequentialLoop False (\<lambda>name job w. (Finished (f name), w)) jobs 0 0 w")
  from sequentialLoop_fail_fast[OF r] r
  show "\<exists>result. fst (runJobsSequential False (\<lambda>name job w. (Finished (f name), w)) jobs w)
        = Done result \<and> (returned result \<noteq> None \<longleftrightarrow> 0 < failedJobs f jobs)"
    by (auto simp: runJobsSequential_def)
next
  obtain sc fc fe where c:
    "collectResults False (map (\<lambda>(name, job). (name, f name)) jobs) 0 0 None = (sc, fc, fe)"
    by (cases "collectResults False (map (\<lambda>(name, job). (name, f name)) jobs) 0 0 None")
  from collectResults_fail_fast[OF c] c
  show "\<exists>result. fst (runJobsParallel False (\<lambda>name job w. (Finished (f name), w)) jobs w)
        = Done result \<and> (returned result \<noteq> None \<longleftrightarrow> 0 < failedJobs f jobs)"
    by (auto simp: runJobsParallel_def launchAll_pure split: option.splits)
qed

section \<open>The environment of a step\<close>

lemma lookupEnv_append:
  "lookupEnv (a @ b) k = (case lookupEnv b k of Some v \<Rightarrow> Some v | None \<Rightarrow> lookupEnv a k)"
  by (induction a) (auto split: option.splits)

lemma entryKey_keyValue: "CHR ''='' \<notin> set k \<Longrightarrow> entryKey (keyValue (k, v)) = k"
  by (auto simp: entryKey_def keyValue_def takeWhile_tail takeWhile_eq_all_conv)

lemma entryValue_keyValue:
  assumes "CHR ''='' \<notin> set k"
  shows "entryValue (keyValue (k, v)) = v"
proof -
  from assms have "dropWhile (\<lambda>c. c \<noteq> CHR ''='') k = []" by (auto simp: dropWhile_eq_Nil_conv)
  then show ?thesis by (simp add: entryValue_def keyValue_def dropWhile_append3)
qed

text \<open>
  The entries \<^verbatim>\<open>key=value\<close> made from a map are read back as that map.
\<close>

lemma lookupEnv_map:
  "envMap m \<Longrightarrow> lookupEnv (map keyValue m) k = map_of m k"
proof (induction m)
  case Nil
  then show ?case by simp
next
  case (Cons kv m)
  obtain a b where kv: "kv = (a, b)" by (cases kv)
  from Cons.prems kv have a: "CHR ''='' \<notin> set a" and m: "envMap m" and fresh: "a \<notin> fst ` set m"
    by (auto simp: envMap_def)
  from fresh have none: "map_of m a = None" by (simp add: map_of_eq_None_iff)
  have eq: "CHR ''='' \<in> set (keyValue (a, b))" by (simp add: keyValue_def)
  from Cons.IH[OF m] a none eq show ?case
    by (auto simp: kv entryKey_keyValue entryValue_keyValue split: option.splits)
qed

lemma foldl_update_map_of:
  "distinct (map fst env) \<Longrightarrow>
   map_of (foldl (\<lambda>res (k, v). AList.update k v res) acc env) k
     = (case map_of env k of Some v \<Rightarrow> Some v | None \<Rightarrow> map_of acc k)"
proof (induction env arbitrary: acc)
  case Nil
  then show ?case by simp
next
  case (Cons kv env)
  obtain a b where kv: "kv = (a, b)" by (cases kv)
  from Cons.prems kv have d: "distinct (map fst env)" and fresh: "a \<notin> fst ` set env" by auto
  from fresh have none: "map_of env a = None" by (simp add: map_of_eq_None_iff)
  from Cons.IH[OF d, of "AList.update a b acc"] none show ?case
    by (auto simp: kv update_conv' split: option.splits)
qed

lemma envMap_update:
  assumes "envMap m" and "CHR ''='' \<notin> set k"
  shows "envMap (AList.update k v m)"
proof -
  have keys: "fst ` set (AList.update k v m) = {k} \<union> fst ` set m" by (rule dom_update)
  have "\<forall>key\<in>fst ` set (AList.update k v m). CHR ''='' \<notin> set key"
    unfolding keys using assms by (auto simp: envMap_def list_all_iff)
  with assms(1) show ?thesis by (auto simp: envMap_def distinct_update list_all_iff)
qed

lemma foldl_update_envMap:
  "envMap acc \<Longrightarrow> envMap env \<Longrightarrow> envMap (foldl (\<lambda>res (k, v). AList.update k v res) acc env)"
proof (induction env arbitrary: acc)
  case Nil
  then show ?case by simp
next
  case (Cons kv env)
  obtain a b where kv: "kv = (a, b)" by (cases kv)
  from Cons.prems kv have env: "envMap env" and a: "CHR ''='' \<notin> set a"
    by (auto simp: envMap_def)
  from Cons.prems(1) a have "envMap (AList.update a b acc)" by (rule envMap_update)
  from Cons.IH[OF this env] show ?case by (simp add: kv)
qed

text \<open>
  \<^verbatim>\<open>mergeEnvironments(a, b)\<close>: the value of \<open>b\<close> where it has one, else that of \<open>a\<close>.
\<close>

lemma mergeEnvironments_map_of:
  assumes "distinct (map fst a)" and "distinct (map fst b)"
  shows "map_of (mergeEnvironments [a, b]) k
           = (case map_of b k of Some v \<Rightarrow> Some v | None \<Rightarrow> map_of a k)"
  by (simp add: mergeEnvironments_def foldl_update_map_of[OF assms(1)]
      foldl_update_map_of[OF assms(2)] split: option.splits)

lemma mergeEnvironments_envMap:
  assumes "envMap a" and "envMap b"
  shows "envMap (mergeEnvironments [a, b])"
proof -
  have "envMap []" by (simp add: envMap_def)
  from foldl_update_envMap[OF foldl_update_envMap[OF this assms(1)] assms(2)]
  show ?thesis by (simp add: mergeEnvironments_def)
qed

lemma stepCommand_Env:
  "Cmd.Env (stepCommand r step env workdir w) = buildStepEnvironment r w env (Step.Env step)"
  by (simp add: stepCommand_def Let_def)

lemma lookupEnv_buildStepEnvironment:
  assumes "envMap (environment r)" and "envMap jobEnv" and "envMap stepEnv"
  shows "lookupEnv (buildStepEnvironment r w jobEnv stepEnv)
           = lookupEnv (osEnviron (os w)) ++ map_of (environment r) ++ map_of jobEnv
               ++ map_of stepEnv"
  by (rule ext)
    (simp add: buildStepEnvironment_def lookupEnv_append lookupEnv_map[OF assms(1)]
      lookupEnv_map[OF assms(2)] lookupEnv_map[OF assms(3)] map_add_def split: option.splits)

lemma mergeEnvironments_map_add:
  assumes "envMap a" and "envMap b"
  shows "map_of (mergeEnvironments [a, b]) = map_of a ++ map_of b"
  using assms
  by (intro ext) (simp add: mergeEnvironments_map_of envMap_def map_add_def)

lemma buildStepEnvironment_os:
  "os w' = os w \<Longrightarrow> buildStepEnvironment r w' e s = buildStepEnvironment r w e s"
  by (simp add: buildStepEnvironment_def)

lemma prepareCommand_script:
  "tl (Args (prepareCommand sys shell script)) \<noteq> []"
  "last (tl (Args (prepareCommand sys shell script))) = script"
  by (simp_all add: prepareCommand_def Command_fields)

lemma stepCommand_script:
  "tl (Args (stepCommand r step env workdir w)) \<noteq> []"
  "last (tl (Args (stepCommand r step env workdir w))) = Run step"
  "last (Args (stepCommand r step env workdir w)) = Run step"
  using prepareCommand_script[of "os w" "getShell w (Shell step)" "Run step"]
  by (auto simp: stepCommand_def Let_def Command_fields last_tl)

lemma new_events:
  assumes "prefix (events w) (events w')"
    and "\<forall>cmd. Exec cmd \<in> set (drop (length (events w)) (events w')) \<longrightarrow> P cmd"
  shows "\<exists>new. events w' = events w @ new \<and> (\<forall>cmd. Exec cmd \<in> set new \<longrightarrow> P cmd)"
proof -
  from assms(1) obtain new where "events w' = events w @ new" by (auto simp: prefix_def)
  with assms(2) show ?thesis by auto
qed

lemma runCheckoutAction_trace:
  "runCheckoutAction r step workdir w = (res, w') \<Longrightarrow>
     os w' = os w \<and> prefix (events w) (events w')
     \<and> (\<forall>cmd. Exec cmd \<in> set (drop (length (events w)) (events w')) \<longrightarrow> Cmd.Env cmd = [])"
  by (auto simp: runCheckoutAction_def launch_def asked_def did_def Let_def Command_fields
      split: if_splits option.splits)

lemma runSetupAction_trace:
  "runSetupAction r action step version w = (res, w') \<Longrightarrow>
     os w' = os w \<and> prefix (events w) (events w')
     \<and> (\<forall>cmd. Exec cmd \<in> set (drop (length (events w)) (events w')) \<longrightarrow> Cmd.Env cmd = [])"
  by (auto simp: runSetupAction_def launch_def asked_def did_def Let_def Command_fields
      split: if_splits)

text \<open>The commands of an action are given no environment of their own.\<close>

lemma runActionStep_processes:
  assumes run: "runActionStep r step env workdir w = (res, w')"
  shows "os w' = os w
     \<and> (\<exists>new. events w' = events w @ new \<and> (\<forall>cmd. Exec cmd \<in> set new \<longrightarrow> Cmd.Env cmd = []))"
proof -
  let ?parts = "splitOn (CHR ''@'') (Uses step)"
  let ?version = "if length ?parts > 1 then ?parts ! 1 else ''latest''"
  from run consider
      (checkout) "runCheckoutAction r step workdir w = (res, w')"
    | (tool) "runSetupAction r (hd ?parts) step ?version w = (res, w')"
    | (other) "w' = w"
    by (auto simp: runActionStep_def Let_def split: if_splits)
  then show ?thesis
  proof cases
    case checkout
    from runCheckoutAction_trace[OF this] new_events[of w w' "\<lambda>cmd. Cmd.Env cmd = []"]
    show ?thesis by blast
  next
    case tool
    from runSetupAction_trace[OF this] new_events[of w w' "\<lambda>cmd. Cmd.Env cmd = []"]
    show ?thesis by blast
  next
    case other
    then show ?thesis by simp
  qed
qed

lemma retryDelay_cases: "retryDelay policy w = [] \<or> (\<exists>d. retryDelay policy w = [Sleep d])"
  by (cases "parseDuration (os w) (Delay policy)") (simp_all add: retryDelay_def)

lemma retry_trace_members:
  "Exec c \<in> set (concat (replicate n (retryDelay policy w @ [Exec a]))) \<Longrightarrow> c = a"
proof (induct n)
  case 0
  then show ?case by simp
next
  case (Suc n)
  from retryDelay_cases[of policy w] Suc show ?case by auto
qed

lemma executeWithRetry_processes:
  assumes "executeWithRetry r cmd step policy w = (res, w')"
  shows "os w' = os w
     \<and> (\<exists>new. events w' = events w @ new \<and> Exec (cloneCommand (os w) cmd) \<in> set new
           \<and> (\<forall>c. Exec c \<in> set new \<longrightarrow> c = cloneCommand (os w) cmd))"
proof -
  let ?c = "cloneCommand (os w) cmd"
  from executeWithRetry_trace[OF assms refl] obtain k where
    ev: "events w' = events w @ Exec ?c
        # concat (replicate (k - 1) (retryDelay policy w @ [Exec ?c]))"
    and os: "os w' = os w"
    by blast
  define new where "new = Exec ?c # concat (replicate (k - 1) (retryDelay policy w @ [Exec ?c]))"
  have mem: "Exec ?c \<in> set new" by (simp add: new_def)
  have every: "\<forall>c. Exec c \<in> set new \<longrightarrow> c = ?c"
    using retry_trace_members[of _ "k - 1" policy w ?c] by (auto simp: new_def)
  from ev have "events w' = events w @ new" by (simp add: new_def)
  with os mem every show ?thesis by blast
qed

lemma step_processesI:
  assumes "os w' = os w" and "events w' = events w @ new"
    and "\<And>cmd. Exec cmd \<in> set new \<Longrightarrow> P cmd"
    and "Q \<Longrightarrow> \<exists>cmd. Exec cmd \<in> set new \<and> R cmd"
  shows "os w' = os w
     \<and> (\<exists>new. events w' = events w @ new \<and> (\<forall>cmd. Exec cmd \<in> set new \<longrightarrow> P cmd)
           \<and> (Q \<longrightarrow> (\<exists>cmd. Exec cmd \<in> set new \<and> R cmd)))"
  using assms by blast

text \<open>
  The processes of one step: those of an action are given no environment; those of a
  shell command carry the script of the step and the environment built for it, and there
  is at least one.
\<close>

lemma RunStep_processes:
  assumes "BashRunner_RunStep r step env workdir w = (res, w')"
  shows "os w' = os w
     \<and> (\<exists>new. events w' = events w @ new
         \<and> (\<forall>cmd. Exec cmd \<in> set new \<longrightarrow>
               Cmd.Env cmd = []
               \<or> Uses step = '''' \<and> last (Args cmd) = Run step
                 \<and> Cmd.Env cmd = buildStepEnvironment r w env (Step.Env step))
         \<and> (Uses step = '''' \<and> Run step \<noteq> '''' \<and> \<not> DryRun (BashRunner.config r) \<longrightarrow>
               (\<exists>cmd. Exec cmd \<in> set new \<and> (last (Args cmd) = Run step
                  \<and> Cmd.Env cmd = buildStepEnvironment r w env (Step.Env step)))))"
proof (cases "Uses step \<noteq> ''''")
  case True
  with assms have "runActionStep r step env workdir w = (res, w')"
    by (simp add: BashRunner_RunStep_def)
  from runActionStep_processes[OF this] obtain new where
    n: "os w' = os w" "events w' = events w @ new" "\<forall>cmd. Exec cmd \<in> set new \<longrightarrow> Cmd.Env cmd = []"
    by blast
  show ?thesis
    by (rule step_processesI[OF n(1,2)]) (use n(3) True in auto)
next
  case shell: False
  show ?thesis
  proof (cases "Run step = '''' \<or> DryRun (BashRunner.config r)")
    case True
    with assms shell have "w' = w" by (auto simp: BashRunner_RunStep_def split: if_splits)
    then have n: "os w' = os w" "events w' = events w @ []" by simp_all
    show ?thesis
      by (rule step_processesI[OF n]) (use True in auto)
  next
    case False
    let ?cmd = "stepCommand r step env workdir w"
    let ?c = "cloneCommand (os w) ?cmd"
    have cmd: "last (Args ?cmd) = Run step"
      "Cmd.Env ?cmd = buildStepEnvironment r w env (Step.Env step)"
      by (simp_all add: stepCommand_script stepCommand_Env)
    have clone: "last (Args ?c) = Run step"
      "Cmd.Env ?c = buildStepEnvironment r w env (Step.Env step)"
      by (simp_all add: cloneCommand_fields stepCommand_script stepCommand_Env)
    from assms shell False consider
        (once) "executeCommand r ?cmd (Step.Name step) w = (res, w')"
      | (retry) policy where "executeWithRetry r ?cmd step policy w = (res, w')"
      by (auto simp: BashRunner_RunStep_def Let_def split: option.splits if_splits)
    then show ?thesis
    proof cases
      case once
      from executeCommand_fields[OF this] have n: "os w' = os w" "events w' = events w @ [Exec ?cmd]"
        by simp_all
      show ?thesis
      proof (rule step_processesI[OF n])
        fix cmd' assume "Exec cmd' \<in> set [Exec ?cmd]"
        then have "cmd' = ?cmd" by simp
        with cmd shell show "Cmd.Env cmd' = []
               \<or> Uses step = '''' \<and> last (Args cmd') = Run step
                 \<and> Cmd.Env cmd' = buildStepEnvironment r w env (Step.Env step)"
          by simp
      next
        from cmd show "\<exists>cmd. Exec cmd \<in> set [Exec ?cmd] \<and> (last (Args cmd) = Run step
                  \<and> Cmd.Env cmd = buildStepEnvironment r w env (Step.Env step))"
          by (intro exI[of _ ?cmd]) simp
      qed
    next
      case retry
      from executeWithRetry_processes[OF this] obtain new where
        n: "os w' = os w" "events w' = events w @ new" and mem: "Exec ?c \<in> set new"
        and every: "\<forall>c. Exec c \<in> set new \<longrightarrow> c = ?c"
        by blast
      show ?thesis
      proof (rule step_processesI[OF n])
        fix cmd' assume "Exec cmd' \<in> set new"
        with every have "cmd' = ?c" by blast
        with clone shell show "Cmd.Env cmd' = []
               \<or> Uses step = '''' \<and> last (Args cmd') = Run step
                 \<and> Cmd.Env cmd' = buildStepEnvironment r w env (Step.Env step)"
          by simp
      next
        from clone mem show "\<exists>cmd. Exec cmd \<in> set new \<and> (last (Args cmd) = Run step
                  \<and> Cmd.Env cmd = buildStepEnvironment r w env (Step.Env step))"
          by (intro exI[of _ ?c]) simp
      qed
    qed
  qed
qed

text \<open>
  The processes of the loop over the steps, in a world whose operating system is that of
  \<open>wref\<close>: every process that is given an environment is the shell command of a step of
  the list, with the environment built for that step; every step that the log reports as
  run is in the list, and if it has a shell command there is such a process for it.
\<close>

lemma runSteps_processes:
  assumes "runSteps r jobEnv absWorkdir steps summary log w = (summary', log', w')"
    and "os w = os wref"
  shows "os w' = os wref
     \<and> (\<exists>newlog new. log' = log @ newlog \<and> events w' = events w @ new
          \<and> set (ranSteps newlog) \<subseteq> set steps
          \<and> (\<forall>cmd. Exec cmd \<in> set new \<longrightarrow>
                Cmd.Env cmd = []
                \<or> (\<exists>step\<in>set steps. Uses step = '''' \<and> last (Args cmd) = Run step
                      \<and> Cmd.Env cmd = buildStepEnvironment r wref jobEnv (Step.Env step)))
          \<and> (\<forall>step\<in>set (ranSteps newlog).
                Uses step = '''' \<and> Run step \<noteq> '''' \<and> \<not> DryRun (BashRunner.config r) \<longrightarrow>
                (\<exists>cmd. Exec cmd \<in> set new \<and> last (Args cmd) = Run step
                   \<and> Cmd.Env cmd = buildStepEnvironment r wref jobEnv (Step.Env step))))"
proof -
  define shell where "shell = (\<lambda>(step :: Step) (cmd :: Cmd). last (Args cmd) = Run step
      \<and> Cmd.Env cmd = buildStepEnvironment r wref jobEnv (Step.Env step))"
  define wanted where "wanted = (\<lambda>step :: Step. Uses step = '''' \<and> Run step \<noteq> ''''
      \<and> \<not> DryRun (BashRunner.config r))"
  define good where "good = (\<lambda>(steps :: Step list) newlog new.
      set (ranSteps newlog) \<subseteq> set steps
      \<and> (\<forall>cmd. Exec cmd \<in> set new \<longrightarrow>
            Cmd.Env cmd = [] \<or> (\<exists>step\<in>set steps. Uses step = '''' \<and> shell step cmd))
      \<and> (\<forall>step\<in>set (ranSteps newlog). wanted step \<longrightarrow> (\<exists>cmd. Exec cmd \<in> set new \<and> shell step cmd)))"
  have g_done: "good steps [] []" "good steps [JobTimedOut] []" for steps
    by (simp_all add: good_def)
  have g_skip: "good (step # rest) (StepSkipped step # newlog) new"
    if "good rest newlog new" for step rest newlog new
    using that by (auto simp: good_def)
  have g_run: "good (step # rest) (StepCompleted step # newlog) (new1 @ new)"
      "good (step # rest) (StepFailed step err # newlog) (new1 @ new)"
    if "good rest newlog new"
      and "\<forall>cmd. Exec cmd \<in> set new1 \<longrightarrow> Cmd.Env cmd = [] \<or> Uses step = '''' \<and> shell step cmd"
      and "wanted step \<longrightarrow> (\<exists>cmd. Exec cmd \<in> set new1 \<and> shell step cmd)"
    for step rest newlog new new1 err
    using that by (auto simp: good_def)
  have "os w' = os wref
     \<and> (\<exists>newlog new. log' = log @ newlog \<and> events w' = events w @ new \<and> good steps newlog new)"
    using assms
  proof (induction steps arbitrary: summary log w)
    case Nil
    with g_done(1)[of "[]"] show ?case by auto
  next
    case (Cons step rest)
    obtain expired w0 where t: "jobTimedOut r w = (expired, w0)"
      by (cases "jobTimedOut r w")
    from jobTimedOut_cases[OF t] Cons.prems(2) have w0: "os w0 = os wref" "events w0 = events w"
      by (auto simp: asked_def)
    show ?case
    proof (cases expired)
      case True
      with Cons.prems(1) t have "log' = log @ [JobTimedOut]" "w' = w0" by auto
      with w0 g_done(2)[of "step # rest"] show ?thesis
        by (intro conjI exI[of _ "[JobTimedOut]"] exI[of _ "[]"]) simp_all
    next
      case notExpired: False
      show ?thesis
      proof (cases "shouldRunStep step jobEnv")
        case False
        with Cons.prems(1) t notExpired have
          "runSteps r jobEnv absWorkdir rest (summary\<lparr>SkippedSteps := SkippedSteps summary + 1\<rparr>)
             (log @ [StepSkipped step]) w0 = (summary', log', w')"
          by simp
        from Cons.IH[OF this w0(1)] obtain newlog new where
          "os w' = os wref" "log' = (log @ [StepSkipped step]) @ newlog"
          "events w' = events w0 @ new" "good rest newlog new"
          by blast
        with w0 g_skip[of rest newlog new step] show ?thesis
          by (intro conjI exI[of _ "StepSkipped step # newlog"] exI[of _ new]) simp_all
      next
        case True
        obtain res w1 where rs: "BashRunner_RunStep r step jobEnv absWorkdir w0 = (res, w1)"
          by (cases "BashRunner_RunStep r step jobEnv absWorkdir w0")
        from RunStep_processes[OF rs] obtain new1 where
          w1: "os w1 = os w0" "events w1 = events w0 @ new1"
          and p1: "\<forall>cmd. Exec cmd \<in> set new1 \<longrightarrow>
               Cmd.Env cmd = []
               \<or> Uses step = '''' \<and> last (Args cmd) = Run step
                 \<and> Cmd.Env cmd = buildStepEnvironment r w0 jobEnv (Step.Env step)"
          and p2: "Uses step = '''' \<and> Run step \<noteq> '''' \<and> \<not> DryRun (BashRunner.config r) \<longrightarrow>
               (\<exists>cmd. Exec cmd \<in> set new1 \<and> (last (Args cmd) = Run step
                  \<and> Cmd.Env cmd = buildStepEnvironment r w0 jobEnv (Step.Env step)))"
          by blast
        have env: "buildStepEnvironment r w0 jobEnv (Step.Env step)
            = buildStepEnvironment r wref jobEnv (Step.Env step)"
          by (rule buildStepEnvironment_os) (rule w0(1))
        from p1 have q1: "\<forall>cmd. Exec cmd \<in> set new1 \<longrightarrow>
            Cmd.Env cmd = [] \<or> Uses step = '''' \<and> shell step cmd"
          by (simp add: shell_def env)
        from p2 have q2: "wanted step \<longrightarrow> (\<exists>cmd. Exec cmd \<in> set new1 \<and> shell step cmd)"
          by (simp add: shell_def wanted_def env)
        from w1 w0 have os1: "os w1 = os wref" by simp
        have stop: ?thesis if "log' = log @ [StepFailed step err]" "w' = w1" for err
          using that w1 w0 g_run(2)[OF g_done(1)[of rest] q1 q2, of err]
          by (intro conjI exI[of _ "[StepFailed step err]"] exI[of _ new1]) simp_all
        have go: ?thesis
          if "runSteps r jobEnv absWorkdir rest s (log @ [report]) w1 = (summary', log', w')"
            and "report = StepCompleted step \<or> report = StepFailed step err"
          for s report err
        proof -
          from Cons.IH[OF that(1) os1] obtain newlog new where
            n: "os w' = os wref" "log' = (log @ [report]) @ newlog"
            "events w' = events w1 @ new" "good rest newlog new"
            by blast
          from that(2) g_run(1)[OF n(4) q1 q2] g_run(2)[OF n(4) q1 q2, of err]
          have "good (step # rest) (report # newlog) (new1 @ new)" by auto
          with n w1 w0 show ?thesis
            by (intro conjI exI[of _ "report # newlog"] exI[of _ "new1 @ new"]) simp_all
        qed
        show ?thesis
        proof (cases res)
          case None
          with Cons.prems(1) t notExpired True rs have
            "runSteps r jobEnv absWorkdir rest
               (summary\<lparr>CompletedSteps := CompletedSteps summary + 1\<rparr>)
               (log @ [StepCompleted step]) w1 = (summary', log', w')"
            by simp
          then show ?thesis by (rule go) simp
        next
          case (Some err)
          show ?thesis
          proof (cases "ContinueOnErr step")
            case False
            with Cons.prems(1) t notExpired True rs Some
            have "log' = log @ [StepFailed step err]" "w' = w1" by auto
            then show ?thesis by (rule stop)
          next
            case coe: True
            with Cons.prems(1) t notExpired True rs Some have
              "runSteps r jobEnv absWorkdir rest (summary\<lparr>FailedSteps := FailedSteps summary + 1\<rparr>)
                 (log @ [StepFailed step err]) w1 = (summary', log', w')"
              by simp
            then show ?thesis by (rule go) simp
          qed
        qed
      qed
    qed
  qed
  then show ?thesis
    unfolding good_def shell_def wanted_def by blast
qed

text \<open>
  \<^verbatim>\<open>setupJobEnvironment\<close>: the two \<^verbatim>\<open>git\<close> commands are given no environment; the
  configuration is kept; five markers are set, and no key is added but these and the two
  that \<^verbatim>\<open>git\<close> answers for.
\<close>

lemma setupJobEnvironment_trace:
  "setupJobEnvironment job workdir r w = (r1, w1) \<Longrightarrow>
     os w1 = os w \<and> prefix (events w) (events w1)
     \<and> (\<forall>cmd. Exec cmd \<in> set (drop (length (events w)) (events w1)) \<longrightarrow> Cmd.Env cmd = [])"
  by (auto simp: setupJobEnvironment_def getGitBranch_def getGitCommit_def launch_def asked_def
      did_def Let_def Command_fields split: if_splits)

lemma setupJobEnvironment_markers:
  assumes "setupJobEnvironment job workdir r w = (r1, w1)" and "envMap (environment r)"
  shows "envMap (environment r1)"
    and "BashRunner.config r1 = BashRunner.config r"
    and "map_of (environment r1) ''CI'' = Some ''true''"
    and "map_of (environment r1) ''GIT_CI'' = Some ''true''"
    and "map_of (environment r1) ''BASH_RUNNER'' = Some ''true''"
    and "map_of (environment r1) ''JOB_NAME'' = Some (Job.Name job)"
    and "map_of (environment r1) ''WORKSPACE'' = Some workdir"
  using assms
  by (auto simp: setupJobEnvironment_def Let_def envMap_update update_conv'
      split: prod.splits if_splits)

lemma setupJobEnvironment_keys:
  assumes "setupJobEnvironment job workdir r w = (r1, w1)"
  shows "fst ` set (environment r1) \<subseteq> fst ` set (environment r)
           \<union> set [''CI'', ''GIT_CI'', ''BASH_RUNNER'', ''JOB_NAME'', ''WORKSPACE'',
                  ''GIT_BRANCH'', ''GIT_COMMIT'']"
proof -
  obtain gitBranch w' where b: "getGitBranch workdir w = (gitBranch, w')"
    by (cases "getGitBranch workdir w")
  obtain gitCommit w'' where c: "getGitCommit workdir w' = (gitCommit, w'')"
    by (cases "getGitCommit workdir w'")
  from assms b c have "environment r1 =
      (let env = AList.update ''WORKSPACE'' workdir (AList.update ''JOB_NAME'' (Job.Name job)
             (AList.update ''BASH_RUNNER'' ''true'' (AList.update ''GIT_CI'' ''true''
               (AList.update ''CI'' ''true'' (environment r)))));
           env = (if gitBranch \<noteq> [] then AList.update ''GIT_BRANCH'' gitBranch env else env)
       in if gitCommit \<noteq> [] then AList.update ''GIT_COMMIT'' gitCommit env else env)"
    by (auto simp: setupJobEnvironment_def Let_def)
  then show ?thesis
    by (simp add: Let_def dom_update) blast
qed

text \<open>
  Claim C5, as amended. \<^verbatim>\<open>RunJob\<close> of the process backend has returned its summary. Then
  every step that it ran and that has a shell command was run in a process whose last
  argument is the script of the step and whose environment is built in layers, each later
  layer overriding the same-named keys of the earlier ones: the environment of the process
  itself (\<^verbatim>\<open>os.Environ()\<close>), then the markers injected by the backend, then the
  environment of the job, then the additional environment of the runner configuration
  (the variables given on the command line), then the environment of the step; what the
  process reads for a key is the value of the last layer that defines it. Every process
  that the job gives an environment of its own is such a process of one of its steps.
  The markers are \<^verbatim>\<open>CI\<close>, \<^verbatim>\<open>GIT_CI\<close>, \<^verbatim>\<open>BASH_RUNNER\<close>, \<^verbatim>\<open>JOB_NAME\<close> and \<^verbatim>\<open>WORKSPACE\<close>, with
  \<^verbatim>\<open>GIT_BRANCH\<close> and \<^verbatim>\<open>GIT_COMMIT\<close> at most (and what the runner held before). The
  pipeline-wide environment is not among the layers. The maps are Go maps of variables
  (no key twice, no \<^verbatim>\<open>=\<close> in a key).
\<close>

theorem step_environment_layers:
  assumes run: "runJob r job workdir w = (Inr (summary, log), r1, w1)"
    and maps: "envMap (environment r)" "envMap (Job.Environment job)"
      "envMap (RunnerConfig.Environment (BashRunner.config r))"
      "list_all (\<lambda>step. envMap (Step.Env step)) (Steps job)"
    and layers: "layers = (\<lambda>step.
        lookupEnv (osEnviron (os w)) ++ map_of (environment r1) ++ map_of (Job.Environment job)
          ++ map_of (RunnerConfig.Environment (BashRunner.config r)) ++ map_of (Step.Env step))"
    and started: "started = drop (length (events w)) (events w1)"
  shows "(\<forall>step\<in>set (ranSteps log).
            Uses step = '''' \<and> Run step \<noteq> '''' \<and> \<not> DryRun (BashRunner.config r) \<longrightarrow>
            (\<exists>cmd. Exec cmd \<in> set started \<and> last (Args cmd) = Run step
               \<and> lookupEnv (Cmd.Env cmd) = layers step))
     \<and> (\<forall>cmd. Exec cmd \<in> set started \<and> Cmd.Env cmd \<noteq> [] \<longrightarrow>
            (\<exists>step\<in>set (Steps job). Uses step = '''' \<and> last (Args cmd) = Run step
               \<and> lookupEnv (Cmd.Env cmd) = layers step))
     \<and> set (ranSteps log) \<subseteq> set (Steps job)
     \<and> map_of (environment r1) ''CI'' = Some ''true''
     \<and> map_of (environment r1) ''GIT_CI'' = Some ''true''
     \<and> map_of (environment r1) ''BASH_RUNNER'' = Some ''true''
     \<and> map_of (environment r1) ''JOB_NAME'' = Some (Job.Name job)
     \<and> (\<exists>absWorkdir. absPath (os w) workdir = Inr absWorkdir
           \<and> map_of (environment r1) ''WORKSPACE'' = Some absWorkdir)
     \<and> fst ` set (environment r1) \<subseteq> fst ` set (environment r)
           \<union> set [''CI'', ''GIT_CI'', ''BASH_RUNNER'', ''JOB_NAME'', ''WORKSPACE'',
                  ''GIT_BRANCH'', ''GIT_COMMIT'']"
proof -
  let ?jobEnv = "mergeEnvironments
      [Job.Environment job, RunnerConfig.Environment (BashRunner.config r)]"
  let ?s0 = "\<lparr>JobName = Job.Name job, TotalSteps = int (length (Steps job)),
               CompletedSteps = 0, FailedSteps = 0, SkippedSteps = 0,
               Duration = 0, Success = True, Errors = []\<rparr>"
  from run obtain absWorkdir where a: "absPath (os w) workdir = Inr absWorkdir"
    by (auto simp: runJob_def split: sum.splits)
  obtain r1' w0 where s: "setupJobEnvironment job absWorkdir r w = (r1', w0)"
    by (cases "setupJobEnvironment job absWorkdir r w")
  obtain s2 log2 w2 where
    l: "runSteps r1' ?jobEnv absWorkdir (Steps job) ?s0 [] w0 = (s2, log2, w2)"
    by (cases "runSteps r1' ?jobEnv absWorkdir (Steps job) ?s0 [] w0")
  from run a s l have res: "log = log2" "r1 = r1'" "w1 = snd (readClock w2)"
    by (auto simp: runJob_def Let_def split: if_splits prod.splits)
  then have ev1: "events w1 = events w2" by (simp add: readClock_def asked_def)
  note m = setupJobEnvironment_markers[OF s maps(1), folded res(2)]
  from setupJobEnvironment_trace[OF s]
    new_events[of w w0 "\<lambda>cmd. Cmd.Env cmd = []"]
  obtain new0 where w0: "os w0 = os w" "events w0 = events w @ new0"
    and n0: "\<forall>cmd. Exec cmd \<in> set new0 \<longrightarrow> Cmd.Env cmd = []"
    by blast
  from runSteps_processes[OF l w0(1)] res obtain new where
    ev2: "events w2 = events w0 @ new"
    and inside: "set (ranSteps log) \<subseteq> set (Steps job)"
    and every: "\<forall>cmd. Exec cmd \<in> set new \<longrightarrow>
                Cmd.Env cmd = []
                \<or> (\<exists>step\<in>set (Steps job). Uses step = '''' \<and> last (Args cmd) = Run step
                      \<and> Cmd.Env cmd = buildStepEnvironment r1 w ?jobEnv (Step.Env step))"
    and each: "\<forall>step\<in>set (ranSteps log).
                Uses step = '''' \<and> Run step \<noteq> '''' \<and> \<not> DryRun (BashRunner.config r1) \<longrightarrow>
                (\<exists>cmd. Exec cmd \<in> set new \<and> last (Args cmd) = Run step
                   \<and> Cmd.Env cmd = buildStepEnvironment r1 w ?jobEnv (Step.Env step))"
    by auto
  from started ev1 ev2 w0 have st: "started = new0 @ new" by simp
  have merged: "envMap ?jobEnv" using maps(2,3) by (rule mergeEnvironments_envMap)
  have read: "lookupEnv (buildStepEnvironment r1 w ?jobEnv (Step.Env step)) = layers step"
    if "step \<in> set (Steps job)" for step
  proof -
    from that maps(4) have "envMap (Step.Env step)" by (simp add: list_all_iff)
    from lookupEnv_buildStepEnvironment[OF m(1) merged this, of w]
    show ?thesis
      by (simp add: layers mergeEnvironments_map_add[OF maps(2,3)])
  qed
  have first: "\<forall>step\<in>set (ranSteps log).
            Uses step = '''' \<and> Run step \<noteq> '''' \<and> \<not> DryRun (BashRunner.config r) \<longrightarrow>
            (\<exists>cmd. Exec cmd \<in> set started \<and> last (Args cmd) = Run step
               \<and> lookupEnv (Cmd.Env cmd) = layers step)"
  proof (intro ballI impI)
    fix step assume step: "step \<in> set (ranSteps log)"
      and "Uses step = '''' \<and> Run step \<noteq> '''' \<and> \<not> DryRun (BashRunner.config r)"
    with each m(2) obtain cmd where "Exec cmd \<in> set new" "last (Args cmd) = Run step"
      "Cmd.Env cmd = buildStepEnvironment r1 w ?jobEnv (Step.Env step)"
      by auto
    with read[of step] step inside st
    show "\<exists>cmd. Exec cmd \<in> set started \<and> last (Args cmd) = Run step
               \<and> lookupEnv (Cmd.Env cmd) = layers step"
      by (intro exI[of _ cmd]) auto
  qed
  have second: "\<forall>cmd. Exec cmd \<in> set started \<and> Cmd.Env cmd \<noteq> [] \<longrightarrow>
            (\<exists>step\<in>set (Steps job). Uses step = '''' \<and> last (Args cmd) = Run step
               \<and> lookupEnv (Cmd.Env cmd) = layers step)"
  proof (intro allI impI)
    fix cmd assume c: "Exec cmd \<in> set started \<and> Cmd.Env cmd \<noteq> []"
    with st n0 have "Exec cmd \<in> set new" by auto
    with every c obtain step where "step \<in> set (Steps job)" "Uses step = ''''"
      "last (Args cmd) = Run step"
      "Cmd.Env cmd = buildStepEnvironment r1 w ?jobEnv (Step.Env step)"
      by blast
    with read[of step]
    show "\<exists>step\<in>set (Steps job). Uses step = '''' \<and> last (Args cmd) = Run step
               \<and> lookupEnv (Cmd.Env cmd) = layers step"
      by (intro bexI[of _ step]) simp_all
  qed
  from setupJobEnvironment_keys[OF s] res(2)
  have keys: "fst ` set (environment r1) \<subseteq> fst ` set (environment r)
           \<union> set [''CI'', ''GIT_CI'', ''BASH_RUNNER'', ''JOB_NAME'', ''WORKSPACE'',
                  ''GIT_BRANCH'', ''GIT_COMMIT'']"
    by simp
  from a m(7) have ws: "\<exists>absWorkdir. absPath (os w) workdir = Inr absWorkdir
           \<and> map_of (environment r1) ''WORKSPACE'' = Some absWorkdir"
    by simp
  from first second inside m(3-6) ws keys show ?thesis by blast
qed

text \<open>
  A job that sets \<^verbatim>\<open>TARGET=job\<close>, \<^verbatim>\<open>MODE=job\<close> and \<^verbatim>\<open>CI=job\<close>, with one step that sets
  \<^verbatim>\<open>MODE=step\<close>, run with \<^verbatim>\<open>--env TARGET=cli\<close>: the process of the step reads the value of
  the step for \<^verbatim>\<open>MODE\<close>, that of the command line for \<^verbatim>\<open>TARGET\<close>, that of the job for
  \<^verbatim>\<open>CI\<close> (over the marker), the marker for \<^verbatim>\<open>JOB_NAME\<close> and the environment of the process
  for \<^verbatim>\<open>HOME\<close>.
\<close>

theorem step_environment_layers_witness:
  "envMap (environment (NewBashRunner cfg_env)) \<and> envMap (Job.Environment job_env)
   \<and> envMap (RunnerConfig.Environment (BashRunner.config (NewBashRunner cfg_env)))
   \<and> list_all (\<lambda>step. envMap (Step.Env step)) (Steps job_env)
   \<and> (\<exists>cmd. Exec cmd \<in> set (events (snd (snd (runJob (NewBashRunner cfg_env) job_env ''/w''
                                    world0))))
         \<and> last (Args cmd) = ''make''
         \<and> lookupEnv (Cmd.Env cmd) ''MODE'' = Some ''step''
         \<and> lookupEnv (Cmd.Env cmd) ''TARGET'' = Some ''cli''
         \<and> lookupEnv (Cmd.Env cmd) ''CI'' = Some ''job''
         \<and> lookupEnv (Cmd.Env cmd) ''JOB_NAME'' = Some ''build''
         \<and> lookupEnv (Cmd.Env cmd) ''HOME'' = Some ''/root''
         \<and> lookupEnv (Cmd.Env cmd) ''DEPLOY_ENV'' = None)"
proof -
  let ?r = "NewBashRunner cfg_env"
  let ?res = "runJob ?r job_env ''/w'' world0"
  let ?step = "step0\<lparr>Step.Env := [(''MODE'', ''step'')]\<rparr>"
  have hyps: "envMap (environment ?r)" "envMap (Job.Environment job_env)"
      "envMap (RunnerConfig.Environment (BashRunner.config ?r))"
      "list_all (\<lambda>step. envMap (Step.Env step)) (Steps job_env)"
    by (simp_all add: envMap_def NewBashRunner_def job_env_def job0_def step0_def cfg_env_def
        cfg0_def)
  have inr: "fst ?res = Inr (fst (projr (fst ?res)), snd (projr (fst ?res)))"
    by (simp add: eval_defs job_env_def cfg_env_def)
  then have run: "?res = (Inr (fst (projr (fst ?res)), snd (projr (fst ?res))),
      fst (snd ?res), snd (snd ?res))"
    by (simp add: prod_eq_iff)
  have log: "snd (projr (fst ?res)) = [StepCompleted ?step]"
    by (simp add: eval_defs job_env_def cfg_env_def)
  have markers: "environment (fst (snd ?res)) = [(''CI'', ''true''), (''GIT_CI'', ''true''),
      (''BASH_RUNNER'', ''true''), (''JOB_NAME'', ''build''), (''WORKSPACE'', ''/w'')]"
    by (simp add: eval_defs job_env_def cfg_env_def)
  have step: "?step \<in> set (ranSteps (snd (projr (fst ?res))))"
    by (simp add: log)
  have shell: "Uses ?step = '''' \<and> Run ?step \<noteq> '''' \<and> \<not> DryRun (BashRunner.config ?r)"
    by (simp add: step0_def NewBashRunner_def cfg_env_def cfg0_def)
  from step_environment_layers[OF run hyps refl refl] step shell
  obtain cmd where cmd:
    "Exec cmd \<in> set (drop (length (events world0)) (events (snd (snd ?res))))"
    "last (Args cmd) = Run ?step"
    "lookupEnv (Cmd.Env cmd) =
       lookupEnv (osEnviron (os world0)) ++ map_of (environment (fst (snd ?res)))
         ++ map_of (Job.Environment job_env)
         ++ map_of (RunnerConfig.Environment (BashRunner.config ?r)) ++ map_of (Step.Env ?step)"
    by blast
  from cmd(1) have mem: "Exec cmd \<in> set (events (snd (snd ?res)))"
    by (simp add: world0_def)
  have reads: "lookupEnv (Cmd.Env cmd) ''MODE'' = Some ''step''"
    "lookupEnv (Cmd.Env cmd) ''TARGET'' = Some ''cli''"
    "lookupEnv (Cmd.Env cmd) ''CI'' = Some ''job''"
    "lookupEnv (Cmd.Env cmd) ''JOB_NAME'' = Some ''build''"
    "lookupEnv (Cmd.Env cmd) ''HOME'' = Some ''/root''"
    "lookupEnv (Cmd.Env cmd) ''DEPLOY_ENV'' = None"
    unfolding cmd(3) markers
    by (simp_all add: map_add_def world0_def os0_def job_env_def job0_def cfg_env_def cfg0_def
        NewBashRunner_def step0_def entryKey_def entryValue_def)
  from cmd(2) have script: "last (Args cmd) = ''make''" by (simp add: step0_def)
  from hyps mem script reads show ?thesis by blast
qed

text \<open>
  Claim C5 as stated says that every variable of the pipeline-wide environment is in the
  environment of every executed step. A pipeline with \<^verbatim>\<open>DEPLOY_ENV=staging\<close> in its environment
  and one job with one step, run by \<^verbatim>\<open>CmdRun\<close> on the process backend: the job succeeds, and
  the environment of the command of its step has no entry for \<^verbatim>\<open>DEPLOY_ENV\<close>.
\<close>

theorem pipeline_environment_not_passed:
  "Pipeline.Environment pipeline0 = [(''DEPLOY_ENV'', ''staging'')]
   \<and> fst (CmdRun flags0 (Inr pipeline0) (Inr ''/w'') cfg0 world0)
       = Done \<lparr>returned = None, successes = 1, failures = 0, summaryPrinted = True\<rparr>
   \<and> last (events (snd (CmdRun flags0 (Inr pipeline0) (Inr ''/w'') cfg0 world0)))
       = Exec \<lparr>Path = ''/usr/bin/bash'',
               Args = [''bash'', ''-eo'', ''pipefail'', ''-c'', ''make''], Dir = ''/w'',
               Cmd.Env = [''HOME=/root'', ''CI=true'', ''GIT_CI=true'', ''BASH_RUNNER=true'',
                          ''JOB_NAME=build'', ''WORKSPACE=/w''],
               CtxTimeoutMin = None\<rparr>
   \<and> lookupEnv [''HOME=/root'', ''CI=true'', ''GIT_CI=true'', ''BASH_RUNNER=true'',
                  ''JOB_NAME=build'', ''WORKSPACE=/w''] ''DEPLOY_ENV'' = None"
  by (simp add: sched_defs eval_defs entryKey_def BashRunner_Cleanup_def)

text \<open>
  \<^verbatim>\<open>CmdRun\<close> does not read the pipeline-wide environment: the run of a pipeline is the run
  of the same pipeline with any other environment.
\<close>

lemma getJobsByStage_ignores_pipeline_environment:
  "getJobsByStage (pipeline\<lparr>Pipeline.Environment := e\<rparr>) stage = getJobsByStage pipeline stage"
  by (simp add: getJobsByStage_def)

lemma selectJobsToRun_ignores_pipeline_environment:
  "selectJobsToRun c (pipeline\<lparr>Pipeline.Environment := e\<rparr>) = selectJobsToRun c pipeline"
  unfolding selectJobsToRun_def getJobsByStage_ignores_pipeline_environment by simp

lemma CmdRun_ignores_pipeline_environment:
  "CmdRun c (Inr (pipeline\<lparr>Pipeline.Environment := e\<rparr>)) workdirResult cfg w
     = CmdRun c (Inr pipeline) workdirResult cfg w"
  by (simp add: CmdRun_def selectJobsToRun_ignores_pipeline_environment split: sum.splits)

end
